(* ===== verification/Prelude.thy ===== *)
theory Prelude
  imports Main "HOL-Library.Sublist"
begin

text \<open>
  Shared ground of the development: the error values of the Go code, the shape of its effectful
  calls, the lemma collections, and the generic list lemmas the components use.

  \<^item> A Go error is a value of \<open>err\<close>. \<open>Errorf f as\<close> is \<^verbatim>\<open>fmt.Errorf(f, as...)\<close> with the format
    string kept as the source writes it and the operands unformatted; an operand under a
    \<^verbatim>\<open>%w\<close> verb is \<open>FErr\<close>. \<open>JoinErr\<close> is \<^verbatim>\<open>errors.Join\<close>, and \<open>ExtErr\<close> is an error that
    comes from code outside the repository.
  \<^item> A Go string is a \<open>string\<close>, one \<open>char\<close> per byte.
  \<^item> A call with effects takes the world last and returns the new world with the result.
\<close>

section \<open>Errors\<close>

datatype err =
    Errorf string "farg list"
  | JoinErr "err list"
  | ExtErr string
and farg =
    FStr string
  | FInt int
  | FStrs "string list"
  | FErr err

text \<open>\<^verbatim>\<open>errors.Is\<close> along the wrapping chain: the target itself, an error wrapped by \<^verbatim>\<open>%w\<close>, or one
  of the joined errors.\<close>

fun err_is :: "err \<Rightarrow> err \<Rightarrow> bool"
  and farg_is :: "farg \<Rightarrow> err \<Rightarrow> bool" where
  "err_is (Errorf f as) t \<longleftrightarrow> Errorf f as = t \<or> list_ex (\<lambda>a. farg_is a t) as"
| "err_is (JoinErr es) t \<longleftrightarrow> JoinErr es = t \<or> list_ex (\<lambda>e. err_is e t) es"
| "err_is (ExtErr s) t \<longleftrightarrow> ExtErr s = t"
| "farg_is (FErr e) t \<longleftrightarrow> err_is e t"
| "farg_is (FStr _) t \<longleftrightarrow> False"
| "farg_is (FInt _) t \<longleftrightarrow> False"
| "farg_is (FStrs _) t \<longleftrightarrow> False"

lemma err_is_refl [simp, intro]: "err_is e e"
  by (cases e) auto

text \<open>\<^verbatim>\<open>errors.Join(err, e)\<close> with a possibly nil first operand; nil operands are dropped.\<close>

definition errors_Join :: "err option \<Rightarrow> err \<Rightarrow> err" where
  "errors_Join acc e = JoinErr (case acc of None \<Rightarrow> [e] | Some a \<Rightarrow> [a, e])"

lemma err_is_errors_Join [simp]:
  "err_is (errors_Join acc e) t \<longleftrightarrow>
     errors_Join acc e = t \<or> (\<exists>a. acc = Some a \<and> err_is a t) \<or> err_is e t"
  by (auto simp: errors_Join_def split: option.splits)

section \<open>Result shapes\<close>

type_synonym 'a result = "err + 'a"
type_synonym validation = "err option"
type_synonym ('w, 'a) effect = "'w \<Rightarrow> 'a result \<times> 'w"
type_synonym 'a handler_ret = "'a \<times> err option"
type_synonym strs = "string list"

abbreviation ok :: validation where
  "ok \<equiv> None"

definition result_of :: "'a handler_ret \<Rightarrow> 'a result" where
  "result_of r = (case snd r of None \<Rightarrow> Inr (fst r) | Some e \<Rightarrow> Inl e)"

lemma result_of_simps [simp]:
  "result_of (x, None) = Inr x"
  "result_of (x, Some e) = Inl e"
  by (simp_all add: result_of_def)

section \<open>Lemma collections\<close>

named_theorems go_defs \<open>definitions of the modelled Go functions that proofs unfold\<close>
named_theorems go_valid \<open>what an accepted input of a validator looks like\<close>
named_theorems go_lines \<open>line-processing facts\<close>

section \<open>Generic list lemmas\<close>

lemma subseq_take [go_lines]: "subseq (take n xs) xs"
  by (simp add: take_is_prefix prefix_imp_subseq)

lemma subseq_drop [go_lines]: "subseq (drop n xs) xs"
  by (simp add: suffix_drop suffix_imp_subseq)

lemma list_all_subseq: "subseq xs ys \<Longrightarrow> list_all P ys \<Longrightarrow> list_all P xs"
  by (auto simp: list_all_iff dest: list_emb_set)

end
