(* ===== verification/GoStrings.thy ===== *)
theory GoStrings
  imports Prelude
begin

text \<open>
  The functions of Go's \<^verbatim>\<open>strings\<close> and \<^verbatim>\<open>strconv\<close> packages the repository calls, on byte strings.

  White space is Unicode white space, recognised by its UTF-8 encoding: the lead byte of an
  encoding never occurs inside another one, so matching encodings from the left (for
  \<open>TrimSpace\<close> on the left end and \<open>Fields\<close>) or from the right (for the right end of
  \<open>TrimSpace\<close>) sees exactly the runes Go decodes there.
\<close>

section \<open>Characters\<close>

abbreviation code :: "char \<Rightarrow> nat" where
  "code c \<equiv> of_char c"

definition newline :: char where
  "newline = CHR 0x0A"

definition is_digit :: "char \<Rightarrow> bool" where
  "is_digit c \<longleftrightarrow> 48 \<le> code c \<and> code c \<le> 57"

definition ascii_space :: "char \<Rightarrow> bool" where
  "ascii_space c \<longleftrightarrow> (9 \<le> code c \<and> code c \<le> 13) \<or> code c = 32"

section \<open>Leading and trailing white space runes\<close>

text \<open>Length in bytes of the white space rune a string starts with, 0 when there is none: ASCII
  space, U+0085, U+00A0, U+1680, U+2000 to U+200A, U+2028, U+2029, U+202F, U+205F, U+3000.\<close>

definition space2 :: "nat \<Rightarrow> nat \<Rightarrow> bool" where
  "space2 a b \<longleftrightarrow> a = 0xC2 \<and> (b = 0x85 \<or> b = 0xA0)"

definition space3 :: "nat \<Rightarrow> nat \<Rightarrow> nat \<Rightarrow> bool" where
  "space3 a b c \<longleftrightarrow>
     (a = 0xE1 \<and> b = 0x9A \<and> c = 0x80) \<or>
     (a = 0xE2 \<and> b = 0x80 \<and> (0x80 \<le> c \<and> c \<le> 0x8A \<or> c = 0xA8 \<or> c = 0xA9 \<or> c = 0xAF)) \<or>
     (a = 0xE2 \<and> b = 0x81 \<and> c = 0x9F) \<or>
     (a = 0xE3 \<and> b = 0x80 \<and> c = 0x80)"

definition space_len :: "string \<Rightarrow> nat" where
  "space_len s = (case s of
       [] \<Rightarrow> 0
     | a # s1 \<Rightarrow> if ascii_space a then 1 else (case s1 of
         [] \<Rightarrow> 0
       | b # s2 \<Rightarrow> if space2 (code a) (code b) then 2 else (case s2 of
           [] \<Rightarrow> 0
         | c # _ \<Rightarrow> if space3 (code a) (code b) (code c) then 3 else 0)))"

text \<open>The same for the rune a string ends with, on the reversed string.\<close>

definition space_rlen :: "string \<Rightarrow> nat" where
  "space_rlen r = (case r of
       [] \<Rightarrow> 0
     | c # r1 \<Rightarrow> if ascii_space c then 1 else (case r1 of
         [] \<Rightarrow> 0
       | b # r2 \<Rightarrow> if space2 (code b) (code c) then 2 else (case r2 of
           [] \<Rightarrow> 0
         | a # _ \<Rightarrow> if space3 (code a) (code b) (code c) then 3 else 0)))"

lemma space_len_le: "space_len s \<le> length s"
  by (auto simp: space_len_def split: list.splits)

lemma space_rlen_le: "space_rlen s \<le> length s"
  by (auto simp: space_rlen_def split: list.splits)

lemma space_len_Nil [simp]: "space_len [] = 0" and space_rlen_Nil [simp]: "space_rlen [] = 0"
  by (simp_all add: space_len_def space_rlen_def)

lemma space_len_append: "0 < space_len p \<Longrightarrow> space_len (p @ q) = space_len p"
  by (auto simp: space_len_def split: list.splits if_splits)

section \<open>TrimSpace and Fields\<close>

function trim_left :: "string \<Rightarrow> string" where
  "trim_left s = (let k = space_len s in if k = 0 then s else trim_left (drop k s))"
  by pat_completeness auto
termination
proof (relation "measure length", goal_cases)
  case (2 s x)
  then show ?case using space_len_le [of s] by (cases s) auto
qed simp

function trim_rev :: "string \<Rightarrow> string" where
  "trim_rev s = (let k = space_rlen s in if k = 0 then s else trim_rev (drop k s))"
  by pat_completeness auto
termination
proof (relation "measure length", goal_cases)
  case (2 s x)
  then show ?case using space_rlen_le [of s] by (cases s) auto
qed simp

declare trim_left.simps [simp del] trim_rev.simps [simp del]

definition TrimSpace :: "string \<Rightarrow> string" where
  "TrimSpace s = rev (trim_rev (rev (trim_left s)))"

function fields_from :: "string \<Rightarrow> string \<Rightarrow> string list" where
  "fields_from cur s =
     (if s = [] then (if cur = [] then [] else [cur])
      else (let k = space_len s in
        if k = 0 then fields_from (cur @ [hd s]) (tl s)
        else (if cur = [] then [] else [cur]) @ fields_from [] (drop k s)))"
  by pat_completeness auto
termination
proof (relation "measure (length \<circ> snd)", goal_cases)
  case (3 cur s x)
  then show ?case using space_len_le [of s] by (cases s) auto
qed auto

declare fields_from.simps [simp del]

definition Fields :: "string \<Rightarrow> string list" where
  "Fields s = fields_from [] s"

section \<open>Split, Join, prefixes and searching\<close>

fun Split :: "char \<Rightarrow> string \<Rightarrow> string list" where
  "Split c [] = [[]]"
| "Split c (x # s) =
     (if x = c then [] # Split c s
      else (case Split c s of [] \<Rightarrow> [[x]] | y # ys \<Rightarrow> (x # y) # ys))"

fun Join :: "string list \<Rightarrow> string \<Rightarrow> string" where
  "Join [] sep = []"
| "Join [x] sep = x"
| "Join (x # y # ys) sep = x @ sep @ Join (y # ys) sep"

definition HasPrefix :: "string \<Rightarrow> string \<Rightarrow> bool" where
  "HasPrefix s p \<longleftrightarrow> take (length p) s = p"

definition HasSuffix :: "string \<Rightarrow> string \<Rightarrow> bool" where
  "HasSuffix s p \<longleftrightarrow> HasPrefix (rev s) (rev p)"

definition TrimPrefix :: "string \<Rightarrow> string \<Rightarrow> string" where
  "TrimPrefix s p = (if HasPrefix s p then drop (length p) s else s)"

definition TrimSuffix :: "string \<Rightarrow> string \<Rightarrow> string" where
  "TrimSuffix s p = (if HasSuffix s p then take (length s - length p) s else s)"

definition CutPrefix :: "string \<Rightarrow> string \<Rightarrow> string option" where
  "CutPrefix s p = (if HasPrefix s p then Some (drop (length p) s) else None)"

fun Contains :: "string \<Rightarrow> string \<Rightarrow> bool" where
  "Contains [] sub \<longleftrightarrow> sub = []"
| "Contains (c # s) sub \<longleftrightarrow> HasPrefix (c # s) sub \<or> Contains s sub"

fun LastIndex :: "string \<Rightarrow> char \<Rightarrow> int" where
  "LastIndex [] c = -1"
| "LastIndex (x # s) c =
     (let i = LastIndex s c in if 0 \<le> i then i + 1 else if x = c then 0 else -1)"

text \<open>
  \<^verbatim>\<open>strings.ToLower\<close> as far as an ASCII pattern can observe it: ASCII capitals, and the two
  runes outside ASCII whose lower case is an ASCII letter, U+0130 (lower case i) and
  U+212A (lower case k). Every other rune outside ASCII is mapped by Go to a rune outside
  ASCII; it is left as it is here.
\<close>

definition lower_ascii :: "char \<Rightarrow> char" where
  "lower_ascii c = (if 65 \<le> code c \<and> code c \<le> 90 then char_of (code c + 32) else c)"

fun ToLower :: "string \<Rightarrow> string" where
  "ToLower (a # b # c # s) =
     (if code a = 0xE2 \<and> code b = 0x84 \<and> code c = 0xAA then CHR ''k'' # ToLower s
      else if code a = 0xC4 \<and> code b = 0xB0 then CHR ''i'' # ToLower (c # s)
      else lower_ascii a # ToLower (b # c # s))"
| "ToLower [a, b] =
     (if code a = 0xC4 \<and> code b = 0xB0 then [CHR ''i''] else [lower_ascii a, lower_ascii b])"
| "ToLower [a] = [lower_ascii a]"
| "ToLower [] = []"

section \<open>Atoi and Itoa\<close>

definition digit_val :: "char \<Rightarrow> int" where
  "digit_val c = int (code c) - 48"

definition digits_val :: "string \<Rightarrow> int" where
  "digits_val s = foldl (\<lambda>n c. 10 * n + digit_val c) 0 s"

text \<open>\<^verbatim>\<open>strconv.Atoi\<close> with a 64-bit \<^verbatim>\<open>int\<close>: \<open>None\<close> for the syntax and the range error.\<close>

definition Atoi :: "string \<Rightarrow> int option" where
  "Atoi s =
     (let neg = (s \<noteq> [] \<and> hd s = CHR ''-'');
          ds = (if s \<noteq> [] \<and> (hd s = CHR ''-'' \<or> hd s = CHR ''+'') then tl s else s);
          n = (if neg then - digits_val ds else digits_val ds)
      in if ds = [] \<or> \<not> list_all is_digit ds then None
         else if n < - (2 ^ 63) \<or> 2 ^ 63 \<le> n then None else Some n)"

fun nat_digits :: "nat \<Rightarrow> string" where
  "nat_digits n =
     (if n < 10 then [char_of (48 + n)] else nat_digits (n div 10) @ [char_of (48 + n mod 10)])"

declare nat_digits.simps [simp del]

definition Itoa :: "int \<Rightarrow> string" where
  "Itoa i = (if i < 0 then CHR ''-'' # nat_digits (nat (- i)) else nat_digits (nat i))"

section \<open>Split and Join\<close>

lemma Split_not_Nil [simp]: "Split c s \<noteq> []"
  by (induction s) (auto split: list.splits)

lemma Join_Cons: "Join (x # xs) sep = (if xs = [] then x else x @ sep @ Join xs sep)"
  by (cases xs) auto

lemma Join_snoc: "Join (xs @ [x]) sep = (if xs = [] then x else Join xs sep @ sep @ x)"
  by (induction xs) (auto simp: Join_Cons)

lemma Join_Split [simp]: "Join (Split c s) [c] = s"
proof (induction s)
  case (Cons x s)
  show ?case
  proof (cases "Split c s")
    case (Cons y ys)
    then show ?thesis using Cons.IH by (auto simp: Join_Cons split: if_splits)
  qed (use Split_not_Nil [of c s] in simp)
qed simp

lemma Split_no_sep: "c \<notin> set s \<Longrightarrow> Split c s = [s]"
  by (induction s) auto

lemma Split_append_sep: "c \<notin> set s \<Longrightarrow> Split c (s @ c # t) = s # Split c t"
  by (induction s) auto

lemma Split_Join [simp]:
  "xs \<noteq> [] \<Longrightarrow> \<forall>x \<in> set xs. c \<notin> set x \<Longrightarrow> Split c (Join xs [c]) = xs"
proof (induction xs)
  case (Cons x xs)
  then show ?case by (cases "xs = []") (auto simp: Join_Cons Split_no_sep Split_append_sep)
qed simp

lemma Split_chars:
  "x \<in> set (Split c s) \<Longrightarrow> c \<notin> set x \<and> set x \<subseteq> set s"
proof (induction s arbitrary: x)
  case (Cons a s)
  obtain y ys where "Split c s = y # ys" by (cases "Split c s") auto
  with Cons show ?case by (fastforce split: if_splits)
qed simp

lemma set_Join: "set (Join xs sep) \<subseteq> \<Union> (set ` set xs) \<union> set sep"
  by (induction xs sep rule: Join.induct) auto

section \<open>Prefixes, suffixes, substrings\<close>

lemma HasPrefix_iff: "HasPrefix s p \<longleftrightarrow> prefix p s"
  by (metis HasPrefix_def append_eq_conv_conj prefix_def)

lemma HasSuffix_iff: "HasSuffix s p \<longleftrightarrow> suffix p s"
  by (simp add: HasSuffix_def HasPrefix_iff suffix_to_prefix)

lemma CutPrefix_Some: "CutPrefix s p = Some t \<longleftrightarrow> s = p @ t"
  by (auto simp: CutPrefix_def HasPrefix_iff prefix_def)

lemma CutPrefix_None: "CutPrefix s p = None \<longleftrightarrow> \<not> HasPrefix s p"
  by (simp add: CutPrefix_def)

lemma Contains_iff: "Contains s sub \<longleftrightarrow> sublist sub s"
  by (induction s) (auto simp: HasPrefix_iff sublist_Cons_right)

lemma sublist_Join: "x \<in> set xs \<Longrightarrow> sublist x (Join xs sep)"
proof (induction xs)
  case (Cons y ys)
  have "sublist x (y @ sep @ Join ys sep)" if "sublist x (Join ys sep)"
    using sublist_order.order_trans [OF that] suffix_imp_sublist
    by (metis append_assoc suffixI)
  with Cons show ?case by (auto simp: Join_Cons)
qed simp

lemma Contains_char: "Contains s [c] \<longleftrightarrow> c \<in> set s"
  by (induction s) (auto simp: HasPrefix_def)

lemma TrimPrefix_append [simp]: "TrimPrefix (p @ s) p = s"
  by (simp add: TrimPrefix_def HasPrefix_def)

lemma TrimSuffix_append [simp]: "TrimSuffix (s @ p) p = s"
  by (simp add: TrimSuffix_def HasSuffix_iff suffix_def)

lemma LastIndex_bounds: "-1 \<le> LastIndex s c \<and> LastIndex s c < int (length s)"
  by (induction s) (auto simp: Let_def)

lemma LastIndex_none: "LastIndex s c = -1 \<longleftrightarrow> c \<notin> set s"
proof (induction s)
  case (Cons x s)
  then show ?case using LastIndex_bounds [of s c] by (auto simp: Let_def)
qed simp

lemma LastIndex_append: "c \<notin> set t \<Longrightarrow> LastIndex (s @ c # t) c = int (length s)"
  by (induction s) (simp_all add: Let_def LastIndex_none [THEN iffD2])

lemma LastIndex_split:
  assumes "0 \<le> LastIndex s c"
  obtains u t where "s = u @ c # t" "c \<notin> set t" "LastIndex s c = int (length u)"
proof -
  have "c \<in> set s" using assms LastIndex_none [of s c] by linarith
  then obtain u t where "s = u @ c # t" "c \<notin> set t"
    using split_list_last [of c s] by blast
  then show ?thesis using that LastIndex_append by blast
qed

section \<open>White space\<close>

lemma trim_left_suffix: "\<exists>l. s = l @ trim_left s"
proof (induction s rule: trim_left.induct)
  case (1 s)
  show ?case
  proof (cases "space_len s = 0")
    case False
    with 1 obtain l where "drop (space_len s) s = l @ trim_left (drop (space_len s) s)" by auto
    with False have "s = (take (space_len s) s @ l) @ trim_left s"
      by (simp add: trim_left.simps [of s] flip: append_take_drop_id [of "space_len s" s, symmetric])
    then show ?thesis by blast
  qed (simp add: trim_left.simps)
qed

lemma trim_rev_suffix: "\<exists>l. s = l @ trim_rev s"
proof (induction s rule: trim_rev.induct)
  case (1 s)
  show ?case
  proof (cases "space_rlen s = 0")
    case False
    with 1 obtain l where "drop (space_rlen s) s = l @ trim_rev (drop (space_rlen s) s)" by auto
    with False have "s = (take (space_rlen s) s @ l) @ trim_rev s"
      by (simp add: trim_rev.simps [of s] flip: append_take_drop_id [of "space_rlen s" s, symmetric])
    then show ?thesis by blast
  qed (simp add: trim_rev.simps)
qed

lemma space_len_trim_left [simp]: "space_len (trim_left s) = 0"
  by (induction s rule: trim_left.induct) (subst trim_left.simps, auto simp: Let_def)

lemma space_rlen_trim_rev [simp]: "space_rlen (trim_rev s) = 0"
  by (induction s rule: trim_rev.induct) (subst trim_rev.simps, auto simp: Let_def)

lemma trim_left_id: "space_len s = 0 \<Longrightarrow> trim_left s = s"
  by (simp add: trim_left.simps)

lemma trim_rev_id: "space_rlen s = 0 \<Longrightarrow> trim_rev s = s"
  by (simp add: trim_rev.simps)

lemma TrimSpace_decompose: "\<exists>l r. s = l @ TrimSpace s @ r"
proof -
  obtain l where l: "s = l @ trim_left s" using trim_left_suffix by blast
  obtain r where r: "rev (trim_left s) = r @ trim_rev (rev (trim_left s))"
    using trim_rev_suffix by blast
  from r have "trim_left s = TrimSpace s @ rev r"
    by (metis TrimSpace_def rev_append rev_rev_ident)
  with l show ?thesis by metis
qed

lemma set_TrimSpace: "set (TrimSpace s) \<subseteq> set s"
  using TrimSpace_decompose [of s] by (metis Un_upper1 Un_upper2 order_trans set_append)

text \<open>Trimming leaves no white space rune at either end.\<close>

lemma TrimSpace_ends: "space_len (TrimSpace s) = 0 \<and> space_rlen (rev (TrimSpace s)) = 0"
proof -
  obtain r where r: "rev (trim_left s) = r @ trim_rev (rev (trim_left s))"
    using trim_rev_suffix by blast
  then have "trim_left s = TrimSpace s @ rev r"
    by (metis TrimSpace_def rev_append rev_rev_ident)
  then have "space_len (TrimSpace s) = 0"
    by (metis gr0I space_len_append space_len_trim_left)
  then show ?thesis by (simp add: TrimSpace_def)
qed

lemma TrimSpace_id: "space_len s = 0 \<Longrightarrow> space_rlen (rev s) = 0 \<Longrightarrow> TrimSpace s = s"
  by (simp add: TrimSpace_def trim_left_id trim_rev_id)

lemma TrimSpace_idem [simp]: "TrimSpace (TrimSpace s) = TrimSpace s"
  using TrimSpace_ends by (intro TrimSpace_id) auto

lemma TrimSpace_Nil [simp]: "TrimSpace [] = []"
  by (simp add: TrimSpace_id)

section \<open>Fields\<close>

lemma fields_from_Nil [simp]: "fields_from cur [] = (if cur = [] then [] else [cur])"
  by (simp add: fields_from.simps)

lemma space_len_0_hd: "s \<noteq> [] \<Longrightarrow> space_len s = 0 \<Longrightarrow> \<not> ascii_space (hd s)"
  by (cases s) (auto simp: space_len_def split: if_splits)

lemma fields_from_token:
  assumes "t \<in> set (fields_from cur s)" "\<forall>c \<in> set cur. \<not> ascii_space c"
  shows "t \<noteq> [] \<and> set t \<subseteq> set cur \<union> set s \<and> (\<forall>c \<in> set t. \<not> ascii_space c)"
  using assms
proof (induction cur s rule: fields_from.induct)
  case (1 cur s)
  consider "s = []" | "s \<noteq> []" "space_len s = 0" | "s \<noteq> []" "0 < space_len s" by blast
  then show ?case
  proof cases
    case 2
    have t: "t \<in> set (fields_from (cur @ [hd s]) (tl s))"
      using "1.prems"(1) 2 by (simp add: fields_from.simps [of cur s] Let_def)
    have "set (cur @ [hd s]) \<union> set (tl s) = set cur \<union> set s" using 2 by (cases s) auto
    then show ?thesis
      using "1.IH"(1) [OF 2(1) refl 2(2) t] "1.prems"(2) space_len_0_hd [OF 2] by auto
  next
    case 3
    then have t: "t = cur \<and> cur \<noteq> [] \<or> t \<in> set (fields_from [] (drop (space_len s) s))"
      using "1.prems"(1) by (auto simp: fields_from.simps [of cur s] Let_def split: if_splits)
    then show ?thesis
    proof
      assume t: "t \<in> set (fields_from [] (drop (space_len s) s))"
      show ?thesis
        using "1.IH"(2) [OF 3(1) refl _ t] 3(2) set_drop_subset [of "space_len s" s] by auto
    qed (use "1.prems"(2) in auto)
  qed (use "1.prems" in \<open>auto split: if_splits\<close>)
qed

lemma Fields_token:
  "t \<in> set (Fields s) \<Longrightarrow> t \<noteq> [] \<and> set t \<subseteq> set s \<and> (\<forall>c \<in> set t. \<not> ascii_space c)"
  unfolding Fields_def using fields_from_token [of t "[]" s] by auto

lemma Fields_Nil [simp]: "Fields [] = []"
  by (simp add: Fields_def)

text \<open>A string that is one white space rune never merges with what stands before it, so trimming
  changes no field.\<close>

lemma space_rune_first:
  "0 < space_len w \<Longrightarrow> ascii_space (hd w) \<or> code (hd w) \<in> {0xC2, 0xE1, 0xE2, 0xE3 :: nat}"
  by (auto simp: space_len_def space2_def space3_def split: list.splits if_splits)

lemma space_len_before_rune:
  assumes "s \<noteq> []" "space_len s = 0" "0 < space_len w"
  shows "space_len (s @ w) = 0"
proof -
  obtain h t where w: "w = h # t" using assms(3) by (cases w) auto
  have h: "code h < 33 \<or> code h \<in> {0xC2, 0xE1, 0xE2, 0xE3 :: nat}"
    using space_rune_first [OF assms(3)] by (auto simp: w ascii_space_def)
  then have n: "\<not> space2 a (code h)" "\<not> space3 a (code h) c" "\<not> space3 a b (code h)" for a b c
    by (auto simp: space2_def space3_def)
  show ?thesis
    using assms(1,2) n by (auto simp: w space_len_def split: list.splits if_splits)
qed

lemma fields_from_rune:
  "0 < space_len w \<Longrightarrow> space_len w = length w \<Longrightarrow> fields_from cur (s @ w) = fields_from cur s"
proof (induction cur s rule: fields_from.induct)
  case (1 cur s)
  consider "s = []" | "s \<noteq> []" "space_len s = 0" | "s \<noteq> []" "0 < space_len s" by blast
  then show ?case
  proof cases
    case 1
    then show ?thesis using "1.prems" by (auto simp: fields_from.simps [of cur w])
  next
    case 2
    then show ?thesis
      using "1.IH"(1) "1.prems" space_len_before_rune [OF 2 "1.prems"(1)]
      by (simp add: fields_from.simps [of cur "s @ w"] fields_from.simps [of cur s])
  next
    case 3
    then show ?thesis
      using "1.IH"(2) "1.prems" space_len_append [OF 3(2)] space_len_le [of s]
      by (simp add: fields_from.simps [of cur "s @ w"] fields_from.simps [of cur s] Let_def)
  qed
qed

lemma space_rlen_rune:
  "0 < space_rlen r \<Longrightarrow> space_len (rev (take (space_rlen r) r)) = space_rlen r"
  by (auto simp: space_rlen_def space_len_def space2_def space3_def ascii_space_def
      split: list.splits if_splits)

lemma fields_from_trim_rev: "fields_from cur (rev (trim_rev r)) = fields_from cur (rev r)"
proof (induction r rule: trim_rev.induct)
  case (1 r)
  show ?case
  proof (cases "space_rlen r = 0")
    case False
    let ?k = "space_rlen r"
    have "rev r = rev (drop ?k r) @ rev (take ?k r)" by (metis append_take_drop_id rev_append)
    moreover have "fields_from cur (rev (drop ?k r) @ rev (take ?k r)) = fields_from cur (rev (drop ?k r))"
      using False space_rlen_le [of r] by (intro fields_from_rune) (simp_all add: space_rlen_rune)
    ultimately show ?thesis using 1 False by (simp add: trim_rev.simps [of r])
  qed (simp add: trim_rev_id)
qed

lemma fields_from_trim_left: "fields_from [] (trim_left s) = fields_from [] s"
proof (induction s rule: trim_left.induct)
  case (1 s)
  show ?case
  proof (cases "space_len s = 0")
    case False
    then have "s \<noteq> []" by auto
    then show ?thesis using 1 False by (simp add: trim_left.simps [of s] fields_from.simps [of "[]" s])
  qed (simp add: trim_left_id)
qed

lemma Fields_TrimSpace [simp]: "Fields (TrimSpace s) = Fields s"
  using fields_from_trim_rev [of "[]" "rev (trim_left s)"] fields_from_trim_left
  by (simp add: Fields_def TrimSpace_def)

section \<open>Numbers\<close>

lemma code_char_of [simp]: "n < 256 \<Longrightarrow> code (char_of n) = n"
  by simp

lemma digits_val_snoc: "digits_val (s @ [c]) = 10 * digits_val s + digit_val c"
  by (simp add: digits_val_def)

lemma nat_digits_ok:
  "nat_digits n \<noteq> [] \<and> list_all is_digit (nat_digits n) \<and> digits_val (nat_digits n) = int n"
proof (induction n rule: nat_digits.induct)
  case (1 n)
  show ?case
  proof (cases "n < 10")
    case True
    then show ?thesis
      by (simp add: nat_digits.simps [of n] is_digit_def digits_val_def digit_val_def)
  next
    case False
    have "n mod 10 \<le> 9 \<and> 10 * int (n div 10) + int (n mod 10) = int n" by presburger
    with False 1 show ?thesis
      by (simp add: nat_digits.simps [of n] is_digit_def digits_val_snoc digit_val_def)
  qed
qed

lemma is_digit_not_sign: "is_digit c \<Longrightarrow> c \<noteq> CHR ''-'' \<and> c \<noteq> CHR ''+''"
  by (auto simp: is_digit_def)

lemma Atoi_Itoa: "- (2 ^ 63) \<le> i \<Longrightarrow> i < 2 ^ 63 \<Longrightarrow> Atoi (Itoa i) = Some i"
proof -
  assume b: "- (2 ^ 63) \<le> i" "i < 2 ^ 63"
  have d: "nat_digits n \<noteq> [] \<and> list_all is_digit (nat_digits n) \<and> digits_val (nat_digits n) = int n"
    for n by (rule nat_digits_ok)
  have h: "hd (nat_digits n) \<noteq> CHR ''-'' \<and> hd (nat_digits n) \<noteq> CHR ''+''" for n
    using d [of n] is_digit_not_sign by (cases "nat_digits n") auto
  show ?thesis using b d h by (simp add: Atoi_def Itoa_def Let_def)
qed

lemma Atoi_Some_digits:
  "Atoi s = Some n \<Longrightarrow> s \<noteq> [] \<and> list_all is_digit (tl s) \<and>
     (is_digit (hd s) \<or> hd s = CHR ''-'' \<or> hd s = CHR ''+'')"
  by (cases s) (auto simp: Atoi_def Let_def split: if_splits)

lemma Atoi_not_digit_last: "s \<noteq> [] \<Longrightarrow> \<not> is_digit (last s) \<Longrightarrow> Atoi s = None"
  by (cases s) (auto simp: Atoi_def Let_def list_all_iff split: if_splits)

text \<open>A word with a character that is neither a digit nor a sign is no number, with or without white
  space around it.\<close>

lemma Atoi_trim_None:
  assumes "list_ex (\<lambda>c. \<not> is_digit c \<and> c \<noteq> CHR ''-'' \<and> c \<noteq> CHR ''+'') (TrimSpace s)"
  shows "Atoi s = None"
proof (rule ccontr)
  assume "Atoi s \<noteq> None"
  then obtain n where "Atoi s = Some n" by blast
  then have "\<forall>c \<in> set s. is_digit c \<or> c = CHR ''-'' \<or> c = CHR ''+''"
    using Atoi_Some_digits [of s n] by (cases s) (auto simp: list_all_iff)
  then show False using assms set_TrimSpace [of s] by (auto simp: list_ex_iff)
qed

end
