(* ===== verification/GoRegex.thy ===== *)
theory GoRegex
  imports GoStrings
begin

text \<open>
  The fragment of Go's \<^verbatim>\<open>regexp\<close> that the repository's own compiled patterns use: character
  classes, concatenation, alternation, repetition, and the text anchors. \<open>rx_in\<close> is the
  language of an expression, \<open>rx_match\<close> an executable matcher by derivatives, and
  \<open>rx_match_iff\<close> the theorem that they agree. \<open>MatchString\<close> is the method the code calls: without
  \<^verbatim>\<open>^\<close> or \<^verbatim>\<open>$\<close> the expression may match anywhere in the text. All classes are ASCII, so matching
  bytes and matching runes coincide.

  Patterns that come from a client are compiled at run time and stay a parameter of the
  definitions that use them.
\<close>

section \<open>Expressions and their language\<close>

type_synonym cls = "(char \<times> char) list"

datatype rx =
    RNone
  | REps
  | RCls cls
  | RSeq rx rx
  | RAlt rx rx
  | RStar rx

definition in_class :: "cls \<Rightarrow> char \<Rightarrow> bool" where
  "in_class rs c \<longleftrightarrow> list_ex (\<lambda>(a, b). code a \<le> code c \<and> code c \<le> code b) rs"

definition RPlus :: "rx \<Rightarrow> rx" where
  "RPlus r = RSeq r (RStar r)"

definition ROpt :: "rx \<Rightarrow> rx" where
  "ROpt r = RAlt REps r"

definition RChr :: "char \<Rightarrow> rx" where
  "RChr c = RCls [(c, c)]"

fun RLit :: "string \<Rightarrow> rx" where
  "RLit [] = REps"
| "RLit (c # s) = RSeq (RChr c) (RLit s)"

inductive rx_in :: "rx \<Rightarrow> string \<Rightarrow> bool" where
  eps: "rx_in REps []"
| cls: "in_class rs c \<Longrightarrow> rx_in (RCls rs) [c]"
| seq: "rx_in r s \<Longrightarrow> rx_in q t \<Longrightarrow> rx_in (RSeq r q) (s @ t)"
| altL: "rx_in r s \<Longrightarrow> rx_in (RAlt r q) s"
| altR: "rx_in q s \<Longrightarrow> rx_in (RAlt r q) s"
| star_Nil: "rx_in (RStar r) []"
| star_step: "rx_in r s \<Longrightarrow> rx_in (RStar r) t \<Longrightarrow> rx_in (RStar r) (s @ t)"

inductive_simps rx_in_None [simp]: "rx_in RNone s"
inductive_simps rx_in_Eps [simp]: "rx_in REps s"
inductive_simps rx_in_Cls [simp]: "rx_in (RCls rs) s"
inductive_simps rx_in_Seq: "rx_in (RSeq r q) s"
inductive_simps rx_in_Alt [simp]: "rx_in (RAlt r q) s"

section \<open>The matcher\<close>

fun nullable :: "rx \<Rightarrow> bool" where
  "nullable RNone \<longleftrightarrow> False"
| "nullable REps \<longleftrightarrow> True"
| "nullable (RCls rs) \<longleftrightarrow> False"
| "nullable (RSeq r q) \<longleftrightarrow> nullable r \<and> nullable q"
| "nullable (RAlt r q) \<longleftrightarrow> nullable r \<or> nullable q"
| "nullable (RStar r) \<longleftrightarrow> True"

fun mk_seq :: "rx \<Rightarrow> rx \<Rightarrow> rx" where
  "mk_seq RNone q = RNone"
| "mk_seq REps q = q"
| "mk_seq r q = RSeq r q"

fun mk_alt :: "rx \<Rightarrow> rx \<Rightarrow> rx" where
  "mk_alt RNone q = q"
| "mk_alt r RNone = r"
| "mk_alt r q = RAlt r q"

fun deriv :: "char \<Rightarrow> rx \<Rightarrow> rx" where
  "deriv c RNone = RNone"
| "deriv c REps = RNone"
| "deriv c (RCls rs) = (if in_class rs c then REps else RNone)"
| "deriv c (RSeq r q) =
     (if nullable r then mk_alt (mk_seq (deriv c r) q) (deriv c q) else mk_seq (deriv c r) q)"
| "deriv c (RAlt r q) = mk_alt (deriv c r) (deriv c q)"
| "deriv c (RStar r) = mk_seq (deriv c r) (RStar r)"

fun rx_match :: "rx \<Rightarrow> string \<Rightarrow> bool" where
  "rx_match r [] = nullable r"
| "rx_match r (c # s) = rx_match (deriv c r) s"

text \<open>A compiled pattern: whether it starts with \<^verbatim>\<open>^\<close>, its body, whether it ends with \<^verbatim>\<open>$\<close>.\<close>

datatype pat = Pat bool rx bool

definition RAny :: rx where
  "RAny = RStar (RCls [(CHR 0x00, CHR 0xFF)])"

fun MatchString :: "pat \<Rightarrow> string \<Rightarrow> bool" where
  "MatchString (Pat a r b) s =
     rx_match (RSeq (if a then REps else RAny) (RSeq r (if b then REps else RAny))) s"

section \<open>Correctness of the matcher\<close>

lemma rx_in_mk_seq [simp]: "rx_in (mk_seq r q) s \<longleftrightarrow> rx_in (RSeq r q) s"
  by (cases r) (auto simp: rx_in_Seq)

lemma rx_in_mk_alt [simp]: "rx_in (mk_alt r q) s \<longleftrightarrow> rx_in (RAlt r q) s"
  by (cases r; cases q) auto

lemma nullable_iff: "nullable r \<longleftrightarrow> rx_in r []"
  by (induction r) (auto simp: rx_in_Seq intro: rx_in.star_Nil)

lemma rx_in_star_Cons:
  "rx_in (RStar r) (c # s) \<longleftrightarrow> (\<exists>u v. s = u @ v \<and> rx_in r (c # u) \<and> rx_in (RStar r) v)"
proof
  assume "rx_in (RStar r) (c # s)"
  then show "\<exists>u v. s = u @ v \<and> rx_in r (c # u) \<and> rx_in (RStar r) v"
  proof (induction "RStar r" "c # s" rule: rx_in.induct)
    case (star_step u v)
    then show ?case by (cases u) auto
  qed
next
  assume "\<exists>u v. s = u @ v \<and> rx_in r (c # u) \<and> rx_in (RStar r) v"
  then show "rx_in (RStar r) (c # s)"
    using rx_in.star_step by fastforce
qed

lemma rx_in_seq_Cons:
  "rx_in (RSeq r q) (c # s) \<longleftrightarrow>
     (\<exists>u v. s = u @ v \<and> rx_in r (c # u) \<and> rx_in q v) \<or> (rx_in r [] \<and> rx_in q (c # s))"
  unfolding rx_in_Seq by (auto simp: Cons_eq_append_conv)

lemma deriv_iff: "rx_in (deriv c r) s \<longleftrightarrow> rx_in r (c # s)"
proof (induction r arbitrary: s)
  case (RSeq r q)
  show ?case unfolding rx_in_seq_Cons using RSeq by (auto simp: nullable_iff rx_in_Seq)
next
  case (RStar r)
  show ?case unfolding rx_in_star_Cons using RStar by (auto simp: rx_in_Seq)
qed auto

theorem rx_match_iff: "rx_match r s \<longleftrightarrow> rx_in r s"
  by (induction s arbitrary: r) (simp_all add: nullable_iff deriv_iff)

section \<open>Languages of the shapes in use\<close>

lemma rx_in_star_cls [simp]: "rx_in (RStar (RCls rs)) s \<longleftrightarrow> list_all (in_class rs) s"
proof (induction s)
  case Nil
  show ?case by (simp add: rx_in.star_Nil)
next
  case (Cons c s)
  then show ?case by (auto simp: rx_in_star_Cons)
qed

lemma in_class_single [simp]: "in_class [(a, a)] c \<longleftrightarrow> c = a"
  by (auto simp: in_class_def)

lemma rx_in_cls_seq: "rx_in (RSeq (RCls rs) q) s \<longleftrightarrow> (\<exists>c t. s = c # t \<and> in_class rs c \<and> rx_in q t)"
  by (cases s) (simp_all add: rx_in_seq_Cons, simp add: rx_in_Seq)

lemma rx_in_Lit [simp]: "rx_in (RLit l) s \<longleftrightarrow> s = l"
  by (induction l arbitrary: s) (auto simp: RChr_def rx_in_cls_seq)

lemma rx_in_Opt [simp]: "rx_in (ROpt r) s \<longleftrightarrow> s = [] \<or> rx_in r s"
  by (auto simp: ROpt_def)

lemma rx_in_plus_cls [simp]:
  "rx_in (RPlus (RCls rs)) s \<longleftrightarrow> s \<noteq> [] \<and> list_all (in_class rs) s"
  by (cases s) (auto simp: RPlus_def rx_in_cls_seq)

lemma rx_in_Any [simp]: "rx_in RAny s"
proof -
  have "code c \<le> 255" for c using nat_of_char_less_256 [of c] by linarith
  then show ?thesis by (simp add: RAny_def in_class_def list_all_iff)
qed

lemma rx_in_Eps_left [simp]: "rx_in (RSeq REps r) s \<longleftrightarrow> rx_in r s"
  by (auto simp: rx_in_Seq)

lemma rx_in_Eps_right [simp]: "rx_in (RSeq r REps) s \<longleftrightarrow> rx_in r s"
  by (auto simp: rx_in_Seq)

lemma MatchString_full: "MatchString (Pat True r True) s \<longleftrightarrow> rx_in r s"
  by (simp add: rx_match_iff)

lemma MatchString_unanchored:
  "MatchString (Pat False r False) s \<longleftrightarrow> (\<exists>u m v. s = u @ m @ v \<and> rx_in r m)"
  by (auto simp: rx_match_iff rx_in_Seq)

declare MatchString.simps [simp del]

lemma MatchString_cls: "MatchString (Pat False (RCls rs) False) s \<longleftrightarrow> list_ex (in_class rs) s"
proof
  assume "list_ex (in_class rs) s"
  then obtain u c v where "s = u @ [c] @ v" "rx_in (RCls rs) [c]"
    by (auto simp: list_ex_iff in_set_conv_decomp)
  then show "MatchString (Pat False (RCls rs) False) s"
    unfolding MatchString_unanchored by blast
qed (auto simp: MatchString_unanchored list_ex_iff)

lemmas rx_lang = MatchString_full MatchString_cls rx_in_Seq

end
