(* ===== verification/GoPath.thy ===== *)
theory GoPath
  imports GoStrings
begin

text \<open>
  The lexical path functions of Go's \<^verbatim>\<open>path/filepath\<close> on Unix: \<open>Clean\<close>, \<open>JoinPath\<close>, \<open>Base\<close>,
  \<open>Dir\<close>, \<open>IsAbs\<close>. \<open>Clean\<close> is written over path elements: it drops empty elements and \<^verbatim>\<open>.\<close>,
  lets \<^verbatim>\<open>..\<close> remove the element before it, drops \<^verbatim>\<open>..\<close> at the root and keeps it at the front of a
  relative path. The lemmas say when a joined path stays below its base directory, which is what
  the path checks of the sosreport and must-gather tools are for.
\<close>

section \<open>Definitions\<close>

abbreviation slash :: char where
  "slash \<equiv> CHR ''/''"

definition IsAbs :: "string \<Rightarrow> bool" where
  "IsAbs p \<longleftrightarrow> HasPrefix p ''/''"

text \<open>One path element processed against the elements kept so far (last element first).\<close>

fun clean_step :: "bool \<Rightarrow> string list \<Rightarrow> string \<Rightarrow> string list" where
  "clean_step rooted st e =
     (if e = [] \<or> e = ''.'' then st
      else if e = ''..'' then
        (case st of
           [] \<Rightarrow> if rooted then [] else [''..'']
         | t # st' \<Rightarrow> if t = ''..'' then ''..'' # st else st')
      else e # st)"

definition clean_run :: "bool \<Rightarrow> string list \<Rightarrow> string list \<Rightarrow> string list" where
  "clean_run rooted st es = foldl (clean_step rooted) st es"

definition clean_elems :: "string \<Rightarrow> string list" where
  "clean_elems p = rev (clean_run (IsAbs p) [] (Split slash p))"

definition Clean :: "string \<Rightarrow> string" where
  "Clean p = (if IsAbs p then ''/'' @ Join (clean_elems p) ''/''
     else if clean_elems p = [] then ''.'' else Join (clean_elems p) ''/'')"

text \<open>\<^verbatim>\<open>filepath.Join\<close>: leading empty elements are dropped, the rest is joined and cleaned.\<close>

definition JoinPath :: "string list \<Rightarrow> string" where
  "JoinPath elems = (let es = dropWhile (\<lambda>e. e = []) elems in
     if es = [] then [] else Clean (Join es ''/''))"

definition Base :: "string \<Rightarrow> string" where
  "Base p = (if p = [] then ''.'' else
     (let q = rev (dropWhile (\<lambda>c. c = slash) (rev p));
          b = rev (takeWhile (\<lambda>c. c \<noteq> slash) (rev q))
      in if b = [] then ''/'' else b))"

definition Dir :: "string \<Rightarrow> string" where
  "Dir p = Clean (rev (dropWhile (\<lambda>c. c \<noteq> slash) (rev p)))"

definition below :: "string \<Rightarrow> string \<Rightarrow> bool" where
  \<comment> \<open>the path \<open>p\<close> names \<open>b\<close> or something below it\<close>
  "below b p \<longleftrightarrow> IsAbs p = IsAbs b \<and> prefix (clean_elems b) (clean_elems p) \<and>
     ''..'' \<notin> set (drop (length (clean_elems b)) (clean_elems p))"

section \<open>Elements of a cleaned path\<close>

lemma clean_run_Nil [simp]: "clean_run r st [] = st"
  by (simp add: clean_run_def)

lemma clean_run_Cons [simp]: "clean_run r st (e # es) = clean_run r (clean_step r st e) es"
  by (simp add: clean_run_def)

lemma clean_run_append: "clean_run r st (es @ fs) = clean_run r (clean_run r st es) fs"
  by (simp add: clean_run_def)

definition elem_ok :: "string \<Rightarrow> bool" where
  "elem_ok e \<longleftrightarrow> e \<noteq> [] \<and> e \<noteq> ''.'' \<and> slash \<notin> set e"

lemma clean_step_elem_ok:
  "list_all elem_ok st \<Longrightarrow> slash \<notin> set e \<Longrightarrow> list_all elem_ok (clean_step r st e)"
  by (auto simp: elem_ok_def split: list.splits)

lemma clean_run_elem_ok:
  "list_all elem_ok st \<Longrightarrow> \<forall>e \<in> set es. slash \<notin> set e \<Longrightarrow> list_all elem_ok (clean_run r st es)"
proof (induction es arbitrary: st)
  case (Cons e es)
  then have "list_all elem_ok (clean_step r st e)" by (intro clean_step_elem_ok) auto
  with Cons show ?case by simp
qed simp

lemma clean_elems_ok: "list_all elem_ok (clean_elems p)"
proof -
  have "list_all elem_ok (clean_run (IsAbs p) [] (Split slash p))"
    using Split_chars by (intro clean_run_elem_ok) auto
  then show ?thesis by (simp add: clean_elems_def list_all_iff)
qed

text \<open>An absolute path has no \<^verbatim>\<open>..\<close> left after cleaning.\<close>

lemma clean_run_rooted: "''..'' \<notin> set st \<Longrightarrow> ''..'' \<notin> set (clean_run True st es)"
proof (induction es arbitrary: st)
  case (Cons e es)
  have "''..'' \<notin> set (clean_step True st e)" using Cons.prems by (cases st) auto
  with Cons.IH show ?case by simp
qed simp

lemma clean_elems_abs_no_dotdot: "IsAbs p \<Longrightarrow> ''..'' \<notin> set (clean_elems p)"
  using clean_run_rooted [of "[]"] by (simp add: clean_elems_def)

text \<open>Cleaned elements are a fixed point of cleaning.\<close>

lemma clean_run_plain:
  "list_all elem_ok es \<Longrightarrow> ''..'' \<notin> set es \<Longrightarrow> clean_run r st es = rev es @ st"
  by (induction es arbitrary: st) (auto simp: elem_ok_def)

definition dotdot_prefix :: "string list \<Rightarrow> bool" where
  \<comment> \<open>every \<^verbatim>\<open>..\<close> stands before every other element\<close>
  "dotdot_prefix es \<longleftrightarrow> (\<exists>n fs. es = replicate n ''..'' @ fs \<and> ''..'' \<notin> set fs)"

lemma clean_step_dotdot_prefix:
  assumes "dotdot_prefix (rev st)"
  shows "dotdot_prefix (rev (clean_step False st e))"
proof -
  obtain n fs where st: "rev st = replicate n ''..'' @ fs" "''..'' \<notin> set fs"
    using assms by (auto simp: dotdot_prefix_def)
  show ?thesis
  proof (cases fs rule: rev_cases)
    case Nil
    then have "rev (''..'' # st) = replicate (Suc n) ''..'' @ []"
      using st by (simp add: replicate_append_same)
    moreover have "st = replicate n ''..''" using st Nil by (metis append_Nil2 rev_replicate rev_rev_ident)
    ultimately show ?thesis using st Nil
      by (cases n) (auto simp: dotdot_prefix_def intro: exI [of _ "Suc n"] exI [of _ n]
          exI [of _ "[]"] exI [of _ "[e]"] exI [of _ "0::nat"] exI [of _ "1::nat"])
  next
    case (snoc gs g)
    then have "st = g # rev (replicate n ''..'' @ gs)" "g \<noteq> ''..''"
      using st by (auto simp: rev_swap)
    then show ?thesis using st snoc
      by (auto simp: dotdot_prefix_def intro!: exI [of _ n])
  qed
qed


lemma clean_run_dotdot_prefix:
  "dotdot_prefix (rev st) \<Longrightarrow> dotdot_prefix (rev (clean_run False st es))"
proof (induction es arbitrary: st)
  case (Cons e es)
  from clean_step_dotdot_prefix [OF Cons.prems] Cons.IH show ?case by simp
qed simp

lemma clean_run_dotdots: "clean_run False (replicate k ''..'') (replicate n ''..'') = replicate (n + k) ''..''"
proof (induction n arbitrary: k)
  case (Suc n)
  have "clean_step False (replicate k ''..'') ''..'' = replicate (Suc k) ''..''"
    by (cases k) auto
  with Suc [of "Suc k"] show ?case by simp
qed simp

lemma clean_elems_rel_dotdot: "\<not> IsAbs p \<Longrightarrow> dotdot_prefix (clean_elems p)"
proof -
  assume "\<not> IsAbs p"
  moreover have "dotdot_prefix (rev ([] :: string list))" by (auto simp: dotdot_prefix_def)
  ultimately show ?thesis using clean_run_dotdot_prefix by (simp add: clean_elems_def)
qed

lemma clean_run_elems: "clean_run (IsAbs p) [] (clean_elems p) = rev (clean_elems p)"
proof (cases "IsAbs p")
  case True
  then show ?thesis using clean_run_plain [OF clean_elems_ok] clean_elems_abs_no_dotdot by simp
next
  case False
  then obtain n fs where e: "clean_elems p = replicate n ''..'' @ fs" "''..'' \<notin> set fs"
    using clean_elems_rel_dotdot [OF False] by (auto simp: dotdot_prefix_def)
  have "list_all elem_ok fs" using clean_elems_ok [of p] e by simp
  then have "clean_run False (replicate n ''..'') fs = rev fs @ replicate n ''..''"
    using e by (intro clean_run_plain) auto
  with e False clean_run_dotdots [of 0 n] show ?thesis by (simp add: clean_run_append)
qed

section \<open>Clean is a normal form\<close>

lemma Join_slash_not_abs:
  assumes "list_all elem_ok es" "es \<noteq> []"
  shows "Join es ''/'' \<noteq> [] \<and> \<not> IsAbs (Join es ''/'')"
proof -
  obtain e fs where es: "es = e # fs" using assms(2) by (cases es) auto
  with assms have "e \<noteq> [] \<and> slash \<notin> set e" by (simp add: elem_ok_def)
  with es show ?thesis by (cases e) (auto simp: Join_Cons IsAbs_def HasPrefix_def)
qed

lemma Split_Join_elems:
  "list_all elem_ok es \<Longrightarrow> es \<noteq> [] \<Longrightarrow> Split slash (Join es ''/'') = es"
  by (rule Split_Join) (auto simp: elem_ok_def list_all_iff)

lemma IsAbs_Clean [simp]: "IsAbs (Clean p) \<longleftrightarrow> IsAbs p"
proof -
  have "\<not> IsAbs ''.''" by (simp add: IsAbs_def HasPrefix_def)
  then show ?thesis
    using Join_slash_not_abs [OF clean_elems_ok [of p]]
    by (auto simp: Clean_def IsAbs_def HasPrefix_def)
qed

lemma clean_run_Split_Clean:
  "clean_run r [] (Split slash (Clean p)) = clean_run r [] (clean_elems p)"
proof -
  have "Split slash (Clean p) =
      (if IsAbs p then (if clean_elems p = [] then [[], []] else [] # clean_elems p)
       else if clean_elems p = [] then [''.''] else clean_elems p)"
    using Split_Join_elems [OF clean_elems_ok [of p]] by (auto simp: Clean_def)
  then show ?thesis by (auto simp: numeral_2_eq_2)
qed

lemma clean_elems_Clean [simp]: "clean_elems (Clean p) = clean_elems p"
  using clean_run_elems [of p] by (simp add: clean_elems_def [of "Clean p"] clean_run_Split_Clean)

theorem Clean_idem [simp]: "Clean (Clean p) = Clean p"
  by (simp add: Clean_def [of "Clean p"]) (simp add: Clean_def)

section \<open>Joining below a base directory\<close>

lemma Split_append: "Split c (s @ c # t) = Split c s @ Split c t"
proof (induction s)
  case (Cons x s)
  then show ?case by (cases "Split c s") auto
qed simp

lemma JoinPath2: "b \<noteq> [] \<Longrightarrow> JoinPath [b, r] = Clean (b @ slash # r)"
  by (simp add: JoinPath_def Let_def)

lemma IsAbs_append [simp]: "b \<noteq> [] \<Longrightarrow> IsAbs (b @ r) \<longleftrightarrow> IsAbs b"
  by (cases b) (auto simp: IsAbs_def HasPrefix_def)

lemma clean_elems_append_slash:
  "b \<noteq> [] \<Longrightarrow> clean_elems (b @ slash # r) =
     rev (clean_run (IsAbs b) (rev (clean_elems b)) (Split slash r))"
  by (simp add: clean_elems_def Split_append clean_run_append)

lemma clean_run_keeps_dotdot: "''..'' \<in> set T \<Longrightarrow> ''..'' \<in> set (clean_run False T es)"
proof (induction es arbitrary: T)
  case (Cons e es)
  have "''..'' \<in> set (clean_step False T e)" using Cons.prems by (cases T) auto
  with Cons.IH show ?case by simp
qed simp

lemma clean_run_shift:
  "''..'' \<notin> set (clean_run False T es) \<Longrightarrow> clean_run r (T @ st) es = clean_run False T es @ st"
proof (induction es arbitrary: T)
  case (Cons e es)
  have "''..'' \<notin> set (clean_step False T e)"
    by (metis Cons.prems clean_run_Cons clean_run_keeps_dotdot)
  moreover have "''..'' \<notin> set T"
    by (metis Cons.prems clean_run_keeps_dotdot)
  ultimately have "clean_step r (T @ st) e = clean_step False T e @ st"
    by (cases T) (auto split: if_splits)
  with Cons show ?case by simp
qed simp

lemma clean_elems_join_rel:
  assumes "b \<noteq> []" "\<not> IsAbs r" "''..'' \<notin> set (clean_elems r)"
  shows "clean_elems (b @ slash # r) = clean_elems b @ clean_elems r"
  using assms clean_run_shift [of "[]" "Split slash r" "IsAbs b" "rev (clean_elems b)"]
  by (simp add: clean_elems_append_slash) (simp add: clean_elems_def)

lemma clean_elems_JoinPath:
  assumes "\<not> IsAbs r" "''..'' \<notin> set (clean_elems r)"
  shows "clean_elems (JoinPath [b, r]) = clean_elems b @ clean_elems r \<and> IsAbs (JoinPath [b, r]) = IsAbs b"
proof (cases "b = []")
  case True
  have "clean_elems [] = []" by (simp add: clean_elems_def)
  moreover have "\<not> IsAbs []" by (simp add: IsAbs_def HasPrefix_iff)
  ultimately show ?thesis using True assms(1) by (cases "r = []") (simp_all add: JoinPath_def)
next
  case False
  then show ?thesis using clean_elems_join_rel [OF False assms] by (simp add: JoinPath2)
qed

lemma below_JoinPath:
  assumes "\<not> IsAbs r" "''..'' \<notin> set (clean_elems r)"
  shows "below b (JoinPath [b, r])"
  using clean_elems_JoinPath [OF assms] assms(2) by (simp add: below_def)

lemma below_abs:
  "IsAbs b \<Longrightarrow> below b p \<longleftrightarrow> IsAbs p \<and> prefix (clean_elems b) (clean_elems p)"
  using clean_elems_abs_no_dotdot [of p] by (auto simp: below_def dest: in_set_dropD)

section \<open>The textual containment check\<close>

definition slashed :: "string list \<Rightarrow> string" where
  "slashed es = concat (map (\<lambda>e. e @ ''/'') es)"

lemma Join_slashed: "es \<noteq> [] \<Longrightarrow> Join es ''/'' @ ''/'' = slashed es"
  by (induction es) (auto simp: Join_Cons slashed_def)

lemma prefix_slashed:
  assumes "list_all elem_ok es" "list_all elem_ok fs"
  shows "prefix (slashed es) (slashed fs) \<longleftrightarrow> prefix es fs"
  using assms
proof (induction es arbitrary: fs)
  case Nil
  then show ?case by (simp add: slashed_def)
next
  case (Cons e es)
  show ?case
  proof (cases fs)
    case Nil
    then show ?thesis by (simp add: slashed_def)
  next
    case (Cons f gs)
    have sl: "slash \<notin> set e" "slash \<notin> set f"
      using Cons.prems Cons by (auto simp: elem_ok_def)
    have "prefix (e @ slash # slashed es) (f @ slash # slashed gs) \<longleftrightarrow>
        e = f \<and> prefix (slashed es) (slashed gs)"
    proof
      assume "prefix (e @ slash # slashed es) (f @ slash # slashed gs)"
      then obtain z where z: "f @ slash # slashed gs = e @ slash # (slashed es @ z)"
        by (auto simp: prefix_def)
      then have "f = e" using sl by (metis Split_append_sep list.inject)
      with z show "e = f \<and> prefix (slashed es) (slashed gs)" by auto
    qed auto
    with Cons.IH [of gs] Cons.prems Cons show ?thesis by (simp add: slashed_def)
  qed
qed

text \<open>
  \<^verbatim>\<open>strings.HasPrefix(filepath.Clean(d)+"/", filepath.Clean(n)+"/")\<close> for absolute paths, with a
  base other than the root directory, is containment below the base.
\<close>

lemma prefix_check_below:
  assumes "IsAbs n" "IsAbs d" "clean_elems n \<noteq> []"
  shows "HasPrefix (Clean d @ ''/'') (Clean n @ ''/'') \<longleftrightarrow> below n d"
proof -
  have n: "Clean n @ ''/'' = slash # slashed (clean_elems n)"
    using assms by (simp add: Clean_def flip: Join_slashed)
  show ?thesis
  proof (cases "clean_elems d = []")
    case True
    have "slashed (clean_elems n) \<noteq> ''/''"
    proof -
      obtain e es where "clean_elems n = e # es" using assms(3) by (cases "clean_elems n") auto
      moreover from this have "e \<noteq> []" using clean_elems_ok [of n] by (auto simp: elem_ok_def)
      ultimately show ?thesis by (cases e) (auto simp: slashed_def)
    qed
    moreover have "slashed (clean_elems n) \<noteq> []"
      using assms(3) by (cases "clean_elems n") (auto simp: slashed_def)
    ultimately show ?thesis using True assms
      by (simp add: n HasPrefix_iff below_abs Clean_def [of d] prefix_Cons)
  next
    case False
    then have d: "Clean d @ ''/'' = slash # slashed (clean_elems d)"
      using assms by (simp add: Clean_def flip: Join_slashed)
    show ?thesis unfolding n d
      using assms prefix_slashed [OF clean_elems_ok clean_elems_ok, of n d]
      by (simp add: HasPrefix_iff below_abs)
  qed
qed

section \<open>Base names\<close>

lemma takeWhile_eq_self: "takeWhile P xs = xs \<longleftrightarrow> list_all P xs"
  by (induction xs) auto

lemma Base_plain: "p \<noteq> [] \<Longrightarrow> slash \<notin> set p \<Longrightarrow> Base p = p"
proof -
  assume p: "p \<noteq> []" "slash \<notin> set p"
  have "dropWhile (\<lambda>c. c = slash) (rev p) = rev p"
    using p by (auto simp: dropWhile_eq_self_iff hd_rev) (metis last_in_set)
  moreover have "takeWhile (\<lambda>c. c \<noteq> slash) (rev p) = rev p"
    using p by (auto simp: takeWhile_eq_all_conv)
  ultimately show ?thesis using p by (simp add: Base_def Let_def del: takeWhile_eq_all_conv)
qed

lemma Base_no_slash: "Base p \<noteq> ''/'' \<Longrightarrow> slash \<notin> set (Base p) \<and> Base p \<noteq> []"
  by (cases "p = []") (auto simp: Base_def Let_def split: if_splits dest: set_takeWhileD)

lemma Base_dir: "slash \<notin> set f \<Longrightarrow> f \<noteq> [] \<Longrightarrow> Base (d @ slash # f) = f"
proof -
  assume f: "slash \<notin> set f" "f \<noteq> []"
  then have "hd (rev f) \<noteq> slash" by (metis hd_in_set rev_is_Nil_conv set_rev)
  then have "dropWhile (\<lambda>c. c = slash) (rev f @ slash # rev d) = rev f @ slash # rev d"
    using f(2) by (cases "rev f") auto
  moreover have "takeWhile (\<lambda>c. c \<noteq> slash) (rev f @ slash # rev d) = rev f"
    using f(1) takeWhile_append2 [of "rev f" "\<lambda>c. c \<noteq> slash" "slash # rev d"] by auto
  ultimately show ?thesis using f(2) by (simp add: Base_def Let_def)
qed

lemma JoinPath3: "b \<noteq> [] \<Longrightarrow> JoinPath [a, b, c] = JoinPath [a, b @ slash # c]"
  by (cases "a = []") (simp_all add: JoinPath_def)

lemma below_refl [simp]: "below b b"
  by (simp add: below_def)

lemma below_trans: "below a b \<Longrightarrow> below b c \<Longrightarrow> below a c"
proof -
  assume ab: "below a b" and bc: "below b c"
  then obtain x y where x: "clean_elems b = clean_elems a @ x" "''..'' \<notin> set x"
    and y: "clean_elems c = clean_elems b @ y" "''..'' \<notin> set y"
    by (auto simp: below_def prefix_def)
  then show ?thesis using ab bc by (simp add: below_def)
qed

section \<open>Single names and parents\<close>

lemma clean_elems_single: "elem_ok e \<Longrightarrow> e \<noteq> ''..'' \<Longrightarrow> clean_elems e = [e] \<and> \<not> IsAbs e"
  using clean_run_plain [of "[e]" False "[]"]
  by (cases e) (auto simp: elem_ok_def clean_elems_def Split_no_sep IsAbs_def HasPrefix_def)

lemma Dir_drop_last:
  assumes "slash \<notin> set e"
  shows "Dir (x @ slash # e) = Clean (x @ [slash])"
proof -
  have "dropWhile (\<lambda>c. c \<noteq> slash) (rev e @ slash # rev x) = slash # rev x"
    using assms by (induction e rule: rev_induct) auto
  then show ?thesis by (simp add: Dir_def)
qed

lemma clean_elems_trailing_slash: "clean_elems (x @ [slash]) = clean_elems x"
proof (cases "x = []")
  case True
  have "clean_elems [slash] = []" "clean_elems [] = []" by code_simp+
  with True show ?thesis by simp
next
  case False
  then show ?thesis using clean_elems_append_slash [of x "[]"] by (simp add: clean_elems_def)
qed

text \<open>The parent of a cleaned absolute path has its elements but the last.\<close>

lemma clean_elems_Dir:
  assumes "IsAbs p"
  shows "clean_elems (Dir (Clean p)) = butlast (clean_elems p) \<and> IsAbs (Dir (Clean p))"
proof (cases "clean_elems p" rule: rev_cases)
  case Nil
  then have "Clean p = ''/''" using assms by (simp add: Clean_def)
  moreover have "clean_elems (Dir ''/'') = []" "IsAbs (Dir ''/'')" by code_simp+
  ultimately show ?thesis using Nil by simp
next
  case (snoc fs e)
  have ok: "list_all elem_ok fs" "elem_ok e" using clean_elems_ok [of p] snoc by simp_all
  define x where "x = (if fs = [] then [] else slash # Join fs ''/'')"
  have "Clean p = x @ slash # e"
    using assms by (simp add: Clean_def snoc Join_snoc x_def)
  then have d: "Dir (Clean p) = Clean (x @ [slash])" using ok(2) by (simp add: Dir_drop_last elem_ok_def)
  have "clean_elems x = fs"
  proof (cases "fs = []")
    case False
    have nd: "''..'' \<notin> set fs" using clean_elems_abs_no_dotdot [OF assms] snoc by simp
    have "IsAbs x" using False by (simp add: x_def IsAbs_def HasPrefix_def)
    then show ?thesis
      using False clean_run_plain [OF ok(1) nd, of True "[]"] Split_Join_elems [OF ok(1) False]
      by (simp add: clean_elems_def x_def)
  qed (simp add: x_def clean_elems_def)
  moreover have "IsAbs (x @ [slash])" by (simp add: x_def IsAbs_def HasPrefix_def)
  ultimately show ?thesis using d snoc by (simp add: clean_elems_trailing_slash)
qed

end
