(* ===== verification/Utils.thy ===== *)
theory Utils
  imports GoRegex GoPath
begin

text \<open>
  \<^verbatim>\<open>pkg/utils/utils.go\<close> and \<^verbatim>\<open>pkg/utils/ovndb/ovn_db.go\<close>: line stripping, the shell metacharacter
  and path validators every tool relies on, the search for the repository root, and the OVN table name check.
  The locale \<open>char_guard\<close> is the contract of a validator that keeps characters out of a command:
  its lemmas say what an accepted value looks like after the code has trimmed or split it.
\<close>

section \<open>Stripping empty lines\<close>

definition StripEmptyLines :: "strs \<Rightarrow> strs" where
  "StripEmptyLines lines = (if lines = [] then lines else filter (\<lambda>line. TrimSpace line \<noteq> []) lines)"

section \<open>Shell metacharacters\<close>

definition single_chars :: "string \<Rightarrow> cls" where
  "single_chars s = map (\<lambda>c. (c, c)) s"

definition shellMetaCharacters :: pat where
  "shellMetaCharacters = Pat False (RCls (single_chars ('';&|$`<>'' @ [CHR 0x5C] @ ''()''))) False"

definition shellMetaCharactersNoBrackets :: pat where
  "shellMetaCharactersNoBrackets = Pat False (RCls (single_chars ('';&|$`<>'' @ [CHR 0x5C]))) False"

definition shellMetaCharactersNoBracketsNoAmp :: pat where
  "shellMetaCharactersNoBracketsNoAmp = Pat False (RCls (single_chars ('';|$`<>'' @ [CHR 0x5C]))) False"

definition shellMetaCharactersNoBracketsSpecialCharacters :: pat where
  "shellMetaCharactersNoBracketsSpecialCharacters =
     Pat False (RCls (single_chars ('';&|$`'' @ [newline, CHR 0x00] @ [CHR 0x27] @ ''<>'' @ [CHR 0x5C]))) False"

type_synonym ShellMetaCharactersType = string

definition ShellMetaCharactersTypeDefault :: ShellMetaCharactersType where
  "ShellMetaCharactersTypeDefault = ''default''"
definition ShellMetaCharactersTypeAllowBrackets :: ShellMetaCharactersType where
  "ShellMetaCharactersTypeAllowBrackets = ''allow_brackets''"
definition ShellMetaCharactersTypeAllowBracketsAllowAmp :: ShellMetaCharactersType where
  "ShellMetaCharactersTypeAllowBracketsAllowAmp = ''allow_brackets_and_amp''"
definition ShellMetaCharactersTypeDisallowSpecialCharacters :: ShellMetaCharactersType where
  "ShellMetaCharactersTypeDisallowSpecialCharacters = ''disallow_special_characters''"

lemmas shell_types = ShellMetaCharactersTypeDefault_def ShellMetaCharactersTypeAllowBrackets_def
  ShellMetaCharactersTypeAllowBracketsAllowAmp_def
  ShellMetaCharactersTypeDisallowSpecialCharacters_def

definition meta_error :: "string \<Rightarrow> err" where
  "meta_error param = Errorf ''invalid use of metacharacters in parameter: %s'' [FStr param]"

definition validateShellMetacharacters :: "string \<Rightarrow> ShellMetaCharactersType \<Rightarrow> validation" where
  "validateShellMetacharacters param ty =
     (if ty = ShellMetaCharactersTypeAllowBracketsAllowAmp then
        (if MatchString shellMetaCharactersNoBracketsNoAmp param then Some (meta_error param) else ok)
      else if ty = ShellMetaCharactersTypeAllowBrackets then
        (if MatchString shellMetaCharactersNoBrackets param then Some (meta_error param) else ok)
      else if ty = ShellMetaCharactersTypeDisallowSpecialCharacters then
        (if MatchString shellMetaCharactersNoBracketsSpecialCharacters param
         then Some (meta_error param) else ok)
      else if ty = ShellMetaCharactersTypeDefault then
        (if MatchString shellMetaCharacters param then Some (meta_error param) else ok)
      else Some (Errorf ''invalid shell metacharacters type: %s'' [FStr ty]))"

definition ValidateSafeString ::
  "string \<Rightarrow> string \<Rightarrow> bool \<Rightarrow> ShellMetaCharactersType \<Rightarrow> validation" where
  "ValidateSafeString value fieldName allowEmpty ty =
     (if value = [] then
        (if allowEmpty then ok else Some (Errorf ''%s cannot be empty'' [FStr fieldName]))
      else (case validateShellMetacharacters value ty of
          Some e \<Rightarrow> Some (Errorf ''invalid %s: contains potentially dangerous characters: %w''
            [FStr fieldName, FErr e])
        | None \<Rightarrow> ok))"

section \<open>Paths\<close>

text \<open>\<^verbatim>\<open>utf8.DecodeRuneInString\<close>: the first rune and its width; \<open>0xFFFD\<close> of width 1 for an invalid
  byte, of width 0 for the empty string.\<close>

definition cont :: "nat \<Rightarrow> bool" where
  "cont b \<longleftrightarrow> 0x80 \<le> b \<and> b \<le> 0xBF"

definition second_ok :: "nat \<Rightarrow> nat \<Rightarrow> bool" where
  "second_ok a b \<longleftrightarrow>
     (if a = 0xE0 then 0xA0 \<le> b \<and> b \<le> 0xBF
      else if a = 0xED then 0x80 \<le> b \<and> b \<le> 0x9F
      else if a = 0xF0 then 0x90 \<le> b \<and> b \<le> 0xBF
      else if a = 0xF4 then 0x80 \<le> b \<and> b \<le> 0x8F
      else cont b)"

definition DecodeRuneInString :: "string \<Rightarrow> nat \<times> nat" where
  "DecodeRuneInString s = (case map of_char (take 4 s) :: nat list of
       [] \<Rightarrow> (0xFFFD, 0)
     | a # rest \<Rightarrow>
         if a < 0x80 then (a, 1)
         else if 0xC2 \<le> a \<and> a \<le> 0xDF then
           (case rest of b # _ \<Rightarrow> if cont b then ((a - 0xC0) * 64 + (b - 0x80), 2) else (0xFFFD, 1)
            | _ \<Rightarrow> (0xFFFD, 1))
         else if 0xE0 \<le> a \<and> a \<le> 0xEF then
           (case rest of b # c # _ \<Rightarrow>
              if second_ok a b \<and> cont c
              then ((a - 0xE0) * 4096 + (b - 0x80) * 64 + (c - 0x80), 3) else (0xFFFD, 1)
            | _ \<Rightarrow> (0xFFFD, 1))
         else if 0xF0 \<le> a \<and> a \<le> 0xF4 then
           (case rest of b # c # d # _ \<Rightarrow>
              if second_ok a b \<and> cont c \<and> cont d
              then ((a - 0xF0) * 262144 + (b - 0x80) * 4096 + (c - 0x80) * 64 + (d - 0x80), 4)
              else (0xFFFD, 1)
            | _ \<Rightarrow> (0xFFFD, 1))
         else (0xFFFD, 1))"

definition pathSafeChars :: cls where
  "pathSafeChars = [(CHR ''a'', CHR ''z''), (CHR ''A'', CHR ''Z''), (CHR ''0'', CHR ''9''),
     (CHR ''/'', CHR ''/''), (CHR ''_'', CHR ''_''), (CHR ''.'', CHR ''.''),
     (CHR ''~'', CHR ''~''), (CHR ''-'', CHR ''-'')]"

text \<open>\<^verbatim>\<open>pathUnsafeChar.FindStringIndex\<close>: the position of the first rune outside the class. All
  allowed runes are single bytes, so this is the first byte outside the class.\<close>

fun pathUnsafeChar_index :: "string \<Rightarrow> nat option" where
  "pathUnsafeChar_index [] = None"
| "pathUnsafeChar_index (c # s) =
     (if \<not> in_class pathSafeChars c then Some 0 else map_option Suc (pathUnsafeChar_index s))"

definition ValidatePath :: "string \<Rightarrow> string \<Rightarrow> bool \<Rightarrow> validation" where
  "ValidatePath path pathType allowEmpty =
     (if path = [] then
        (if allowEmpty then ok else Some (Errorf ''%s cannot be empty'' [FStr pathType]))
      else if \<not> IsAbs path then
        Some (Errorf ''%s must be an absolute path (start with /), got: %s'' [FStr pathType, FStr path])
      else if ''..'' \<in> set (Split slash path) then
        Some (Errorf ''%s contains path traversal element '..': %s'' [FStr pathType, FStr path])
      else (case pathUnsafeChar_index path of
          None \<Rightarrow> ok
        | Some i \<Rightarrow>
            (let (r, size) = DecodeRuneInString (drop i path) in
             if r = 0xFFFD \<and> size \<le> 1 then
               Some (Errorf ''%s contains invalid/unsafe byte at position %d: 0x%02X''
                 [FStr pathType, FInt (int i), FInt (int (code (path ! i)))])
             else
               Some (Errorf ''%s contains unsafe character at position %d: %c (U+%04X)''
                 [FStr pathType, FInt (int i), FInt (int r), FInt (int r)]))))"

section \<open>OVN table names\<close>

definition alnum_us :: cls where
  "alnum_us = [(CHR ''a'', CHR ''z''), (CHR ''A'', CHR ''Z''), (CHR ''0'', CHR ''9''), (CHR ''_'', CHR ''_'')]"

definition validOVNTableNamePattern :: pat where
  "validOVNTableNamePattern = Pat True
     (RSeq (RCls [(CHR ''a'', CHR ''z''), (CHR ''A'', CHR ''Z'')]) (RStar (RCls alnum_us))) True"

definition ValidateOVNTableName :: "string \<Rightarrow> validation" where
  "ValidateOVNTableName table =
     (if table = [] then Some (Errorf ''table name cannot be empty'' [])
      else if \<not> MatchString validOVNTableNamePattern table then
        Some (Errorf ''invalid table name %q: must start with a letter and contain only alphanumeric characters and underscores''
          [FStr table])
      else ok)"

section \<open>Properties of line stripping\<close>

lemma StripEmptyLines_eq: "StripEmptyLines lines = filter (\<lambda>line. TrimSpace line \<noteq> []) lines"
  by (simp add: StripEmptyLines_def)

lemma StripEmptyLines_subseq [go_lines]: "subseq (StripEmptyLines lines) lines"
  by (simp add: StripEmptyLines_eq)

lemma StripEmptyLines_idem [simp]: "StripEmptyLines (StripEmptyLines lines) = StripEmptyLines lines"
  by (simp add: StripEmptyLines_eq)

lemma StripEmptyLines_nonempty: "l \<in> set (StripEmptyLines lines) \<Longrightarrow> TrimSpace l \<noteq> [] \<and> l \<noteq> []"
  by (auto simp: StripEmptyLines_eq)

section \<open>What the metacharacter validators accept\<close>

lemma in_class_single_chars [simp]: "in_class (single_chars s) c \<longleftrightarrow> c \<in> set s"
  by (induction s) (auto simp: single_chars_def in_class_def)

definition meta_set :: "ShellMetaCharactersType \<Rightarrow> string" where
  "meta_set ty =
     (if ty = ShellMetaCharactersTypeAllowBracketsAllowAmp then '';|$`<>'' @ [CHR 0x5C]
      else if ty = ShellMetaCharactersTypeAllowBrackets then '';&|$`<>'' @ [CHR 0x5C]
      else if ty = ShellMetaCharactersTypeDisallowSpecialCharacters then
        '';&|$`<>'' @ [CHR 0x5C, CHR 0x27, newline, CHR 0x00]
      else '';&|$`<>()'' @ [CHR 0x5C])"

definition known_type :: "ShellMetaCharactersType \<Rightarrow> bool" where
  "known_type ty \<longleftrightarrow> ty \<in> {ShellMetaCharactersTypeDefault, ShellMetaCharactersTypeAllowBrackets,
     ShellMetaCharactersTypeAllowBracketsAllowAmp, ShellMetaCharactersTypeDisallowSpecialCharacters}"

lemma match_single_chars:
  "set cs = M \<Longrightarrow> MatchString (Pat False (RCls (single_chars cs)) False) s \<longleftrightarrow> (\<exists>c \<in> set s. c \<in> M)"
  by (auto simp: MatchString_cls list_ex_iff)

lemma match_meta:
  "MatchString shellMetaCharacters s \<longleftrightarrow>
     (\<exists>c \<in> set s. c \<in> set (meta_set ShellMetaCharactersTypeDefault))"
  "MatchString shellMetaCharactersNoBrackets s \<longleftrightarrow>
     (\<exists>c \<in> set s. c \<in> set (meta_set ShellMetaCharactersTypeAllowBrackets))"
  "MatchString shellMetaCharactersNoBracketsNoAmp s \<longleftrightarrow>
     (\<exists>c \<in> set s. c \<in> set (meta_set ShellMetaCharactersTypeAllowBracketsAllowAmp))"
  "MatchString shellMetaCharactersNoBracketsSpecialCharacters s \<longleftrightarrow>
     (\<exists>c \<in> set s. c \<in> set (meta_set ShellMetaCharactersTypeDisallowSpecialCharacters))"
  unfolding shellMetaCharacters_def shellMetaCharactersNoBrackets_def
    shellMetaCharactersNoBracketsNoAmp_def shellMetaCharactersNoBracketsSpecialCharacters_def
  by (rule match_single_chars, simp add: meta_set_def shell_types insert_commute)+

lemma validateShellMetacharacters_ok:
  "validateShellMetacharacters param ty = ok \<longleftrightarrow>
     known_type ty \<and> (\<forall>c \<in> set param. c \<notin> set (meta_set ty))"
  unfolding validateShellMetacharacters_def match_meta known_type_def by simp

lemma ValidateSafeString_ok:
  "ValidateSafeString value f allowEmpty ty = ok \<longleftrightarrow>
     (if value = [] then allowEmpty
      else known_type ty \<and> (\<forall>c \<in> set value. c \<notin> set (meta_set ty)))"
  using validateShellMetacharacters_ok [of "value" ty]
  by (cases "validateShellMetacharacters value ty") (auto simp: ValidateSafeString_def)

definition no_meta :: "ShellMetaCharactersType \<Rightarrow> string \<Rightarrow> bool" where
  "no_meta ty v \<longleftrightarrow> list_all (\<lambda>c. c \<notin> set (meta_set ty)) v"

abbreviation plain :: "string \<Rightarrow> bool" where
  "plain \<equiv> no_meta ShellMetaCharactersTypeDefault"

lemma no_meta_Nil [simp]: "no_meta ty []"
  by (simp add: no_meta_def)

lemma ValidateSafeString_plain:
  "ValidateSafeString v f True ShellMetaCharactersTypeDefault = ok \<longleftrightarrow> plain v"
  by (auto simp: ValidateSafeString_ok known_type_def no_meta_def list_all_iff)

text \<open>A separator or redirection of the shell, excluded by every known type.\<close>

definition shell_separators :: string where
  "shell_separators = '';|$`<>'' @ [CHR 0x5C]"

lemma meta_set_separators: "set shell_separators \<subseteq> set (meta_set ty)"
  by (auto simp: meta_set_def shell_separators_def)

lemma ValidateSafeString_separators [go_valid]:
  "ValidateSafeString value f allowEmpty ty = ok \<Longrightarrow> set value \<inter> set shell_separators = {}"
  using meta_set_separators [of ty] by (auto simp: ValidateSafeString_ok split: if_splits)

section \<open>The contract of a character guard\<close>

locale char_guard =
  fixes validate :: "string \<Rightarrow> validation"
    and forbidden :: "char set"
  assumes accepts: "validate s = ok \<Longrightarrow> set s \<inter> forbidden = {}"
begin

lemma accepts_part: "validate s = ok \<Longrightarrow> set t \<subseteq> set s \<Longrightarrow> set t \<inter> forbidden = {}"
  using accepts by blast

lemma accepts_Fields: "validate s = ok \<Longrightarrow> t \<in> set (Fields s) \<Longrightarrow> set t \<inter> forbidden = {}"
  using accepts_part Fields_token by blast

lemma accepts_TrimSpace: "validate s = ok \<Longrightarrow> set (TrimSpace s) \<inter> forbidden = {}"
  using accepts_part set_TrimSpace by blast

lemma rejects: "c \<in> set s \<Longrightarrow> c \<in> forbidden \<Longrightarrow> validate s \<noteq> ok"
  using accepts by blast

end

interpretation safe_string: char_guard "\<lambda>s. ValidateSafeString s f allowEmpty ty" "set shell_separators"
  by unfold_locales (rule ValidateSafeString_separators)

interpretation safe_default: char_guard
  "\<lambda>s. ValidateSafeString s f allowEmpty ShellMetaCharactersTypeDefault"
  "set (meta_set ShellMetaCharactersTypeDefault)"
  by unfold_locales (auto simp: ValidateSafeString_ok split: if_splits)

section \<open>What the path validator accepts\<close>

lemma pathUnsafeChar_index_None:
  "pathUnsafeChar_index s = None \<longleftrightarrow> list_all (in_class pathSafeChars) s"
  by (induction s) auto

lemma pathUnsafeChar_index_Some:
  "pathUnsafeChar_index s = Some i \<Longrightarrow>
     i < length s \<and> \<not> in_class pathSafeChars (s ! i) \<and> list_all (in_class pathSafeChars) (take i s)"
  by (induction s arbitrary: i) (auto split: if_splits)

lemma ValidatePath_ok:
  "ValidatePath path ty allowEmpty = ok \<longleftrightarrow>
     (if path = [] then allowEmpty
      else IsAbs path \<and> ''..'' \<notin> set (Split slash path) \<and> list_all (in_class pathSafeChars) path)"
  by (auto simp: ValidatePath_def Let_def split: option.splits prod.splits if_splits
      dest: pathUnsafeChar_index_None [THEN iffD1] pathUnsafeChar_index_None [THEN iffD2])

interpretation path_guard: char_guard "\<lambda>p. ValidatePath p ty allowEmpty"
  "{c. \<not> in_class pathSafeChars c}"
  by unfold_locales (auto simp: ValidatePath_ok list_all_iff split: if_splits)

lemma clean_run_no_dotdot:
  "''..'' \<notin> set es \<Longrightarrow> clean_run r st es = rev (filter (\<lambda>e. e \<noteq> [] \<and> e \<noteq> ''.'') es) @ st"
  by (induction es arbitrary: st) auto

text \<open>An accepted path is cleaned without resolving any parent reference: its elements are those
  written, less empty ones and \<^verbatim>\<open>.\<close>.\<close>

lemma ValidatePath_clean_elems:
  assumes "ValidatePath path ty allowEmpty = ok" "path \<noteq> []"
  shows "clean_elems path = filter (\<lambda>e. e \<noteq> [] \<and> e \<noteq> ''.'') (Split slash path)"
  using assms by (simp add: ValidatePath_ok clean_elems_def clean_run_no_dotdot)

section \<open>Table names\<close>

lemma ValidateOVNTableName_ok:
  "ValidateOVNTableName t = ok \<longleftrightarrow>
     t \<noteq> [] \<and> in_class [(CHR ''a'', CHR ''z''), (CHR ''A'', CHR ''Z'')] (hd t) \<and>
     list_all (in_class alnum_us) (tl t)"
  by (cases t) (auto simp: ValidateOVNTableName_def validOVNTableNamePattern_def MatchString_full
      rx_in_cls_seq)

end
