(* ===== verification/Lines.thy ===== *)
theory Lines
  imports Utils
begin

text \<open>
  How the tools turn command output into lines: \<^verbatim>\<open>pkg/utils/headtail/head_tail.go\<close>,
  \<^verbatim>\<open>pkg/utils/pattern/pattern.go\<close>, and the step every handler repeats (run a command, fail on an
  error or on standard error, split standard output and strip empty lines).

  The compiler of client-supplied patterns, \<^verbatim>\<open>regexp.Compile\<close>, is the parameter \<open>compile\<close>: it
  returns an error or the match function of the compiled expression.

  The locale \<open>line_filter\<close> is the contract of a step that only drops lines.
\<close>

section \<open>Head and tail\<close>

record HeadTailParams =
  Head :: int
  Tail :: int
  ApplyTailFirst :: bool

definition head :: "strs \<Rightarrow> int \<Rightarrow> strs" where
  "head lines n =
     (if length lines = 0 then lines
      else if n \<le> 0 \<or> int (length lines) \<le> n then lines
      else take (nat n) lines)"

definition tail :: "strs \<Rightarrow> int \<Rightarrow> strs" where
  "tail lines n =
     (if length lines = 0 then lines
      else if n \<le> 0 \<or> int (length lines) \<le> n then lines
      else drop (nat (int (length lines) - n)) lines)"

definition Apply :: "HeadTailParams \<Rightarrow> strs \<Rightarrow> int \<Rightarrow> strs" where
  "Apply h lines defaultMaxLines =
     (if Head h = 0 \<and> Tail h = 0 then head lines defaultMaxLines
      else if Head h \<noteq> 0 \<and> Tail h \<noteq> 0 then
        (if ApplyTailFirst h then head (tail lines (Tail h)) (Head h)
         else tail (head lines (Head h)) (Tail h))
      else if Head h \<noteq> 0 then head lines (Head h)
      else tail lines (Tail h))"

section \<open>Pattern matching\<close>

type_synonym compiler = "string \<Rightarrow> err + (string \<Rightarrow> bool)"

record PatternParams =
  Pattern :: string

definition ExecuteWithMatch ::
  "compiler \<Rightarrow> PatternParams \<Rightarrow> ('w, strs) effect \<Rightarrow> bool \<Rightarrow> ('w, strs) effect" where
  "ExecuteWithMatch compile p f checkMatch w =
     (if \<not> checkMatch then
        (if Pattern p \<noteq> [] then
           (Inl (Errorf ''pattern matching is not supported in this mode (got pattern %q)''
              [FStr (Pattern p)]), w)
         else f w)
      else if Pattern p = [] then f w
      else (case compile (Pattern p) of
          Inl e \<Rightarrow> (Inl (Errorf ''invalid search pattern %q: %w'' [FStr (Pattern p), FErr e]), w)
        | Inr searchPattern \<Rightarrow>
            (case f w of
               (Inl e, w') \<Rightarrow> (Inl e, w')
             | (Inr lines, w') \<Rightarrow> (Inr (filter searchPattern lines), w'))))"

section \<open>Running a command and splitting its output\<close>

definition exec_lines ::
  "('w, string \<times> string) effect \<Rightarrow> (err \<Rightarrow> err) \<Rightarrow> (string \<Rightarrow> err) \<Rightarrow> ('w, strs) effect" where
  "exec_lines run on_err on_stderr w = (case run w of
       (Inl e, w') \<Rightarrow> (Inl (on_err e), w')
     | (Inr (stdout, stderr), w') \<Rightarrow>
         if stderr \<noteq> [] then (Inl (on_stderr stderr), w')
         else (Inr (StripEmptyLines (Split newline stdout)), w'))"

section \<open>The contract of a step that only drops lines\<close>

locale line_filter =
  fixes f :: "strs \<Rightarrow> strs"
  assumes drops: "subseq (f ls) ls"
begin

lemma length_le: "length (f ls) \<le> length ls"
  by (rule list_emb_length [OF drops])

lemma set_le: "set (f ls) \<subseteq> set ls"
  by (blast elim: list_emb_set [OF drops])

lemma keeps: "list_all P ls \<Longrightarrow> list_all P (f ls)"
  by (rule list_all_subseq [OF drops])

lemma Nil [simp]: "f [] = []"
  using drops [of "[]"] by simp

lemma after: "subseq ls ms \<Longrightarrow> subseq (f ls) ms"
  using drops subseq_order.order_trans by blast

end

lemma head_prefix: "prefix (head lines n) lines"
  by (simp add: head_def take_is_prefix)

lemma tail_suffix: "suffix (tail lines n) lines"
  by (simp add: tail_def suffix_drop)

interpretation head: line_filter "\<lambda>ls. head ls n"
  by unfold_locales (rule prefix_imp_subseq [OF head_prefix])

interpretation tail: line_filter "\<lambda>ls. tail ls n"
  by unfold_locales (rule suffix_imp_subseq [OF tail_suffix])

interpretation strip: line_filter StripEmptyLines
  by unfold_locales (rule StripEmptyLines_subseq)

interpretation headtail: line_filter "\<lambda>ls. Apply h ls d"
  by unfold_locales (auto simp: Apply_def intro: head.after tail.after head.drops tail.drops)

section \<open>How many lines Apply returns, and which\<close>

definition capped :: "int \<Rightarrow> nat \<Rightarrow> nat" where
  "capped n len = (if n \<le> 0 then len else min (nat n) len)"

lemma length_head: "length (head lines n) = capped n (length lines)"
  by (auto simp: head_def capped_def)

lemma length_tail: "length (tail lines n) = capped n (length lines)"
  by (auto simp: tail_def capped_def)

lemma capped_commute: "capped m (capped n len) = capped n (capped m len)"
  by (auto simp: capped_def)

lemma length_Apply:
  "length (Apply h lines d) =
     (if Head h = 0 \<and> Tail h = 0 then capped d (length lines)
      else capped (Head h) (capped (Tail h) (length lines)))"
proof -
  have "capped 0 n = n" for n by (simp add: capped_def)
  then show ?thesis
    by (auto simp: Apply_def length_head length_tail capped_commute)
qed

lemma sublist_head_tail: "sublist (head (tail ls m) n) ls" "sublist (tail (head ls n) m) ls"
  by (meson head_prefix tail_suffix prefix_imp_sublist suffix_imp_sublist sublist_order.order_trans)+

lemma Apply_sublist: "sublist (Apply h lines d) lines"
  using sublist_head_tail prefix_imp_sublist [OF head_prefix] suffix_imp_sublist [OF tail_suffix]
  by (simp add: Apply_def)

lemma Apply_id: "Head h = 0 \<Longrightarrow> Tail h = 0 \<Longrightarrow> length lines \<le> nat d \<Longrightarrow> Apply h lines d = lines"
  by (auto simp: Apply_def head_def)

section \<open>Outcomes of a matched execution\<close>

lemma exec_lines_cases:
  "exec_lines run on_err on_stderr w =
     (case fst (run w) of
        Inl e \<Rightarrow> Inl (on_err e)
      | Inr (out, er) \<Rightarrow> if er \<noteq> [] then Inl (on_stderr er)
          else Inr (StripEmptyLines (Split newline out)), snd (run w))"
  by (auto simp: exec_lines_def split: prod.splits sum.splits)

lemma snd_exec_lines [simp]: "snd (exec_lines run on_err on_stderr w) = snd (run w)"
  by (simp add: exec_lines_cases)

text \<open>The world changes only when the command runs, and then as the command changes it.\<close>

lemma ExecuteWithMatch_world:
  "snd (ExecuteWithMatch compile p f checkMatch w) = w \<or>
   snd (ExecuteWithMatch compile p f checkMatch w) = snd (f w)"
  by (auto simp: ExecuteWithMatch_def split: sum.splits prod.splits)

lemma ExecuteWithMatch_Inr:
  assumes "ExecuteWithMatch compile p f checkMatch w = (Inr lines, w')"
  obtains ls where "f w = (Inr ls, w')"
    "lines = (if Pattern p = [] then ls
      else filter (case compile (Pattern p) of Inr m \<Rightarrow> m | Inl e \<Rightarrow> (\<lambda>_. True)) ls)"
    "Pattern p \<noteq> [] \<Longrightarrow> checkMatch \<and> (\<exists>m. compile (Pattern p) = Inr m)"
  using assms by (auto simp: ExecuteWithMatch_def split: if_splits sum.splits prod.splits)

lemma ExecuteWithMatch_subseq [go_lines]:
  assumes "ExecuteWithMatch compile p f checkMatch w = (Inr lines, w')"
  shows "\<exists>ls. f w = (Inr ls, w') \<and> subseq lines ls"
  using ExecuteWithMatch_Inr [OF assms] by (metis subseq_filter_left subseq_order.order_refl)

lemma ExecuteWithMatch_no_pattern [simp]:
  "Pattern p = [] \<Longrightarrow> ExecuteWithMatch compile p f checkMatch w = f w"
  by (simp add: ExecuteWithMatch_def)


text \<open>What the lines of a successful matched command are: lines of its standard output in their
  order, none blank, each matching the client's pattern.\<close>

definition matches_pattern :: "compiler \<Rightarrow> PatternParams \<Rightarrow> string \<Rightarrow> bool" where
  "matches_pattern compile p l \<longleftrightarrow>
     Pattern p = [] \<or> (\<exists>m. compile (Pattern p) = Inr m \<and> m l)"

definition output_line :: "compiler \<Rightarrow> PatternParams \<Rightarrow> string \<Rightarrow> bool" where
  "output_line compile p l \<longleftrightarrow> TrimSpace l \<noteq> [] \<and> matches_pattern compile p l"

lemma matched_exec_lines:
  assumes "ExecuteWithMatch compile p (exec_lines run on_err on_stderr) b w = (Inr lines, w')"
  obtains out where "run w = (Inr (out, []), w')"
    "lines = filter (output_line compile p) (Split newline out)"
proof -
  obtain ls where f: "exec_lines run on_err on_stderr w = (Inr ls, w')"
    and l: "lines = (if Pattern p = [] then ls
      else filter (case compile (Pattern p) of Inr m \<Rightarrow> m | Inl e \<Rightarrow> (\<lambda>_. True)) ls)"
    and c: "Pattern p \<noteq> [] \<Longrightarrow> b \<and> (\<exists>m. compile (Pattern p) = Inr m)"
    using ExecuteWithMatch_Inr [OF assms] by metis
  from f obtain out where r: "run w = (Inr (out, []), w')"
    and ls: "ls = StripEmptyLines (Split newline out)"
    by (auto simp: exec_lines_def split: sum.splits prod.splits if_splits)
  have "lines = filter (output_line compile p) (Split newline out)"
    using l c ls by (auto simp: StripEmptyLines_eq output_line_def matches_pattern_def
        intro!: filter_cong)
  with r show ?thesis using that by blast
qed

lemma exec_lines_Inr:
  "exec_lines run on_err on_stderr w = (Inr lines, w') \<longleftrightarrow>
     (\<exists>out. run w = (Inr (out, []), w') \<and> lines = StripEmptyLines (Split newline out))"
  by (auto simp: exec_lines_def split: sum.splits prod.splits if_splits)

text \<open>The other direction: a command that succeeds without standard error, under a pattern that
  compiles, gives exactly those lines.\<close>

lemma ExecuteWithMatch_ok:
  assumes "run w = (Inr (out, []), w')" "Pattern p = [] \<or> b \<and> (\<exists>m. compile (Pattern p) = Inr m)"
  shows "ExecuteWithMatch compile p (exec_lines run on_err on_stderr) b w =
     (Inr (filter (output_line compile p) (Split newline out)), w')"
  using assms by (auto simp: ExecuteWithMatch_def exec_lines_def StripEmptyLines_eq
      output_line_def matches_pattern_def intro!: filter_cong)

text \<open>An error of the command comes back wrapped.\<close>

lemma ExecuteWithMatch_err:
  assumes "run w = (Inl e, w')" "Pattern p = [] \<or> b \<and> (\<exists>m. compile (Pattern p) = Inr m)"
  shows "ExecuteWithMatch compile p (exec_lines run on_err on_stderr) b w = (Inl (on_err e), w')"
  using assms by (auto simp: ExecuteWithMatch_def exec_lines_def)

end
