(* ===== verification/Timeouts.thy ===== *)
theory Timeouts
  imports Prelude "HOL-Library.Word"
begin

text \<open>
  \<^verbatim>\<open>pkg/utils/timeout/timeout.go\<close> and the part of Go's \<^verbatim>\<open>context\<close> and \<^verbatim>\<open>time\<close> it uses. A duration is a
  signed 64-bit count of nanoseconds, kept at its width; the client's timeout is an unsigned 32-bit
  count of seconds. A context carries an optional absolute deadline in nanoseconds.
\<close>

type_synonym duration = "64 word"

definition Second :: duration where
  "Second = 1000000000"

definition MaxTimeout :: duration where
  "MaxTimeout = 300 * Second"

text \<open>The built-in \<^verbatim>\<open>min\<close> on durations compares them as signed integers.\<close>

definition min_duration :: "duration \<Rightarrow> duration \<Rightarrow> duration" where
  "min_duration a b = (if sint b < sint a then b else a)"

record TimeoutParams =
  TimeoutSeconds :: "32 word"

definition ToDuration :: "TimeoutParams \<Rightarrow> duration" where
  "ToDuration t = (let duration = ucast (TimeoutSeconds t) * Second in min_duration duration MaxTimeout)"

record Context =
  Deadline :: "int option"

definition context_Background :: Context where
  "context_Background = \<lparr>Deadline = None\<rparr>"

text \<open>\<^verbatim>\<open>context.WithTimeout\<close> at time \<open>now\<close>: the earlier of the parent's deadline and \<open>now + d\<close>.\<close>

definition context_WithTimeout :: "int \<Rightarrow> Context \<Rightarrow> duration \<Rightarrow> Context" where
  "context_WithTimeout now ctx d = ctx\<lparr>Deadline := Some (case Deadline ctx of
       None \<Rightarrow> now + sint d
     | Some t \<Rightarrow> min t (now + sint d))\<rparr>"

text \<open>\<open>WithTimeout\<close> returns the context and whether there is a cancel function to defer.\<close>

definition WithTimeout :: "int \<Rightarrow> TimeoutParams \<Rightarrow> Context \<Rightarrow> Context \<times> bool" where
  "WithTimeout now t ctx =
     (if TimeoutSeconds t = 0 then (ctx, False)
      else (context_WithTimeout now ctx (ToDuration t), True))"

section \<open>No wrap-around below the cap\<close>

lemma sint_MaxTimeout: "sint MaxTimeout = 300000000000"
  by (simp add: MaxTimeout_def Second_def)

lemma sint_seconds: "sint (ucast (s :: 32 word) * Second) = uint s * 1000000000"
proof -
  have s: "uint s < 2 ^ 32" using uint_lt2p [of s] by simp
  have u: "uint (ucast s :: 64 word) = uint s"
    by (rule uint_up_ucast) (simp add: is_up)
  have "uint (ucast s * Second :: 64 word) = (uint s * 1000000000) mod 2 ^ 64"
    by (simp add: uint_word_ariths u Second_def)
  also have "\<dots> = uint s * 1000000000"
    using s by (intro mod_pos_pos_trivial) (auto)
  finally have u': "uint (ucast s * Second :: 64 word) = uint s * 1000000000" .
  have "- (2 ^ 63) \<le> uint s * 1000000000"
    by (rule order_trans [of _ 0]) simp_all
  moreover have "uint s * 1000000000 < 2 ^ 63" using s by simp
  ultimately have "signed_take_bit 63 (uint s * 1000000000) = uint s * 1000000000"
    by (rule signed_take_bit_int_eq_self)
  then show ?thesis using u' by (simp add: sint_uint)
qed

lemma sint_ToDuration:
  "sint (ToDuration t) = min (uint (TimeoutSeconds t) * 1000000000) 300000000000"
  by (simp add: ToDuration_def Let_def min_duration_def sint_seconds sint_MaxTimeout)

end
