(* ===== verification/Exec.thy ===== *)
theory Exec
  imports Lines Timeouts
begin

text \<open>
  The two functions the Kubernetes server hands to the other tool servers: running a command in a
  pod (\<^verbatim>\<open>RunPodExecCommandFuncType\<close>) and on a node (\<^verbatim>\<open>RunDebugNodeCommandFuncType\<close>), as
  parameters over an arbitrary world. \<open>calls\<close> relates two worlds when one is reached from the other
  by commands that satisfy a predicate: a handler's safety property is that it relates the world
  it starts in to the one it ends in, for the commands the tool may run. The locale
  \<open>exec_invariant\<close> is the other side of that contract: what every permitted command keeps, the
  handler keeps.
\<close>

type_synonym 'w pod_exec =
  "Context \<Rightarrow> string \<Rightarrow> string \<Rightarrow> string \<Rightarrow> strs \<Rightarrow> ('w, string \<times> string) effect"

type_synonym 'w node_exec =
  "Context \<Rightarrow> string \<Rightarrow> string \<Rightarrow> string \<Rightarrow> strs \<Rightarrow> string \<Rightarrow> string \<Rightarrow> duration \<Rightarrow>
   ('w, string \<times> string) effect"

record pod_call =
  pc_ctx :: Context
  pc_namespace :: string
  pc_name :: string
  pc_container :: string
  pc_command :: strs

record node_call =
  nc_ctx :: Context
  nc_namespace :: string
  nc_node :: string
  nc_image :: string
  nc_command :: strs
  nc_hostPath :: string
  nc_mountPath :: string
  nc_timeout :: duration

definition pod_step :: "'w pod_exec \<Rightarrow> pod_call \<Rightarrow> 'w \<Rightarrow> 'w" where
  "pod_step run c w = snd (run (pc_ctx c) (pc_namespace c) (pc_name c) (pc_container c) (pc_command c) w)"

definition node_step :: "'w node_exec \<Rightarrow> node_call \<Rightarrow> 'w \<Rightarrow> 'w" where
  "node_step run c w = snd (run (nc_ctx c) (nc_namespace c) (nc_node c) (nc_image c) (nc_command c)
     (nc_hostPath c) (nc_mountPath c) (nc_timeout c) w)"

inductive calls :: "('a \<Rightarrow> 'w \<Rightarrow> 'w) \<Rightarrow> ('a \<Rightarrow> bool) \<Rightarrow> 'w \<Rightarrow> 'w \<Rightarrow> bool"
  for step P where
  none: "calls step P w w"
| call: "calls step P w w' \<Longrightarrow> P a \<Longrightarrow> calls step P w (step a w')"

lemma calls_one: "P a \<Longrightarrow> calls step P w (step a w)"
  by (rule calls.call [OF calls.none])

lemma calls_pod_one:
  "P \<lparr>pc_ctx = ctx, pc_namespace = ns, pc_name = name, pc_container = c, pc_command = cmd\<rparr> \<Longrightarrow>
   calls (pod_step run) P w (snd (run ctx ns name c cmd w))"
  using calls_one [of P "\<lparr>pc_ctx = ctx, pc_namespace = ns, pc_name = name, pc_container = c,
      pc_command = cmd\<rparr>" "pod_step run"] by (simp add: pod_step_def)

lemma calls_node_one:
  "P \<lparr>nc_ctx = ctx, nc_namespace = ns, nc_node = node, nc_image = im, nc_command = cmd,
      nc_hostPath = hp, nc_mountPath = mp, nc_timeout = t\<rparr> \<Longrightarrow>
   calls (node_step run) P w (snd (run ctx ns node im cmd hp mp t w))"
  using calls_one [of P "\<lparr>nc_ctx = ctx, nc_namespace = ns, nc_node = node, nc_image = im,
      nc_command = cmd, nc_hostPath = hp, nc_mountPath = mp, nc_timeout = t\<rparr>" "node_step run"]
  by (simp add: node_step_def)

lemma calls_trans: "calls step P w' w'' \<Longrightarrow> calls step P w w' \<Longrightarrow> calls step P w w''"
  by (induction rule: calls.induct) (auto intro: calls.intros)

lemma calls_mono: "calls step P w w' \<Longrightarrow> (\<And>a. P a \<Longrightarrow> Q a) \<Longrightarrow> calls step Q w w'"
  by (induction rule: calls.induct) (auto intro: calls.intros)

lemma calls_ExecuteWithMatch:
  "calls step P w (snd (f w)) \<Longrightarrow> calls step P w (snd (ExecuteWithMatch compile p f b w))"
  using ExecuteWithMatch_world [of compile p f b w] calls.none by metis

locale exec_invariant =
  fixes step :: "'a \<Rightarrow> 'w \<Rightarrow> 'w"
    and permitted :: "'a \<Rightarrow> bool"
    and inv :: "'w \<Rightarrow> bool"
  assumes keeps: "permitted a \<Longrightarrow> inv w \<Longrightarrow> inv (step a w)"
begin

lemma calls_inv: "calls step permitted w w' \<Longrightarrow> inv w \<Longrightarrow> inv w'"
  by (induction rule: calls.induct) (auto intro: keeps)

end

section \<open>An executor that records its commands\<close>

text \<open>A world that is the list of commands run so far, with fixed answers: the instance that turns a
  statement about \<open>calls\<close> into one about the commands themselves.\<close>

definition log_pod :: "(pod_call \<Rightarrow> (string \<times> string) result) \<Rightarrow> pod_call list pod_exec" where
  "log_pod answer ctx ns name c cmd w =
     (let a = \<lparr>pc_ctx = ctx, pc_namespace = ns, pc_name = name, pc_container = c, pc_command = cmd\<rparr>
      in (answer a, w @ [a]))"

definition log_node :: "(node_call \<Rightarrow> (string \<times> string) result) \<Rightarrow> node_call list node_exec" where
  "log_node answer ctx ns node im cmd hp mp t w =
     (let a = \<lparr>nc_ctx = ctx, nc_namespace = ns, nc_node = node, nc_image = im, nc_command = cmd,
        nc_hostPath = hp, nc_mountPath = mp, nc_timeout = t\<rparr>
      in (answer a, w @ [a]))"

interpretation pod_log: exec_invariant "pod_step (log_pod answer)" P "list_all P"
proof unfold_locales
  fix a w
  assume "P a" "list_all P w"
  then show "list_all P (pod_step (log_pod answer) a w)"
    by (cases a) (simp add: pod_step_def log_pod_def Let_def)
qed

interpretation node_log: exec_invariant "node_step (log_node answer)" P "list_all P"
proof unfold_locales
  fix a w
  assume "P a" "list_all P w"
  then show "list_all P (node_step (log_node answer) a w)"
    by (cases a) (simp add: node_step_def log_node_def Let_def)
qed

section \<open>Tools that use both executors\<close>

definition both_step :: "'w node_exec \<Rightarrow> 'w pod_exec \<Rightarrow> node_call + pod_call \<Rightarrow> 'w \<Rightarrow> 'w" where
  "both_step run_node run_pod c w =
     (case c of Inl n \<Rightarrow> node_step run_node n w | Inr p \<Rightarrow> pod_step run_pod p w)"

lemma both_step_simps [simp]:
  "both_step run_node run_pod (Inl n) = node_step run_node n"
  "both_step run_node run_pod (Inr p) = pod_step run_pod p"
  by (auto simp: both_step_def)

lemma calls_both_node:
  "calls (node_step run_node) (\<lambda>c. P (Inl c)) w w' \<Longrightarrow> calls (both_step run_node run_pod) P w w'"
proof (induction rule: calls.induct)
  case (call w w' a)
  then show ?case using calls.call [of "both_step run_node run_pod" P w w' "Inl a"] by simp
qed (rule calls.none)

lemma calls_both_pod:
  "calls (pod_step run_pod) (\<lambda>c. P (Inr c)) w w' \<Longrightarrow> calls (both_step run_node run_pod) P w w'"
proof (induction rule: calls.induct)
  case (call w w' a)
  then show ?case using calls.call [of "both_step run_node run_pod" P w w' "Inr a"] by simp
qed (rule calls.none)

section \<open>Results of a fallible helper\<close>

definition val_or :: "'a \<Rightarrow> 'a result \<Rightarrow> 'a" where
  "val_or d r = (case r of Inl _ \<Rightarrow> d | Inr x \<Rightarrow> x)"

definition err_of :: "'a result \<Rightarrow> err option" where
  "err_of r = (case r of Inl e \<Rightarrow> Some e | Inr _ \<Rightarrow> None)"

lemma val_or_simps [simp]: "val_or d (Inl e) = d" "val_or d (Inr x) = x"
  by (simp_all add: val_or_def)

lemma err_of_simps [simp]: "err_of (Inl e) = Some e" "err_of (Inr x) = None"
  by (simp_all add: err_of_def)


section \<open>Shapes of handler code\<close>

text \<open>A validation followed by the rest, and a fallible step followed by a total one: the two shapes the
  handlers are built from, with the rules that carry \<open>calls\<close> and success through them.\<close>

lemma calls_guard:
  "(v = None \<Longrightarrow> calls st P w (snd x)) \<Longrightarrow>
   calls st P w (snd (case v of Some e \<Rightarrow> (r e, w) | None \<Rightarrow> x))"
  by (cases v) (auto intro: calls.none)

lemma calls_if:
  "(b \<Longrightarrow> calls st P w (snd x)) \<Longrightarrow> (\<not> b \<Longrightarrow> calls st P w (snd y)) \<Longrightarrow>
   calls st P w (snd (if b then x else y))"
  by simp

lemma calls_pair: "calls st P w (snd (r, w))"
  by (simp add: calls.none)

lemma calls_case_prod:
  "calls st P w (snd x) \<Longrightarrow> calls st P w (snd (case x of (r, w') \<Rightarrow> (g r, w')))"
  by (cases x) simp

lemma calls_case_result:
  "calls st P w (snd x) \<Longrightarrow>
   calls st P w (snd (case x of (Inl e, w') \<Rightarrow> (h e, w') | (Inr y, w') \<Rightarrow> (g y, w')))"
  by (auto split: prod.splits sum.splits)

lemma calls_exec_lines:
  "calls st P w (snd (run w)) \<Longrightarrow> calls st P w (snd (exec_lines run f g w))"
  by simp

lemma calls_seq:
  "calls st P w (snd x) \<Longrightarrow> (\<And>r. calls st P (snd x) (snd (f r (snd x)))) \<Longrightarrow>
   calls st P w (snd (case x of (r, w') \<Rightarrow> f r w'))"
  by (cases x) (auto intro: calls_trans)

lemma calls_seq_eq:
  "calls st P w (snd x) \<Longrightarrow> (\<And>r w'. x = (r, w') \<Longrightarrow> calls st P w' (snd (f r w'))) \<Longrightarrow>
   calls st P w (snd (case x of (r, w') \<Rightarrow> f r w'))"
  by (cases x) (auto intro: calls_trans)

lemma calls_case_output:
  "calls st P w (snd x) \<Longrightarrow>
   calls st P w (snd (case x of (Inl e, w') \<Rightarrow> (h e, w')
     | (Inr (out, er), w') \<Rightarrow> if b out er then (g out er, w') else (k out er, w')))"
  by (auto split: prod.splits sum.splits)

lemma calls_case_bool:
  "(b \<Longrightarrow> calls st P w (snd x)) \<Longrightarrow> (\<not> b \<Longrightarrow> calls st P w (snd y)) \<Longrightarrow>
   calls st P w (snd (case b of True \<Rightarrow> x | False \<Rightarrow> y))"
  by (cases b) simp_all

lemma calls_case_sum:
  "(\<And>e. r = Inl e \<Longrightarrow> calls st P w (snd (f e))) \<Longrightarrow> (\<And>y. r = Inr y \<Longrightarrow> calls st P w (snd (g y))) \<Longrightarrow>
   calls st P w (snd (case r of Inl e \<Rightarrow> f e | Inr y \<Rightarrow> g y))"
  by (cases r) simp_all

lemma calls_case_option:
  "(r = None \<Longrightarrow> calls st P w (snd f)) \<Longrightarrow> (\<And>y. r = Some y \<Longrightarrow> calls st P w (snd (g y))) \<Longrightarrow>
   calls st P w (snd (case r of None \<Rightarrow> f | Some y \<Rightarrow> g y))"
  by (cases r) simp_all

lemma calls_case_pure_pair:
  "(\<And>a b. y = (a, b) \<Longrightarrow> calls st P w (snd (f a b))) \<Longrightarrow> calls st P w (snd (case y of (a, b) \<Rightarrow> f a b))"
  by (cases y) simp

lemmas calls_branches = calls_if calls_pair calls_case_bool calls_case_sum calls_case_option

lemmas calls_intros = calls_guard calls_if calls_pair calls_case_prod calls_case_result
  calls_exec_lines calls_ExecuteWithMatch

lemma guard_Inr:
  "(case v of Some e \<Rightarrow> (Inl e, w) | None \<Rightarrow> x) = (Inr y, w') \<longleftrightarrow> v = None \<and> x = (Inr y, w')"
  by (cases v) auto

lemma case_result_Inr:
  "(case x of (Inl e, w') \<Rightarrow> (Inl e, w') | (Inr y, w') \<Rightarrow> (Inr (g y), w')) = (Inr z, v) \<longleftrightarrow>
     (\<exists>y. x = (Inr y, v) \<and> z = g y)"
  by (auto split: prod.splits sum.splits)

lemma guard_handler_ok:
  "(case v of Some e \<Rightarrow> ((r0, Some e), w) | None \<Rightarrow> x) = ((r, None), w') \<longleftrightarrow>
     v = None \<and> x = ((r, None), w')"
  by (cases v) auto

lemma handler_result_ok:
  "(case x of (q, w') \<Rightarrow> ((g (val_or d q), err_of q), w')) = ((r, None), w') \<longleftrightarrow>
     (\<exists>y. x = (Inr y, w') \<and> r = g y)"
  by (auto simp: val_or_def err_of_def split: prod.splits sum.splits)

section \<open>Messages of a failed command\<close>

text \<open>The two error messages of a command share their text: the source formats the error under
  \<^verbatim>\<open>%w\<close> and a non-empty standard error under \<^verbatim>\<open>%s\<close>.\<close>

definition exec_failed :: "string \<Rightarrow> strs \<Rightarrow> err \<Rightarrow> err" where
  "exec_failed msg as e = Errorf (msg @ '': %w'') (map FStr as @ [FErr e])"

definition exec_stderr :: "string \<Rightarrow> strs \<Rightarrow> string \<Rightarrow> err" where
  "exec_stderr msg as s = Errorf (msg @ '': %s'') (map FStr as @ [FStr s])"

lemma err_is_exec_failed [simp]: "err_is (exec_failed msg as e) e"
  by (simp add: exec_failed_def)

section \<open>Success of a matched command\<close>

definition pattern_ok :: "compiler \<Rightarrow> PatternParams \<Rightarrow> bool" where
  "pattern_ok compile p \<longleftrightarrow> Pattern p = [] \<or> (\<exists>m. compile (Pattern p) = Inr m)"

lemma matched_exec_mode_iff:
  "ExecuteWithMatch compile p (exec_lines run on_err on_stderr) b w = (Inr lines, w') \<longleftrightarrow>
     pattern_ok compile p \<and> (b \<or> Pattern p = []) \<and> (\<exists>out. run w = (Inr (out, []), w') \<and>
       lines = filter (output_line compile p) (Split newline out))"
proof
  assume e: "ExecuteWithMatch compile p (exec_lines run on_err on_stderr) b w = (Inr lines, w')"
  have "pattern_ok compile p \<and> (b \<or> Pattern p = [])"
    using ExecuteWithMatch_Inr [OF e] by (metis pattern_ok_def)
  with matched_exec_lines [OF e]
  show "pattern_ok compile p \<and> (b \<or> Pattern p = []) \<and> (\<exists>out. run w = (Inr (out, []), w') \<and>
       lines = filter (output_line compile p) (Split newline out))" by metis
next
  assume "pattern_ok compile p \<and> (b \<or> Pattern p = []) \<and> (\<exists>out. run w = (Inr (out, []), w') \<and>
       lines = filter (output_line compile p) (Split newline out))"
  then show "ExecuteWithMatch compile p (exec_lines run on_err on_stderr) b w = (Inr lines, w')"
    using ExecuteWithMatch_ok by (metis pattern_ok_def)
qed

lemma matched_exec_iff:
  "ExecuteWithMatch compile p (exec_lines run on_err on_stderr) True w = (Inr lines, w') \<longleftrightarrow>
     pattern_ok compile p \<and> (\<exists>out. run w = (Inr (out, []), w') \<and>
       lines = filter (output_line compile p) (Split newline out))"
  by (simp add: matched_exec_mode_iff)

text \<open>A handler that returns the zero or partial result with the error of its last step.\<close>

lemma handler_case_ok:
  "(case x of (Inl e, w') \<Rightarrow> ((r0, Some e), w') | (Inr y, w') \<Rightarrow> ((g y, None), w')) = ((r, None), v) \<longleftrightarrow>
     (\<exists>y. x = (Inr y, v) \<and> r = g y)"
  by (auto split: prod.splits sum.splits)

end
