(* ===== verification/Ovs.thy ===== *)
theory Ovs
  imports Exec
begin

text \<open>
  The OVS tools, \<^verbatim>\<open>pkg/ovs/types/command.go\<close>, \<^verbatim>\<open>pkg/ovs/mcp/commands.go\<close> and
  \<^verbatim>\<open>pkg/ovs/mcp/mcp.go\<close>: the action and parameter validators, and the three handlers with the
  functions they dispatch to. Every function that runs a command takes the executor from the
  server record.
\<close>

section \<open>Types\<close>

definition VsctlShow :: string where "VsctlShow = ''show''"
definition VsctlListBr :: string where "VsctlListBr = ''list-br''"
definition VsctlListPorts :: string where "VsctlListPorts = ''list-ports''"
definition VsctlListIfaces :: string where "VsctlListIfaces = ''list-ifaces''"
definition OfctlDumpFlows :: string where "OfctlDumpFlows = ''dump-flows''"
definition AppctlDumpConntrack :: string where "AppctlDumpConntrack = ''dpctl/dump-conntrack''"
definition AppctlOfprotoTrace :: string where "AppctlOfprotoTrace = ''ofproto/trace''"

lemmas ovs_actions = VsctlShow_def VsctlListBr_def VsctlListPorts_def VsctlListIfaces_def
  OfctlDumpFlows_def AppctlDumpConntrack_def AppctlOfprotoTrace_def

record VsctlParams =
  vs_Namespace :: string
  vs_Name :: string
  vs_Action :: string
  vs_Bridge :: string
  vs_HeadTail :: HeadTailParams

record VsctlResult =
  vr_Output :: string
  vr_Bridges :: strs
  vr_Ports :: strs
  vr_Interfaces :: strs

definition VsctlResult_zero :: VsctlResult where
  "VsctlResult_zero = \<lparr>vr_Output = [], vr_Bridges = [], vr_Ports = [], vr_Interfaces = []\<rparr>"

record OfctlParams =
  of_Namespace :: string
  of_Name :: string
  of_Action :: string
  of_Bridge :: string
  of_Pattern :: PatternParams
  of_HeadTail :: HeadTailParams

record OfctlResult =
  or_Bridge :: string
  or_Flows :: strs

record AppctlParams =
  ap_Namespace :: string
  ap_Name :: string
  ap_Action :: string
  ap_Bridge :: string
  ap_Flow :: string
  ap_AdditionalParams :: strs
  ap_Pattern :: PatternParams
  ap_HeadTail :: HeadTailParams

record AppctlResult =
  ar_Entries :: strs
  ar_Bridge :: string
  ar_Flow :: string
  ar_Output :: string

definition AppctlResult_zero :: AppctlResult where
  "AppctlResult_zero = \<lparr>ar_Entries = [], ar_Bridge = [], ar_Flow = [], ar_Output = []\<rparr>"

record 'w ovs_MCPServer =
  ovs_runPodExecCommand :: "'w pod_exec"

definition ovs_NewMCPServer :: "'w pod_exec option \<Rightarrow> 'w ovs_MCPServer result" where
  "ovs_NewMCPServer runPodExecCommand = (case runPodExecCommand of
       None \<Rightarrow> Inl (Errorf ''function to run pod exec command is nil'' [])
     | Some run \<Rightarrow> Inr \<lparr>ovs_runPodExecCommand = run\<rparr>)"

section \<open>Validation\<close>

definition ovs_DefaultMaxLines :: int where
  "ovs_DefaultMaxLines = 100"

definition letters :: cls where
  "letters = [(CHR ''a'', CHR ''z''), (CHR ''A'', CHR ''Z'')]"

definition name_cls :: cls where
  "name_cls = letters @ [(CHR ''0'', CHR ''9''), (CHR ''_'', CHR ''_''), (CHR ''-'', CHR ''-'')]"

definition validBridgeName :: pat where
  "validBridgeName = Pat True (RPlus (RCls name_cls)) True"

definition validateBridgeName :: "string \<Rightarrow> validation" where
  "validateBridgeName bridge =
     (if bridge = [] then Some (Errorf ''bridge name cannot be empty'' [])
      else if \<not> MatchString validBridgeName bridge then
        Some (Errorf ''invalid bridge name %q: must contain only alphanumeric characters, hyphens, and underscores''
          [FStr bridge])
      else ok)"

definition validateFlowSpec :: "string \<Rightarrow> validation" where
  "validateFlowSpec flow =
     ValidateSafeString flow ''flow specification'' False ShellMetaCharactersTypeAllowBrackets"

definition conntrack_value_cls :: cls where
  "conntrack_value_cls = letters @ [(CHR ''0'', CHR ''9''), (CHR ''x'', CHR ''x''),
     (CHR ''.'', CHR ''.''), (CHR '':'', CHR '':''), (CHR '','', CHR '',''), (CHR ''/'', CHR ''/''),
     (CHR ''_'', CHR ''_''), (CHR ''-'', CHR ''-'')]"

definition validConntrackParam :: pat where
  "validConntrackParam = Pat True
     (RAlt (RSeq (RChr (CHR ''-'')) (RCls letters))
           (RSeq (RPlus (RCls name_cls)) (RSeq (RChr (CHR ''='')) (RPlus (RCls conntrack_value_cls)))))
     True"

fun validateConntrackParams :: "strs \<Rightarrow> validation" where
  "validateConntrackParams [] = ok"
| "validateConntrackParams (param # params) =
     (case ValidateSafeString param ''conntrack parameter'' False ShellMetaCharactersTypeDefault of
        Some e \<Rightarrow> Some e
      | None \<Rightarrow>
          if \<not> MatchString validConntrackParam param then
            Some (Errorf ''invalid conntrack parameter format %q: must be a flag (e.g., '-m') or key=value pair (e.g., 'zone=5')''
              [FStr param])
          else validateConntrackParams params)"

definition validateVsctlAction :: "string \<Rightarrow> validation" where
  "validateVsctlAction action =
     (if action = VsctlShow \<or> action = VsctlListBr \<or> action = VsctlListPorts \<or> action = VsctlListIfaces
      then ok
      else Some (Errorf ''invalid action %q: must be one of \"show\", \"list-br\", \"list-ports\", \"list-ifaces\"''
        [FStr action]))"

definition validateOfctlAction :: "string \<Rightarrow> validation" where
  "validateOfctlAction action =
     (if action = OfctlDumpFlows then ok
      else Some (Errorf ''invalid action %q: must be one of \"dump-flows\"'' [FStr action]))"

definition validateAppctlAction :: "string \<Rightarrow> validation" where
  "validateAppctlAction action =
     (if action = AppctlDumpConntrack \<or> action = AppctlOfprotoTrace then ok
      else Some (Errorf ''invalid action %q: must be one of \"dpctl/dump-conntrack\", \"ofproto/trace\"''
        [FStr action]))"

section \<open>Commands\<close>

definition listBridges_msg :: string where
  "listBridges_msg = ''failed to retrieve ovs bridge from pod %s/%s''"

definition listBridges :: "'w ovs_MCPServer \<Rightarrow> Context \<Rightarrow> string \<Rightarrow> string \<Rightarrow> ('w, strs) effect" where
  "listBridges s ctx namespace name =
     (let msg = listBridges_msg; as = [namespace, name] in
      exec_lines (ovs_runPodExecCommand s ctx namespace name [] [''ovs-vsctl'', ''list-br''])
        (exec_failed msg as) (exec_stderr msg as))"

definition ovs_show_msg :: string where
  "ovs_show_msg = ''failed to retrieve ovs configuration from pod %s/%s''"

definition ovs_show ::
  "'w ovs_MCPServer \<Rightarrow> Context \<Rightarrow> string \<Rightarrow> string \<Rightarrow> HeadTailParams \<Rightarrow> ('w, string) effect" where
  "ovs_show s ctx namespace name headTailParams w =
     (let msg = ovs_show_msg; as = [namespace, name] in
      (case exec_lines (ovs_runPodExecCommand s ctx namespace name [] [''ovs-vsctl'', ''show''])
          (exec_failed msg as) (exec_stderr msg as) w of
         (Inl e, w') \<Rightarrow> (Inl e, w')
       | (Inr lines, w') \<Rightarrow> (Inr (Join (Apply headTailParams lines ovs_DefaultMaxLines) [newline]), w')))"

definition listPorts_msg :: string where
  "listPorts_msg = ''failed to retrieve ports for bridge %s from pod %s/%s''"

definition listPorts ::
  "'w ovs_MCPServer \<Rightarrow> Context \<Rightarrow> string \<Rightarrow> string \<Rightarrow> string \<Rightarrow> ('w, strs) effect" where
  "listPorts s ctx namespace name bridge w =
     (let msg = listPorts_msg; as = [bridge, namespace, name] in
      (case validateBridgeName bridge of
         Some e \<Rightarrow> (Inl e, w)
       | None \<Rightarrow>
           exec_lines (ovs_runPodExecCommand s ctx namespace name [] [''ovs-vsctl'', ''list-ports'', bridge])
             (exec_failed msg as) (exec_stderr msg as) w))"

definition listInterfaces_msg :: string where
  "listInterfaces_msg = ''failed to retrieve interfaces for bridge %s from pod %s/%s''"

definition listInterfaces ::
  "'w ovs_MCPServer \<Rightarrow> Context \<Rightarrow> string \<Rightarrow> string \<Rightarrow> string \<Rightarrow> ('w, strs) effect" where
  "listInterfaces s ctx namespace name bridge w =
     (let msg = listInterfaces_msg;
          as = [bridge, namespace, name] in
      (case validateBridgeName bridge of
         Some e \<Rightarrow> (Inl e, w)
       | None \<Rightarrow>
           exec_lines (ovs_runPodExecCommand s ctx namespace name [] [''ovs-vsctl'', ''list-ifaces'', bridge])
             (exec_failed msg as) (exec_stderr msg as) w))"

definition dumpFlows_msg :: string where
  "dumpFlows_msg = ''failed to dump flows for bridge %s on pod %s/%s''"

definition dumpFlows ::
  "compiler \<Rightarrow> 'w ovs_MCPServer \<Rightarrow> Context \<Rightarrow> string \<Rightarrow> string \<Rightarrow> string \<Rightarrow> PatternParams \<Rightarrow>
   HeadTailParams \<Rightarrow> ('w, strs) effect" where
  "dumpFlows compile s ctx namespace name bridge patternParams headTailParams w =
     (let msg = dumpFlows_msg; as = [bridge, namespace, name] in
      (case validateBridgeName bridge of
         Some e \<Rightarrow> (Inl e, w)
       | None \<Rightarrow>
           (case ExecuteWithMatch compile patternParams
               (exec_lines (ovs_runPodExecCommand s ctx namespace name [] [''ovs-ofctl'', ''dump-flows'', bridge])
                 (exec_failed msg as) (exec_stderr msg as)) True w of
              (Inl e, w') \<Rightarrow> (Inl e, w')
            | (Inr flows, w') \<Rightarrow> (Inr (Apply headTailParams flows ovs_DefaultMaxLines), w'))))"

definition dumpConntrack_msg :: string where
  "dumpConntrack_msg = ''failed to dump conntrack on pod %s/%s''"

definition dumpConntrack ::
  "compiler \<Rightarrow> 'w ovs_MCPServer \<Rightarrow> Context \<Rightarrow> string \<Rightarrow> string \<Rightarrow> strs \<Rightarrow> PatternParams \<Rightarrow>
   HeadTailParams \<Rightarrow> ('w, strs) effect" where
  "dumpConntrack compile s ctx namespace name additionalParams patternParams headTailParams w =
     (let msg = dumpConntrack_msg; as = [namespace, name];
          cmd = [''ovs-appctl'', ''dpctl/dump-conntrack''] @
            (if length additionalParams > 0 then additionalParams else []) in
      (case (if length additionalParams > 0 then validateConntrackParams additionalParams else ok) of
         Some e \<Rightarrow> (Inl e, w)
       | None \<Rightarrow>
           (case ExecuteWithMatch compile patternParams
               (exec_lines (ovs_runPodExecCommand s ctx namespace name [] cmd)
                 (exec_failed msg as) (exec_stderr msg as)) True w of
              (Inl e, w') \<Rightarrow> (Inl e, w')
            | (Inr entries, w') \<Rightarrow> (Inr (Apply headTailParams entries ovs_DefaultMaxLines), w'))))"

definition dumpOfprotoTrace_msg :: string where
  "dumpOfprotoTrace_msg = ''failed to trace flow on bridge %s, pod %s/%s''"

definition dumpOfprotoTrace ::
  "compiler \<Rightarrow> 'w ovs_MCPServer \<Rightarrow> Context \<Rightarrow> string \<Rightarrow> string \<Rightarrow> string \<Rightarrow> string \<Rightarrow> PatternParams \<Rightarrow>
   HeadTailParams \<Rightarrow> ('w, string) effect" where
  "dumpOfprotoTrace compile s ctx namespace name bridge flow patternParams headTailParams w =
     (let msg = dumpOfprotoTrace_msg; as = [bridge, namespace, name];
          cmd = [''ovs-appctl'', ''ofproto/trace'', bridge, flow] in
      (case validateBridgeName bridge of
         Some e \<Rightarrow> (Inl e, w)
       | None \<Rightarrow>
      (case validateFlowSpec flow of
         Some e \<Rightarrow> (Inl e, w)
       | None \<Rightarrow>
           (case ExecuteWithMatch compile patternParams
               (exec_lines (ovs_runPodExecCommand s ctx namespace name [] cmd)
                 (exec_failed msg as) (exec_stderr msg as)) True w of
              (Inl e, w') \<Rightarrow> (Inl e, w')
            | (Inr lines, w') \<Rightarrow>
                (Inr (Join (Apply headTailParams lines ovs_DefaultMaxLines) [newline]), w')))))"

section \<open>Handlers\<close>

definition Vsctl ::
  "'w ovs_MCPServer \<Rightarrow> Context \<Rightarrow> VsctlParams \<Rightarrow> 'w \<Rightarrow> VsctlResult handler_ret \<times> 'w" where
  "Vsctl s ctx inp w =
     (let ns = vs_Namespace inp; name = vs_Name inp in
      case validateVsctlAction (vs_Action inp) of
        Some e \<Rightarrow> ((VsctlResult_zero, Some e), w)
      | None \<Rightarrow>
          if vs_Action inp = VsctlShow then
            (case ovs_show s ctx ns name (vs_HeadTail inp) w of (r, w') \<Rightarrow>
              ((VsctlResult_zero\<lparr>vr_Output := val_or [] r\<rparr>, err_of r), w'))
          else if vs_Action inp = VsctlListBr then
            (case listBridges s ctx ns name w of (r, w') \<Rightarrow>
              ((VsctlResult_zero\<lparr>vr_Bridges := val_or [] r\<rparr>, err_of r), w'))
          else if vs_Action inp = VsctlListPorts then
            (case listPorts s ctx ns name (vs_Bridge inp) w of (r, w') \<Rightarrow>
              ((VsctlResult_zero\<lparr>vr_Ports := val_or [] r\<rparr>, err_of r), w'))
          else if vs_Action inp = VsctlListIfaces then
            (case listInterfaces s ctx ns name (vs_Bridge inp) w of (r, w') \<Rightarrow>
              ((VsctlResult_zero\<lparr>vr_Interfaces := val_or [] r\<rparr>, err_of r), w'))
          else ((VsctlResult_zero, Some (Errorf
            ''invalid action %q: must be one of \"show\", \"list-br\", \"list-ports\", \"list-ifaces\"''
            [FStr (vs_Action inp)])), w))"

definition Ofctl ::
  "compiler \<Rightarrow> 'w ovs_MCPServer \<Rightarrow> Context \<Rightarrow> OfctlParams \<Rightarrow> 'w \<Rightarrow> OfctlResult handler_ret \<times> 'w" where
  "Ofctl compile s ctx inp w =
     (case validateOfctlAction (of_Action inp) of
        Some e \<Rightarrow> ((\<lparr>or_Bridge = [], or_Flows = []\<rparr>, Some e), w)
      | None \<Rightarrow>
          if of_Action inp = OfctlDumpFlows then
            (case dumpFlows compile s ctx (of_Namespace inp) (of_Name inp) (of_Bridge inp)
                (of_Pattern inp) (of_HeadTail inp) w of (r, w') \<Rightarrow>
              ((\<lparr>or_Bridge = of_Bridge inp, or_Flows = val_or [] r\<rparr>, err_of r), w'))
          else ((\<lparr>or_Bridge = [], or_Flows = []\<rparr>, Some (Errorf
            ''invalid action %q: must be one of \"dump-flows\"'' [FStr (of_Action inp)])), w))"

definition Appctl ::
  "compiler \<Rightarrow> 'w ovs_MCPServer \<Rightarrow> Context \<Rightarrow> AppctlParams \<Rightarrow> 'w \<Rightarrow> AppctlResult handler_ret \<times> 'w" where
  "Appctl compile s ctx inp w =
     (case validateAppctlAction (ap_Action inp) of
        Some e \<Rightarrow> ((AppctlResult_zero, Some e), w)
      | None \<Rightarrow>
          if ap_Action inp = AppctlDumpConntrack then
            (case dumpConntrack compile s ctx (ap_Namespace inp) (ap_Name inp) (ap_AdditionalParams inp)
                (ap_Pattern inp) (ap_HeadTail inp) w of (r, w') \<Rightarrow>
              ((AppctlResult_zero\<lparr>ar_Entries := val_or [] r\<rparr>, err_of r), w'))
          else if ap_Action inp = AppctlOfprotoTrace then
            (case dumpOfprotoTrace compile s ctx (ap_Namespace inp) (ap_Name inp) (ap_Bridge inp)
                (ap_Flow inp) (ap_Pattern inp) (ap_HeadTail inp) w of (r, w') \<Rightarrow>
              ((AppctlResult_zero\<lparr>ar_Bridge := ap_Bridge inp, ar_Flow := ap_Flow inp,
                 ar_Output := val_or [] r\<rparr>, err_of r), w'))
          else ((AppctlResult_zero, Some (Errorf
            ''invalid action %q: must be one of \"dpctl/dump-conntrack\", \"ofproto/trace\"''
            [FStr (ap_Action inp)])), w))"

section \<open>What the validators accept\<close>

definition bridge_ok :: "string \<Rightarrow> bool" where
  "bridge_ok b \<longleftrightarrow> b \<noteq> [] \<and> list_all (in_class name_cls) b"

lemma validateBridgeName_ok [go_valid]: "validateBridgeName b = ok \<longleftrightarrow> bridge_ok b"
  by (auto simp: validateBridgeName_def validBridgeName_def MatchString_full bridge_ok_def)

definition conntrack_param_ok :: "string \<Rightarrow> bool" where
  "conntrack_param_ok p \<longleftrightarrow>
     (\<exists>c. p = [CHR ''-'', c] \<and> in_class letters c) \<or>
     (\<exists>k v. p = k @ CHR ''='' # v \<and> k \<noteq> [] \<and> v \<noteq> [] \<and> list_all (in_class name_cls) k \<and>
        list_all (in_class conntrack_value_cls) v)"

lemma MatchString_validConntrackParam:
  "MatchString validConntrackParam p \<longleftrightarrow> conntrack_param_ok p"
proof -
  have "rx_in (RSeq (RPlus (RCls name_cls)) (RSeq (RChr (CHR ''='')) (RPlus (RCls conntrack_value_cls)))) p
    \<longleftrightarrow> (\<exists>k v. p = k @ CHR ''='' # v \<and> k \<noteq> [] \<and> v \<noteq> [] \<and> list_all (in_class name_cls) k \<and>
        list_all (in_class conntrack_value_cls) v)"
    unfolding rx_in_Seq [of "RPlus (RCls name_cls)"] by (auto simp: RChr_def rx_in_cls_seq)
  moreover have "rx_in (RSeq (RChr (CHR ''-'')) (RCls letters)) p \<longleftrightarrow>
      (\<exists>c. p = [CHR ''-'', c] \<and> in_class letters c)"
    by (auto simp: RChr_def rx_in_cls_seq)
  ultimately show ?thesis
    by (simp add: validConntrackParam_def MatchString_full conntrack_param_ok_def)
qed

text \<open>The format check alone already keeps the metacharacters out, so the two checks together
  accept exactly the parameters of that format.\<close>

lemma in_class_append [simp]: "in_class (rs @ qs) c \<longleftrightarrow> in_class rs c \<or> in_class qs c"
  by (simp add: in_class_def)

lemma conntrack_chars_safe:
  "in_class name_cls c \<or> in_class conntrack_value_cls c \<or> c = CHR ''='' \<Longrightarrow>
   c \<notin> set (meta_set ShellMetaCharactersTypeDefault)"
  by (auto simp: name_cls_def conntrack_value_cls_def letters_def in_class_def meta_set_def shell_types)

lemma conntrack_param_ok_chars:
  "conntrack_param_ok p \<Longrightarrow> c \<in> set p \<Longrightarrow>
     in_class name_cls c \<or> in_class conntrack_value_cls c \<or> c = CHR ''=''"
  by (auto simp: conntrack_param_ok_def list_all_iff name_cls_def in_class_def)

lemma validateConntrackParams_ok [go_valid]:
  "validateConntrackParams ps = ok \<longleftrightarrow> list_all conntrack_param_ok ps"
proof (induction ps)
  case (Cons p ps)
  have "conntrack_param_ok p \<Longrightarrow>
      ValidateSafeString p ''conntrack parameter'' False ShellMetaCharactersTypeDefault = ok"
    using conntrack_param_ok_chars [of p] conntrack_chars_safe
    by (auto simp: ValidateSafeString_ok known_type_def conntrack_param_ok_def)
  with Cons show ?case by (auto simp: MatchString_validConntrackParam split: option.splits)
qed simp

section \<open>Every OVS command is a read-only one on validated arguments\<close>

definition ovs_readonly :: "strs \<Rightarrow> bool" where
  "ovs_readonly cmd \<longleftrightarrow>
     cmd \<in> {[''ovs-vsctl'', ''show''], [''ovs-vsctl'', ''list-br'']} \<or>
     (\<exists>b. bridge_ok b \<and> cmd \<in> {[''ovs-vsctl'', ''list-ports'', b], [''ovs-vsctl'', ''list-ifaces'', b],
        [''ovs-ofctl'', ''dump-flows'', b]}) \<or>
     (\<exists>ps. list_all conntrack_param_ok ps \<and> cmd = [''ovs-appctl'', ''dpctl/dump-conntrack''] @ ps) \<or>
     (\<exists>b f. bridge_ok b \<and> validateFlowSpec f = ok \<and> cmd = [''ovs-appctl'', ''ofproto/trace'', b, f])"

definition ovs_call :: "string \<Rightarrow> string \<Rightarrow> pod_call \<Rightarrow> bool" where
  "ovs_call ns name c \<longleftrightarrow> pc_namespace c = ns \<and> pc_name c = name \<and> pc_container c = [] \<and>
     ovs_readonly (pc_command c)"

lemma ovs_run_call:
  "ovs_readonly cmd \<Longrightarrow>
   calls (pod_step run) (ovs_call ns name) w (snd (run ctx ns name [] cmd w))"
  by (rule calls_pod_one) (simp add: ovs_call_def)

lemmas ovs_steps = listBridges_def ovs_show_def listPorts_def listInterfaces_def dumpFlows_def
  dumpConntrack_def dumpOfprotoTrace_def

lemma ovs_steps_calls:
  "calls (pod_step (ovs_runPodExecCommand s)) (ovs_call ns name) w (snd (listBridges s ctx ns name w))"
  "calls (pod_step (ovs_runPodExecCommand s)) (ovs_call ns name) w (snd (ovs_show s ctx ns name ht w))"
  "calls (pod_step (ovs_runPodExecCommand s)) (ovs_call ns name) w (snd (listPorts s ctx ns name b w))"
  "calls (pod_step (ovs_runPodExecCommand s)) (ovs_call ns name) w (snd (listInterfaces s ctx ns name b w))"
  "calls (pod_step (ovs_runPodExecCommand s)) (ovs_call ns name) w
     (snd (dumpFlows compile s ctx ns name b p ht w))"
  "calls (pod_step (ovs_runPodExecCommand s)) (ovs_call ns name) w
     (snd (dumpConntrack compile s ctx ns name ps p ht w))"
  "calls (pod_step (ovs_runPodExecCommand s)) (ovs_call ns name) w
     (snd (dumpOfprotoTrace compile s ctx ns name b f p ht w))"
  unfolding ovs_steps Let_def
  by (intro calls_intros ovs_run_call; auto simp: go_valid ovs_readonly_def)+

section \<open>Properties\<close>

lemma ovs_handler_calls:
  "calls (pod_step (ovs_runPodExecCommand s)) (ovs_call (vs_Namespace v) (vs_Name v)) w
     (snd (Vsctl s ctx v w))"
  "calls (pod_step (ovs_runPodExecCommand s)) (ovs_call (of_Namespace f) (of_Name f)) w
     (snd (Ofctl compile s ctx f w))"
  "calls (pod_step (ovs_runPodExecCommand s)) (ovs_call (ap_Namespace a) (ap_Name a)) w
     (snd (Appctl compile s ctx a w))"
  unfolding Vsctl_def Ofctl_def Appctl_def Let_def
  by (intro calls_intros ovs_steps_calls)+

text \<open>Claim C3: whatever a client sends, each OVS tool runs only commands of the fixed read-only set, on
  the pod the client named and with a validated bridge name, flow and conntrack parameters;
  on every other input it runs nothing.\<close>

theorem ovs_tools_read_only:
  "calls (pod_step (ovs_runPodExecCommand s)) (ovs_call (vs_Namespace v) (vs_Name v)) w
     (snd (Vsctl s ctx v w)) \<and>
   calls (pod_step (ovs_runPodExecCommand s)) (ovs_call (of_Namespace f) (of_Name f)) w
     (snd (Ofctl compile s ctx f w)) \<and>
   calls (pod_step (ovs_runPodExecCommand s)) (ovs_call (ap_Namespace a) (ap_Name a)) w
     (snd (Appctl compile s ctx a w))"
  by (intro conjI ovs_handler_calls)

lemma validate_actions_ok:
  "validateOfctlAction a = ok \<longleftrightarrow> a = OfctlDumpFlows"
  "validateAppctlAction a = ok \<longleftrightarrow> a = AppctlDumpConntrack \<or> a = AppctlOfprotoTrace"
  "validateVsctlAction a = ok \<longleftrightarrow>
     a = VsctlShow \<or> a = VsctlListBr \<or> a = VsctlListPorts \<or> a = VsctlListIfaces"
  by (simp_all add: validateOfctlAction_def validateAppctlAction_def validateVsctlAction_def)

lemma dumpFlows_Inr:
  "dumpFlows compile s ctx ns name b p ht w = (Inr fl, w') \<longleftrightarrow>
     bridge_ok b \<and> pattern_ok compile p \<and>
     (\<exists>out. ovs_runPodExecCommand s ctx ns name [] [''ovs-ofctl'', ''dump-flows'', b] w = (Inr (out, []), w') \<and>
        fl = Apply ht (filter (output_line compile p) (Split newline out)) ovs_DefaultMaxLines)"
  unfolding dumpFlows_def Let_def guard_Inr case_result_Inr matched_exec_iff validateBridgeName_ok
  by blast

text \<open>Claim C27: \<^verbatim>\<open>ovs-ofctl\<close> succeeds exactly when the action is \<^verbatim>\<open>dump-flows\<close>, the bridge name is valid,
  the pattern (if any) compiles and the command succeeds with an empty standard error; the flows
  returned are then the non-blank output lines that match the pattern, in order, cut by the
  head and tail parameters.\<close>

theorem Ofctl_ok_iff:
  "Ofctl compile s ctx i w = ((r, None), w') \<longleftrightarrow>
     of_Action i = ''dump-flows'' \<and> bridge_ok (of_Bridge i) \<and> pattern_ok compile (of_Pattern i) \<and>
     (\<exists>out. ovs_runPodExecCommand s ctx (of_Namespace i) (of_Name i) []
          [''ovs-ofctl'', ''dump-flows'', of_Bridge i] w = (Inr (out, []), w') \<and>
        r = \<lparr>or_Bridge = of_Bridge i,
             or_Flows = Apply (of_HeadTail i)
               (filter (output_line compile (of_Pattern i)) (Split newline out)) 100\<rparr>)"
  unfolding Ofctl_def guard_handler_ok validate_actions_ok
  by (auto simp: handler_result_ok [where g = "\<lambda>fl. \<lparr>or_Bridge = of_Bridge i, or_Flows = fl\<rparr>"]
      dumpFlows_Inr ovs_DefaultMaxLines_def OfctlDumpFlows_def)

text \<open>when the executor fails, \<^verbatim>\<open>ovs-vsctl\<close> reports an error, and unless the input was
  rejected before any command ran, that error wraps the executor's.\<close>

theorem Vsctl_reports_failure:
  assumes "\<forall>ctx ns name c cmd w. fst (ovs_runPodExecCommand s ctx ns name c cmd w) = Inl e"
  shows "\<exists>e'. snd (fst (Vsctl s ctx i w)) = Some e' \<and> (err_is e' e \<or> snd (Vsctl s ctx i w) = w)"
proof -
  have x: "exec_lines (ovs_runPodExecCommand s ctx ns name c cmd) f g w =
      (Inl (f e), snd (ovs_runPodExecCommand s ctx ns name c cmd w))" for ctx ns name c cmd f g w
    using assms by (simp add: exec_lines_cases)
  show ?thesis
    by (auto simp: Vsctl_def Let_def listBridges_def ovs_show_def listPorts_def listInterfaces_def x
        split: option.splits)
qed

theorem Vsctl_reports_failure_witness:
  "\<exists>e'. snd (fst (Vsctl \<lparr>ovs_runPodExecCommand = log_pod (\<lambda>_. Inl (ExtErr ''timeout''))\<rparr>
      context_Background
      \<lparr>vs_Namespace = ''ovn-kubernetes'', vs_Name = ''ovnkube-node-1'', vs_Action = ''list-ports'',
       vs_Bridge = ''br-int'', vs_HeadTail = \<lparr>Head = 0, Tail = 0, ApplyTailFirst = False\<rparr>\<rparr> [])) = Some e' \<and>
     (err_is e' (ExtErr ''timeout'') \<or>
      snd (Vsctl \<lparr>ovs_runPodExecCommand = log_pod (\<lambda>_. Inl (ExtErr ''timeout''))\<rparr>
      context_Background
      \<lparr>vs_Namespace = ''ovn-kubernetes'', vs_Name = ''ovnkube-node-1'', vs_Action = ''list-ports'',
       vs_Bridge = ''br-int'', vs_HeadTail = \<lparr>Head = 0, Tail = 0, ApplyTailFirst = False\<rparr>\<rparr> []) = [])"
  by (rule Vsctl_reports_failure) (simp add: log_pod_def Let_def)

end
