(* ===== verification/Ovn.thy ===== *)
theory Ovn
  imports Exec
begin

text \<open>
  The OVN tools, \<^verbatim>\<open>pkg/ovn/types/command.go\<close>, \<^verbatim>\<open>pkg/ovn/mcp/commands.go\<close> and
  \<^verbatim>\<open>pkg/ovn/mcp/mcp.go\<close>: the validators and the four handlers, each with the whole command it
  builds, its guards in the order of the source and both of its error messages.
\<close>

section \<open>Types\<close>

definition NorthboundDB :: string where "NorthboundDB = ''nbdb''"
definition SouthboundDB :: string where "SouthboundDB = ''sbdb''"
definition TraceModeDetailed :: string where "TraceModeDetailed = ''detailed''"
definition TraceModeSummary :: string where "TraceModeSummary = ''summary''"
definition TraceModeMinimal :: string where "TraceModeMinimal = ''minimal''"

record ShowParams =
  sh_Namespace :: string
  sh_Name :: string
  sh_Database :: string
  sh_HeadTail :: HeadTailParams

record ShowResult =
  shr_Database :: string
  shr_Output :: string

record LogicalFlowListParams =
  lf_Namespace :: string
  lf_Name :: string
  lf_Datapath :: string
  lf_Pattern :: PatternParams
  lf_HeadTail :: HeadTailParams

record LogicalFlowListResult =
  lfr_Datapath :: string
  lfr_Flows :: strs

record OVNTraceParams =
  tr_Namespace :: string
  tr_Name :: string
  tr_Datapath :: string
  tr_Microflow :: string
  tr_Mode :: string
  tr_Pattern :: PatternParams
  tr_HeadTail :: HeadTailParams

record OVNTraceResult =
  trr_Datapath :: string
  trr_Microflow :: string
  trr_Output :: string

record GetParams =
  gt_Namespace :: string
  gt_Name :: string
  gt_Database :: string
  gt_Table :: string
  gt_Record :: string
  gt_Columns :: string
  gt_Pattern :: PatternParams
  gt_HeadTail :: HeadTailParams

record GetResult =
  gtr_Database :: string
  gtr_Table :: string
  gtr_Record :: string
  gtr_Output :: string

record 'w ovn_MCPServer =
  ovn_runPodExecCommand :: "'w pod_exec"

definition ovn_NewMCPServer :: "'w pod_exec option \<Rightarrow> 'w ovn_MCPServer result" where
  "ovn_NewMCPServer runPodExecCommand = (case runPodExecCommand of
       None \<Rightarrow> Inl (Errorf ''function to run pod exec command is nil'' [])
     | Some run \<Rightarrow> Inr \<lparr>ovn_runPodExecCommand = run\<rparr>)"

section \<open>Validation\<close>

definition ovn_DefaultMaxLines :: int where
  "ovn_DefaultMaxLines = 100"

definition validateDatabase :: "string \<Rightarrow> validation" where
  "validateDatabase db =
     (if db = NorthboundDB \<or> db = SouthboundDB then ok
      else Some (Errorf (''invalid database %q: must be 'nbdb' or 'sbdb'' @ [CHR 0x27]) [FStr db]))"

definition validateRecordName :: "string \<Rightarrow> validation" where
  "validateRecordName rec =
     ValidateSafeString rec ''record identifier'' False ShellMetaCharactersTypeDefault"

definition validateDatapath :: "string \<Rightarrow> validation" where
  "validateDatapath datapath =
     ValidateSafeString datapath ''datapath name'' False ShellMetaCharactersTypeDefault"

definition validateMicroflow :: "string \<Rightarrow> validation" where
  "validateMicroflow microflow = ValidateSafeString microflow ''microflow specification'' False
     ShellMetaCharactersTypeAllowBracketsAllowAmp"

definition validateColumnSpec :: "string \<Rightarrow> validation" where
  "validateColumnSpec columns =
     ValidateSafeString columns ''column specification'' True ShellMetaCharactersTypeDefault"

definition getDBCommand :: "string \<Rightarrow> string" where
  "getDBCommand db = (if db = SouthboundDB then ''ovn-sbctl'' else ''ovn-nbctl'')"

section \<open>Handlers\<close>

definition Show_msg :: string where
  "Show_msg = ''failed to retrieve OVN configuration from pod %s/%s''"

definition Show ::
  "'w ovn_MCPServer \<Rightarrow> Context \<Rightarrow> ShowParams \<Rightarrow> 'w \<Rightarrow> ShowResult handler_ret \<times> 'w" where
  "Show s ctx inp w =
     (let result = \<lparr>shr_Database = sh_Database inp, shr_Output = []\<rparr>;
          as = [sh_Namespace inp, sh_Name inp];
          cmd = getDBCommand (sh_Database inp) in
      case validateDatabase (sh_Database inp) of
        Some e \<Rightarrow> ((result, Some e), w)
      | None \<Rightarrow>
          (case exec_lines (ovn_runPodExecCommand s ctx (sh_Namespace inp) (sh_Name inp) [] [cmd, ''show''])
               (exec_failed Show_msg as) (exec_stderr Show_msg as) w of
             (Inl e, w') \<Rightarrow> ((result, Some e), w')
           | (Inr lines, w') \<Rightarrow>
               ((result\<lparr>shr_Output := Join (Apply (sh_HeadTail inp) lines ovn_DefaultMaxLines) [newline]\<rparr>,
                 None), w')))"

definition Get_record_msg :: string where
  "Get_record_msg = ''failed to get record %s from table %s on pod %s/%s''"

definition Get_list_msg :: string where
  "Get_list_msg = ''failed to list table %s from pod %s/%s''"

definition Get_msg :: "GetParams \<Rightarrow> string" where
  "Get_msg inp = (if gt_Record inp \<noteq> [] then Get_record_msg else Get_list_msg)"

definition Get_msg_args :: "GetParams \<Rightarrow> strs" where
  "Get_msg_args inp = (if gt_Record inp \<noteq> []
     then [gt_Record inp, gt_Table inp, gt_Namespace inp, gt_Name inp]
     else [gt_Table inp, gt_Namespace inp, gt_Name inp])"

definition Get_cmdArgs :: "GetParams \<Rightarrow> strs" where
  "Get_cmdArgs inp =
     (let cmdArgs = [getDBCommand (gt_Database inp)];
          cmdArgs = (if gt_Columns inp \<noteq> [] then cmdArgs @ [''--columns='' @ gt_Columns inp] else cmdArgs) in
      if gt_Record inp = [] then cmdArgs @ [''list'', gt_Table inp]
      else cmdArgs @ [''list'', gt_Table inp, gt_Record inp])"

definition Get ::
  "compiler \<Rightarrow> 'w ovn_MCPServer \<Rightarrow> Context \<Rightarrow> GetParams \<Rightarrow> 'w \<Rightarrow> GetResult handler_ret \<times> 'w" where
  "Get compile s ctx inp w =
     (let result = \<lparr>gtr_Database = gt_Database inp, gtr_Table = gt_Table inp, gtr_Record = gt_Record inp,
            gtr_Output = []\<rparr> in
      case validateDatabase (gt_Database inp) of
        Some e \<Rightarrow> ((result, Some e), w)
      | None \<Rightarrow>
      (case ValidateOVNTableName (gt_Table inp) of
        Some e \<Rightarrow> ((result, Some e), w)
      | None \<Rightarrow>
      (case validateColumnSpec (gt_Columns inp) of
        Some e \<Rightarrow> ((result, Some e), w)
      | None \<Rightarrow>
      (case (if gt_Record inp = [] then ok else validateRecordName (gt_Record inp)) of
        Some e \<Rightarrow> ((result, Some e), w)
      | None \<Rightarrow>
      (case ExecuteWithMatch compile (gt_Pattern inp)
          (exec_lines (ovn_runPodExecCommand s ctx (gt_Namespace inp) (gt_Name inp) [] (Get_cmdArgs inp))
            (exec_failed (Get_msg inp) (Get_msg_args inp)) (exec_stderr (Get_msg inp) (Get_msg_args inp)))
          (gt_Record inp = []) w of
         (Inl e, w') \<Rightarrow> ((result, Some e), w')
       | (Inr lines, w') \<Rightarrow>
           ((result\<lparr>gtr_Output := Join (Apply (gt_HeadTail inp) lines ovn_DefaultMaxLines) [newline]\<rparr>,
             None), w'))))))"

definition ListLogicalFlows_msg :: string where
  "ListLogicalFlows_msg = ''failed to list logical flows from pod %s/%s''"

definition ListLogicalFlows ::
  "compiler \<Rightarrow> 'w ovn_MCPServer \<Rightarrow> Context \<Rightarrow> LogicalFlowListParams \<Rightarrow> 'w \<Rightarrow>
   LogicalFlowListResult handler_ret \<times> 'w" where
  "ListLogicalFlows compile s ctx inp w =
     (let result = \<lparr>lfr_Datapath = lf_Datapath inp, lfr_Flows = []\<rparr>;
          as = [lf_Namespace inp, lf_Name inp];
          cmdArgs = [''ovn-sbctl'', ''lflow-list''] @
            (if lf_Datapath inp \<noteq> [] then [lf_Datapath inp] else []) in
      case (if lf_Datapath inp \<noteq> [] then validateDatapath (lf_Datapath inp) else ok) of
        Some e \<Rightarrow> ((result, Some e), w)
      | None \<Rightarrow>
      (case ExecuteWithMatch compile (lf_Pattern inp)
          (exec_lines (ovn_runPodExecCommand s ctx (lf_Namespace inp) (lf_Name inp) [] cmdArgs)
            (exec_failed ListLogicalFlows_msg as) (exec_stderr ListLogicalFlows_msg as)) True w of
         (Inl e, w') \<Rightarrow> ((result, Some e), w')
       | (Inr lines, w') \<Rightarrow>
           ((result\<lparr>lfr_Flows := Apply (lf_HeadTail inp) lines ovn_DefaultMaxLines\<rparr>, None), w')))"

definition Trace_msg :: string where
  "Trace_msg = ''failed to trace packet on pod %s/%s''"

text \<open>The switch on the mode has no default case: a mode outside the four adds no flag.\<close>

definition Trace_mode :: "string \<Rightarrow> strs" where
  "Trace_mode mode =
     (if mode = TraceModeSummary then [''--summary'']
      else if mode = TraceModeMinimal then [''--minimal'']
      else if mode = TraceModeDetailed \<or> mode = [] then [''--detailed'']
      else [])"

definition Trace ::
  "compiler \<Rightarrow> 'w ovn_MCPServer \<Rightarrow> Context \<Rightarrow> OVNTraceParams \<Rightarrow> 'w \<Rightarrow> OVNTraceResult handler_ret \<times> 'w" where
  "Trace compile s ctx inp w =
     (let result = \<lparr>trr_Datapath = tr_Datapath inp, trr_Microflow = tr_Microflow inp, trr_Output = []\<rparr>;
          as = [tr_Namespace inp, tr_Name inp];
          cmdArgs = [''ovn-trace''] @ Trace_mode (tr_Mode inp) @ [tr_Datapath inp, tr_Microflow inp] in
      case validateDatapath (tr_Datapath inp) of
        Some e \<Rightarrow> ((result, Some e), w)
      | None \<Rightarrow>
      (case validateMicroflow (tr_Microflow inp) of
        Some e \<Rightarrow> ((result, Some e), w)
      | None \<Rightarrow>
      (case ExecuteWithMatch compile (tr_Pattern inp)
          (exec_lines (ovn_runPodExecCommand s ctx (tr_Namespace inp) (tr_Name inp) [] cmdArgs)
            (exec_failed Trace_msg as) (exec_stderr Trace_msg as)) True w of
         (Inl e, w') \<Rightarrow> ((result, Some e), w')
       | (Inr lines, w') \<Rightarrow>
           ((result\<lparr>trr_Output := Join (Apply (tr_HeadTail inp) lines ovn_DefaultMaxLines) [newline]\<rparr>,
             None), w'))))"

section \<open>What the validators accept\<close>

lemma validateDatabase_ok [go_valid]: "validateDatabase db = ok \<longleftrightarrow> db \<in> {''nbdb'', ''sbdb''}"
  by (simp add: validateDatabase_def NorthboundDB_def SouthboundDB_def)

lemma ovn_validators_ok [go_valid]:
  "validateRecordName v = ok \<longleftrightarrow> v \<noteq> [] \<and> plain v"
  "validateDatapath v = ok \<longleftrightarrow> v \<noteq> [] \<and> plain v"
  "validateMicroflow v = ok \<longleftrightarrow> v \<noteq> [] \<and> no_meta ShellMetaCharactersTypeAllowBracketsAllowAmp v"
  "validateColumnSpec v = ok \<longleftrightarrow> plain v"
  unfolding validateRecordName_def validateDatapath_def validateMicroflow_def validateColumnSpec_def
  by (auto simp: ValidateSafeString_ok known_type_def no_meta_def list_all_iff)

section \<open>The commands the OVN tools may run\<close>

definition ovn_get_command :: "string \<Rightarrow> string \<Rightarrow> string \<Rightarrow> string \<Rightarrow> strs" where
  "ovn_get_command db columns table rec = [if db = ''sbdb'' then ''ovn-sbctl'' else ''ovn-nbctl''] @
     (if columns = [] then [] else [''--columns='' @ columns]) @ [''list'', table] @
     (if rec = [] then [] else [rec])"

definition ovn_readonly :: "strs \<Rightarrow> bool" where
  "ovn_readonly cmd \<longleftrightarrow>
     cmd \<in> {[''ovn-nbctl'', ''show''], [''ovn-sbctl'', ''show''], [''ovn-sbctl'', ''lflow-list'']} \<or>
     (\<exists>db c t r. cmd = ovn_get_command db c t r \<and> plain c \<and> plain r \<and> ValidateOVNTableName t = ok) \<or>
     (\<exists>d. d \<noteq> [] \<and> plain d \<and> cmd = [''ovn-sbctl'', ''lflow-list'', d]) \<or>
     (\<exists>m d f. set m \<subseteq> {''--summary'', ''--minimal'', ''--detailed''} \<and> d \<noteq> [] \<and> plain d \<and> f \<noteq> [] \<and>
        no_meta ShellMetaCharactersTypeAllowBracketsAllowAmp f \<and> cmd = [''ovn-trace''] @ m @ [d, f])"

definition ovn_call :: "string \<Rightarrow> string \<Rightarrow> pod_call \<Rightarrow> bool" where
  "ovn_call ns name c \<longleftrightarrow> pc_namespace c = ns \<and> pc_name c = name \<and> pc_container c = [] \<and>
     ovn_readonly (pc_command c)"

lemma ovn_run_call:
  "ovn_readonly cmd \<Longrightarrow>
   calls (pod_step run) (ovn_call ns name) w (snd (run ctx ns name [] cmd w))"
  by (rule calls_pod_one) (simp add: ovn_call_def)

lemma Get_command:
  "Get_cmdArgs i = ovn_get_command (gt_Database i) (gt_Columns i) (gt_Table i) (gt_Record i)"
  by (simp add: ovn_get_command_def getDBCommand_def Get_cmdArgs_def SouthboundDB_def Let_def)

lemma Trace_mode_flags: "set (Trace_mode m) \<subseteq> {''--summary'', ''--minimal'', ''--detailed''}"
  by (auto simp: Trace_mode_def)

lemma Show_readonly: "ovn_readonly [getDBCommand db, ''show'']"
  by (simp add: ovn_readonly_def getDBCommand_def)

lemma Get_readonly:
  assumes "ValidateOVNTableName t = ok" "validateColumnSpec c = ok"
    "(if r = [] then ok else validateRecordName r) = ok"
  shows "ovn_readonly (ovn_get_command db c t r)"
proof -
  have "plain c" "plain r" using assms by (auto simp: go_valid split: if_splits)
  then show ?thesis using assms(1) unfolding ovn_readonly_def by blast
qed

lemma ListLogicalFlows_readonly:
  "(if d \<noteq> [] then validateDatapath d else ok) = ok \<Longrightarrow>
   ovn_readonly ([''ovn-sbctl'', ''lflow-list''] @ (if d \<noteq> [] then [d] else []))"
  by (auto simp: ovn_readonly_def go_valid split: if_splits)

lemma Trace_readonly:
  "validateDatapath d = ok \<Longrightarrow> validateMicroflow f = ok \<Longrightarrow>
   ovn_readonly ([''ovn-trace''] @ Trace_mode m @ [d, f])"
  using Trace_mode_flags [of m] unfolding ovn_readonly_def go_valid by blast

section \<open>Properties\<close>

lemma ovn_handler_calls:
  "calls (pod_step (ovn_runPodExecCommand s)) (ovn_call (sh_Namespace a) (sh_Name a)) w
     (snd (Show s ctx a w))"
  "calls (pod_step (ovn_runPodExecCommand s)) (ovn_call (gt_Namespace g) (gt_Name g)) w
     (snd (Get compile s ctx g w))"
  "calls (pod_step (ovn_runPodExecCommand s)) (ovn_call (lf_Namespace l) (lf_Name l)) w
     (snd (ListLogicalFlows compile s ctx l w))"
  "calls (pod_step (ovn_runPodExecCommand s)) (ovn_call (tr_Namespace t) (tr_Name t)) w
     (snd (Trace compile s ctx t w))"
  unfolding Show_def Get_def ListLogicalFlows_def Trace_def Let_def Get_command
  by (intro calls_intros ovn_run_call Show_readonly Get_readonly ListLogicalFlows_readonly
      Trace_readonly; assumption)+

text \<open>Claim C7: whatever a client sends, each OVN tool runs only the read-only commands \<^verbatim>\<open>show\<close>,
  \<^verbatim>\<open>list\<close> on a valid table, \<^verbatim>\<open>lflow-list\<close> and \<^verbatim>\<open>ovn-trace\<close>, on the pod the client named, with every
  argument free of the shell metacharacters its validator excludes.\<close>

theorem ovn_tools_read_only:
  "calls (pod_step (ovn_runPodExecCommand s)) (ovn_call (sh_Namespace a) (sh_Name a)) w
     (snd (Show s ctx a w)) \<and>
   calls (pod_step (ovn_runPodExecCommand s)) (ovn_call (gt_Namespace g) (gt_Name g)) w
     (snd (Get compile s ctx g w)) \<and>
   calls (pod_step (ovn_runPodExecCommand s)) (ovn_call (lf_Namespace l) (lf_Name l)) w
     (snd (ListLogicalFlows compile s ctx l w)) \<and>
   calls (pod_step (ovn_runPodExecCommand s)) (ovn_call (tr_Namespace t) (tr_Name t)) w
     (snd (Trace compile s ctx t w))"
  by (intro conjI ovn_handler_calls)

text \<open>Claim C28: \<^verbatim>\<open>ovn-get\<close> succeeds exactly when database, table, columns and record are valid, the
  pattern compiles and is given only without a record, and the \<^verbatim>\<open>list\<close> command for exactly those
  arguments succeeds with empty standard error; the output is then the matching non-blank lines,
  cut by head and tail.\<close>

theorem Get_ok_iff:
  "Get compile s ctx i w = ((r, None), w') \<longleftrightarrow>
     gt_Database i \<in> {''nbdb'', ''sbdb''} \<and> ValidateOVNTableName (gt_Table i) = ok \<and>
     plain (gt_Columns i) \<and> plain (gt_Record i) \<and>
     pattern_ok compile (gt_Pattern i) \<and> (gt_Record i = [] \<or> Pattern (gt_Pattern i) = []) \<and>
     (\<exists>out. ovn_runPodExecCommand s ctx (gt_Namespace i) (gt_Name i) []
          (ovn_get_command (gt_Database i) (gt_Columns i) (gt_Table i) (gt_Record i)) w = (Inr (out, []), w') \<and>
        r = \<lparr>gtr_Database = gt_Database i, gtr_Table = gt_Table i, gtr_Record = gt_Record i,
             gtr_Output = Join (Apply (gt_HeadTail i)
               (filter (output_line compile (gt_Pattern i)) (Split newline out)) 100) [newline]\<rparr>)"
  unfolding Get_def Let_def guard_handler_ok handler_case_ok matched_exec_mode_iff Get_command
    validateDatabase_ok ovn_validators_ok ovn_DefaultMaxLines_def
  by (auto simp: ovn_validators_ok split: if_splits)

text \<open>\<^verbatim>\<open>ovn-trace\<close> succeeds exactly when the datapath and the microflow are valid, the
  pattern compiles and the command succeeds; an empty mode means \<^verbatim>\<open>--detailed\<close>, and a mode outside
  the documented three is not rejected but runs the command with no mode flag.\<close>

theorem Trace_ok_iff:
  "Trace compile s ctx i w = ((r, None), w') \<longleftrightarrow>
     validateDatapath (tr_Datapath i) = ok \<and> validateMicroflow (tr_Microflow i) = ok \<and>
     pattern_ok compile (tr_Pattern i) \<and>
     (\<exists>out. ovn_runPodExecCommand s ctx (tr_Namespace i) (tr_Name i) []
          ([''ovn-trace''] @
           (if tr_Mode i \<in> {'''', ''detailed''} then [''--detailed'']
            else if tr_Mode i \<in> {''summary'', ''minimal''} then [''--'' @ tr_Mode i] else []) @
           [tr_Datapath i, tr_Microflow i]) w = (Inr (out, []), w') \<and>
        r = \<lparr>trr_Datapath = tr_Datapath i, trr_Microflow = tr_Microflow i,
             trr_Output = Join (Apply (tr_HeadTail i)
               (filter (output_line compile (tr_Pattern i)) (Split newline out)) 100) [newline]\<rparr>)"
proof -
  have m: "Trace_mode m = (if m \<in> {'''', ''detailed''} then [''--detailed'']
      else if m \<in> {''summary'', ''minimal''} then [''--'' @ m] else [])" for m
    by (simp add: Trace_mode_def TraceModeSummary_def TraceModeMinimal_def TraceModeDetailed_def)
  show ?thesis
    unfolding Trace_def Let_def guard_handler_ok handler_case_ok matched_exec_iff m ovn_DefaultMaxLines_def
    by auto
qed

end
