(* ===== verification/CommandBuilder.thy ===== *)
theory CommandBuilder
  imports GoStrings
begin

text \<open>
  \<^verbatim>\<open>pkg/utils/commandbuilder/command_builder.go\<close>: the fluent builder of argument vectors. The builder is a
  record, each method returns the updated builder, and the two \<^verbatim>\<open>slices.Clone\<close> calls of the source
  (on the base command and on the result) make the value semantics of the model exact: no caller
  shares the builder's backing array.
\<close>

record CommandBuilder =
  args :: strs

definition NewCommand :: "strs \<Rightarrow> CommandBuilder" where
  "NewCommand baseCmd = \<lparr>args = baseCmd\<rparr>"

definition Add :: "CommandBuilder \<Rightarrow> strs \<Rightarrow> CommandBuilder" where
  "Add cb as = cb\<lparr>args := args cb @ as\<rparr>"

definition AddIf :: "CommandBuilder \<Rightarrow> bool \<Rightarrow> strs \<Rightarrow> CommandBuilder" where
  "AddIf cb condition as = (if condition then cb\<lparr>args := args cb @ as\<rparr> else cb)"

definition AddIfNotEmpty :: "CommandBuilder \<Rightarrow> string \<Rightarrow> strs \<Rightarrow> CommandBuilder" where
  "AddIfNotEmpty cb value as = (if value \<noteq> [] then cb\<lparr>args := args cb @ as\<rparr> else cb)"

definition Build :: "CommandBuilder \<Rightarrow> strs" where
  "Build cb = args cb"

text \<open>Operations only append: the vector built so far is a prefix of what is built later.\<close>

lemma Build_New [simp]: "Build (NewCommand bs) = bs"
  by (simp add: Build_def NewCommand_def)

lemma Build_Add [simp]: "Build (Add cb as) = Build cb @ as"
  by (simp add: Build_def Add_def)

lemma Build_AddIf [simp]: "Build (AddIf cb c as) = Build cb @ (if c then as else [])"
  by (simp add: Build_def AddIf_def)

lemma Build_AddIfNotEmpty [simp]:
  "Build (AddIfNotEmpty cb v as) = Build cb @ (if v \<noteq> [] then as else [])"
  by (simp add: Build_def AddIfNotEmpty_def)

end
