(* ===== verification/Kernel.thy ===== *)
theory Kernel
  imports Exec CommandBuilder
begin

text \<open>
  The kernel tools, \<^verbatim>\<open>pkg/kernel\<close>: \<^verbatim>\<open>get-conntrack\<close>, \<^verbatim>\<open>get-iptables\<close>, \<^verbatim>\<open>get-nft\<close> and \<^verbatim>\<open>get-ip\<close>. Each handler
  first runs the utility with \<^verbatim>\<open>-V\<close> in a debug pod, then validates its input, then runs the command
  it built. The current time is the argument \<open>now\<close> of every handler, because a client may set a
  timeout. \<^verbatim>\<open>validateIPCommand\<close> iterates over a Go map, whose order is unspecified: the order is an
  argument, and the result is proved not to depend on it.
\<close>

section \<open>Types\<close>

record CommonParams =
  Node :: string
  Namespace :: string
  cp_HeadTail :: HeadTailParams
  cp_Timeout :: TimeoutParams

record ListConntrackParams = CommonParams +
  ct_Command :: string
  ct_FilterParameters :: string

record ListIPTablesParams = CommonParams +
  it_Table :: string
  it_Command :: string
  it_FilterParameters :: string

record ListNFTParams = CommonParams +
  nf_Command :: string
  nf_AddressFamilies :: string

record ListIPParams = CommonParams +
  lip_Options :: string
  lip_Command :: string
  lip_FilterParameters :: string

record Result =
  Data :: string

definition Result_zero :: Result where
  "Result_zero = \<lparr>Data = []\<rparr>"

record kernel_Config =
  kc_Image :: string

record 'w kernel_MCPServer =
  runDebugNodeCommand :: "'w node_exec"
  cfg :: kernel_Config

definition kernel_NewMCPServer :: "'w node_exec option \<Rightarrow> kernel_Config \<Rightarrow> 'w kernel_MCPServer result" where
  "kernel_NewMCPServer run c = (case run of
       None \<Rightarrow> Inl (Errorf ''function to run debug node command is nil'' [])
     | Some r \<Rightarrow> Inr \<lparr>runDebugNodeCommand = r, cfg = c\<rparr>)"

definition DefaultMaxOutputLines :: int where
  "DefaultMaxOutputLines = 100"

section \<open>Output filters\<close>

definition warning_line :: "string \<Rightarrow> bool" where
  "warning_line line \<longleftrightarrow> Contains line ''Warning'' \<or> Contains line ''warning'' \<or> Contains line ''WARNING''"

definition filterWarnings :: "string \<Rightarrow> string" where
  "filterWarnings output =
     (if output = [] then output
      else Join (filter (\<lambda>line. \<not> Contains line ''Warning'' \<and> \<not> Contains line ''warning'' \<and>
        \<not> Contains line ''WARNING'') (Split newline output)) [newline])"

definition digit_rx :: rx where
  "digit_rx = RPlus (RCls [(CHR ''0'', CHR ''9'')])"

definition ConntrackSummaryPattern :: pat where
  "ConntrackSummaryPattern = Pat True
     (RSeq (RLit ''conntrack v'') (RSeq digit_rx (RSeq (RLit ''.'') (RSeq digit_rx (RSeq (RLit ''.'')
      (RSeq digit_rx (RSeq (RLit '' (conntrack-tools): '') (RSeq digit_rx
      (RSeq (RLit '' flow entries have been shown'') (ROpt (RLit ''.'')))))))))))
     True"

fun splitSummary_loop :: "strs \<Rightarrow> strs \<Rightarrow> strs \<Rightarrow> strs \<times> strs" where
  "splitSummary_loop [] summaryLines remainingLines = (summaryLines, remainingLines)"
| "splitSummary_loop (line # lines) summaryLines remainingLines =
     (if MatchString ConntrackSummaryPattern line
      then splitSummary_loop lines (summaryLines @ [line]) remainingLines
      else splitSummary_loop lines summaryLines (remainingLines @ [line]))"

definition splitConntrackSummary :: "string \<Rightarrow> string \<times> string" where
  "splitConntrackSummary output =
     (if output = [] then ([], [])
      else (case splitSummary_loop (Split newline output) [] [] of
        (summaryLines, remainingLines) \<Rightarrow> (Join summaryLines [newline], Join remainingLines [newline])))"

section \<open>Running commands\<close>

definition wrap :: "string \<Rightarrow> err \<Rightarrow> err" where
  "wrap msg e = Errorf (msg @ '': %w'') [FErr e]"

definition executeCommand ::
  "'w kernel_MCPServer \<Rightarrow> Context \<Rightarrow> string \<Rightarrow> string \<Rightarrow> strs \<Rightarrow> ('w, string \<times> string) effect" where
  "executeCommand s ctx namespace node command w =
     (case runDebugNodeCommand s ctx namespace node (kc_Image (cfg s)) command [] [] 0 w of
        (Inl e, w') \<Rightarrow> (Inl (wrap ''error while establishing tty connection to the node'' e), w')
      | (Inr (stdout, stderr), w') \<Rightarrow>
          (let stderr = (if stderr \<noteq> [] then filterWarnings stderr else stderr);
               stdout = filterWarnings stdout in
           (Inr (stdout, stderr), w')))"

definition utilityExists_msg :: string where
  "utilityExists_msg = ''error while checking availability of the utility %s: %w''"

definition utilityMissing_msg :: string where
  "utilityMissing_msg = ''utility %s is unavailable in configured image: %s''"

definition utilityExists ::
  "'w kernel_MCPServer \<Rightarrow> Context \<Rightarrow> string \<Rightarrow> string \<Rightarrow> string \<Rightarrow> 'w \<Rightarrow> validation \<times> 'w" where
  "utilityExists s ctx namespace node util w =
     (let cmd = NewCommand [util, ''-V''] in
      case runDebugNodeCommand s ctx namespace node (kc_Image (cfg s)) (Build cmd) [] [] 0 w of
        (Inl e, w') \<Rightarrow> (Some (Errorf utilityExists_msg [FStr util, FErr e]), w')
      | (Inr (_, stderr), w') \<Rightarrow>
          (let stderr = TrimSpace (filterWarnings stderr) in
           if stderr \<noteq> [] then (Some (Errorf utilityMissing_msg [FStr util, FStr stderr]), w')
           else (ok, w')))"

text \<open>The last lines every handler repeats: strip, cut, join.\<close>

definition render :: "HeadTailParams \<Rightarrow> string \<Rightarrow> string" where
  "render ht stdout =
     Join (Apply ht (StripEmptyLines (Split newline stdout)) DefaultMaxOutputLines) [newline]"

definition run_msg :: string where
  "run_msg = ''error while running command: %s''"

section \<open>conntrack\<close>

definition conntrackSystemFile :: string where
  "conntrackSystemFile = ''/proc/net/nf_conntrack''"

definition noConntrack_msg :: string where
  "noConntrack_msg = ''configured image does not have conntrack utility, only -L/--dump is supported with limited filters''"

definition validateConntrackCommand :: "string \<Rightarrow> bool \<Rightarrow> validation" where
  "validateConntrackCommand command cliAvailable =
     (if command = [] then ok
      else if \<not> cliAvailable \<and> (TrimSpace command \<noteq> ''-L'' \<and> TrimSpace command \<noteq> ''--dump'') then
        Some (Errorf noConntrack_msg [])
      else if Atoi command \<noteq> None then Some (Errorf ''invalid command: %s'' [FStr command])
      else if TrimSpace command \<notin> {''-L'', ''-S'', ''-C'', ''--dump'', ''--stats'', ''--count''} then
        Some (Errorf ''invalid command: %s'' [FStr command])
      else ok)"

definition conntrackCLI_cmd :: "string \<Rightarrow> string \<Rightarrow> CommandBuilder" where
  "conntrackCLI_cmd command filterParameters =
     (let cmd = NewCommand [''conntrack''] in
      if command = ''-L'' \<or> command = ''--dump'' then Add (Add cmd [command]) (Fields filterParameters)
      else if command = ''-S'' \<or> command = ''--stats'' then Add cmd [command]
      else if command = ''-C'' \<or> command = ''--count'' then Add cmd [command]
      else Add (Add cmd [''-L'']) (Fields filterParameters))"

definition getConntrackUsingCLI ::
  "'w kernel_MCPServer \<Rightarrow> Context \<Rightarrow> string \<Rightarrow> string \<Rightarrow> string \<Rightarrow> string \<Rightarrow> ('w, string \<times> string) effect" where
  "getConntrackUsingCLI s ctx namespace node command filterParameters =
     executeCommand s ctx namespace node (Build (conntrackCLI_cmd command filterParameters))"

definition getConntrackFromFile ::
  "'w kernel_MCPServer \<Rightarrow> Context \<Rightarrow> string \<Rightarrow> string \<Rightarrow> ('w, string \<times> string) effect" where
  "getConntrackFromFile s ctx namespace node =
     (let cmd = Add (NewCommand [''cat'']) [conntrackSystemFile] in
      executeCommand s ctx namespace node (Build cmd))"

definition conntrack_msg :: string where
  "conntrack_msg = ''error while getting list of conntrack entries''"

definition conntrack_out :: "string \<Rightarrow> string \<Rightarrow> string" where
  "conntrack_out stdout summary =
     (if summary \<noteq> [] then stdout @ [newline] @ '' -- conntrack summary --'' @ [newline] @ summary
      else stdout)"

definition GetConntrack ::
  "int \<Rightarrow> 'w kernel_MCPServer \<Rightarrow> Context \<Rightarrow> ListConntrackParams \<Rightarrow> 'w \<Rightarrow> Result handler_ret \<times> 'w" where
  "GetConntrack now s ctx0 inp w0 =
     (let ctx = fst (WithTimeout now (cp_Timeout inp) ctx0) in
      case utilityExists s ctx (Namespace inp) (Node inp) ''conntrack'' w0 of (err, w) \<Rightarrow>
      (let cliAvailable = (err = None) in
      case validateConntrackCommand (ct_Command inp) cliAvailable of
        Some e \<Rightarrow> ((Result_zero, Some (wrap conntrack_msg e)), w)
      | None \<Rightarrow>
      (case ValidateSafeString (ct_FilterParameters inp) ''filter parameters'' True
          ShellMetaCharactersTypeDefault of
        Some e \<Rightarrow> ((Result_zero, Some (wrap conntrack_msg e)), w)
      | None \<Rightarrow>
      (case (if \<not> cliAvailable then getConntrackFromFile s ctx (Namespace inp) (Node inp) w
             else getConntrackUsingCLI s ctx (Namespace inp) (Node inp) (TrimSpace (ct_Command inp))
               (ct_FilterParameters inp) w) of
        (Inl e, w') \<Rightarrow> ((Result_zero, Some (wrap conntrack_msg e)), w')
      | (Inr (stdout, stderr), w') \<Rightarrow>
          (let (summary, remainingStderr) =
             (if stderr \<noteq> [] then splitConntrackSummary stderr else ([], [])) in
           if remainingStderr \<noteq> [] then
             ((Result_zero, Some (Errorf run_msg [FStr remainingStderr])), w')
           else ((\<lparr>Data = conntrack_out (render (cp_HeadTail inp) stdout) summary\<rparr>, None), w'))))))"

section \<open>iptables\<close>

definition iptablesCommand :: "string \<Rightarrow> string" where
  "iptablesCommand filterParameters =
     (if list_ex (\<lambda>item. item = ''--ipv6'' \<or> Contains item ''-'' \<and> Contains item ''6'')
        (Split (CHR '' '') filterParameters)
      then ''ip6tables'' else ''iptables'')"

definition validateTableName :: "string \<Rightarrow> validation" where
  "validateTableName table =
     (if table = [] then ok
      else if Atoi table \<noteq> None then Some (Errorf ''invalid table name: %s'' [FStr table])
      else if TrimSpace table \<notin> {''filter'', ''nat'', ''mangle'', ''raw'', ''security''} then
        Some (Errorf ''invalid table name: %s'' [FStr table])
      else ok)"

definition validateIptablesCommand :: "string \<Rightarrow> validation" where
  "validateIptablesCommand command =
     (if command = [] then ok
      else if Atoi command \<noteq> None then Some (Errorf ''invalid iptables command: %s'' [FStr command])
      else if TrimSpace command \<notin> {''-L'', ''-S'', ''--list'', ''--list-rules''} then
        Some (Errorf ''invalid iptables command: %s'' [FStr command])
      else ok)"

definition iptables_cmd :: "string \<Rightarrow> string \<Rightarrow> string \<Rightarrow> CommandBuilder" where
  "iptables_cmd table command filterParameters =
     (let cmd = NewCommand [iptablesCommand filterParameters];
          cmd = AddIf cmd (table = []) [''-t'', ''filter''];
          cmd = AddIfNotEmpty cmd table [''-t'', table];
          cmd = AddIf cmd (command = []) [''-L''];
          cmd = AddIfNotEmpty cmd command [command] in
      AddIf cmd (filterParameters \<noteq> [] \<and> command \<noteq> ''-S'' \<and> command \<noteq> ''--list-rules'')
        (Fields filterParameters))"

definition iptables_msg :: string where
  "iptables_msg = ''error while getting list of iptables rules''"

definition iptablesMissing_msg :: string where
  "iptablesMissing_msg = ''error while getting list of iptables rules: failed to verify iptables utility availability in configured image''"

definition GetIptables ::
  "int \<Rightarrow> 'w kernel_MCPServer \<Rightarrow> Context \<Rightarrow> ListIPTablesParams \<Rightarrow> 'w \<Rightarrow> Result handler_ret \<times> 'w" where
  "GetIptables now s ctx0 inp w0 =
     (let ctx = fst (WithTimeout now (cp_Timeout inp) ctx0) in
      case utilityExists s ctx (Namespace inp) (Node inp) ''iptables'' w0 of (err, w) \<Rightarrow>
      (case err of
        Some e \<Rightarrow> ((Result_zero, Some (wrap iptablesMissing_msg e)), w)
      | None \<Rightarrow>
      (case validateTableName (it_Table inp) of
        Some e \<Rightarrow> ((Result_zero, Some (wrap iptables_msg e)), w)
      | None \<Rightarrow>
      (case validateIptablesCommand (it_Command inp) of
        Some e \<Rightarrow> ((Result_zero, Some (wrap iptables_msg e)), w)
      | None \<Rightarrow>
      (case ValidateSafeString (it_FilterParameters inp) ''filter parameters'' True
          ShellMetaCharactersTypeDefault of
        Some e \<Rightarrow> ((Result_zero, Some (wrap iptables_msg e)), w)
      | None \<Rightarrow>
      (case executeCommand s ctx (Namespace inp) (Node inp)
          (Build (iptables_cmd (TrimSpace (it_Table inp)) (TrimSpace (it_Command inp))
            (it_FilterParameters inp))) w of
        (Inl e, w') \<Rightarrow> ((Result_zero, Some (wrap iptables_msg e)), w')
      | (Inr (stdout, stderr), w') \<Rightarrow>
          if stderr \<noteq> [] then ((Result_zero, Some (Errorf run_msg [FStr stderr])), w')
          else ((\<lparr>Data = render (cp_HeadTail inp) stdout\<rparr>, None), w')))))))"

section \<open>nft\<close>

definition validateNFTCommand :: "string \<Rightarrow> validation" where
  "validateNFTCommand command =
     (if Atoi command \<noteq> None then Some (Errorf ''invalid nft command: %s'' [FStr command])
      else if TrimSpace command \<notin> {''list ruleset'', ''list tables'', ''list chains'', ''list sets'',
          ''list maps'', ''list flowtables''} then
        Some (Errorf ''invalid nft command: %s'' [FStr command])
      else ok)"

definition validateNFTAddressFamily :: "string \<Rightarrow> validation" where
  "validateNFTAddressFamily addrFamily =
     (if addrFamily = [] then ok
      else if Atoi addrFamily \<noteq> None then Some (Errorf ''invalid nft address family: %s'' [FStr addrFamily])
      else if TrimSpace addrFamily \<notin> {''ip'', ''ip6'', ''inet'', ''arp'', ''bridge'', ''netdev''} then
        Some (Errorf ''invalid nft address family: %s'' [FStr addrFamily])
      else ok)"

definition nft_cmd :: "string \<Rightarrow> string \<Rightarrow> CommandBuilder" where
  "nft_cmd command addressFamilies =
     (let cmd = NewCommand [''nft''];
          cmd = Add cmd (Fields command) in
      AddIf cmd (addressFamilies \<noteq> []) [addressFamilies])"

definition nft_msg :: string where
  "nft_msg = ''error while getting nft data''"

definition nftMissing_msg :: string where
  "nftMissing_msg = ''error while getting nft data: failed to verify nft utility availability in configured image''"

definition GetNFT ::
  "int \<Rightarrow> 'w kernel_MCPServer \<Rightarrow> Context \<Rightarrow> ListNFTParams \<Rightarrow> 'w \<Rightarrow> Result handler_ret \<times> 'w" where
  "GetNFT now s ctx0 inp w0 =
     (let ctx = fst (WithTimeout now (cp_Timeout inp) ctx0) in
      case utilityExists s ctx (Namespace inp) (Node inp) ''nft'' w0 of (err, w) \<Rightarrow>
      (case err of
        Some e \<Rightarrow> ((Result_zero, Some (wrap nftMissing_msg e)), w)
      | None \<Rightarrow>
      (case validateNFTCommand (nf_Command inp) of
        Some e \<Rightarrow> ((Result_zero, Some (wrap nft_msg e)), w)
      | None \<Rightarrow>
      (case ValidateSafeString (nf_AddressFamilies inp) ''address families'' True
          ShellMetaCharactersTypeDefault of
        Some e \<Rightarrow> ((Result_zero, Some (wrap nft_msg e)), w)
      | None \<Rightarrow>
      (case validateNFTAddressFamily (nf_AddressFamilies inp) of
        Some e \<Rightarrow> ((Result_zero, Some (wrap nft_msg e)), w)
      | None \<Rightarrow>
      (case executeCommand s ctx (Namespace inp) (Node inp)
          (Build (nft_cmd (TrimSpace (nf_Command inp)) (TrimSpace (nf_AddressFamilies inp)))) w of
        (Inl e, w') \<Rightarrow> ((Result_zero, Some (wrap nft_msg e)), w')
      | (Inr (stdout, stderr), w') \<Rightarrow>
          if stderr \<noteq> [] then ((Result_zero, Some (Errorf run_msg [FStr stderr])), w')
          else ((\<lparr>Data = render (cp_HeadTail inp) stdout\<rparr>, None), w')))))))"

section \<open>ip\<close>

definition validIPCommand :: strs where
  "validIPCommand = [''address'', ''link'', ''neighbour'', ''netns'', ''route'', ''rule'', ''vrf'',
     ''xfrm state'', ''xfrm policy'']"

text \<open>The inner loop: every field of the pattern is extended from the word at its position.\<close>

fun ip_allMatch :: "strs \<Rightarrow> strs \<Rightarrow> bool" where
  "ip_allMatch [] splitCommand = True"
| "ip_allMatch (cmdField # flds) [] = False"
| "ip_allMatch (cmdField # flds) (word # splitCommand) =
     (HasPrefix cmdField word \<and> ip_allMatch flds splitCommand)"

definition ip_matches :: "strs \<Rightarrow> string \<Rightarrow> bool" where
  "ip_matches splitCommand command =
     (let commandFields = Fields command in
      if length commandFields = 1 then
        HasPrefix command (splitCommand ! 0) \<and> HasPrefix ''show'' (splitCommand ! 1)
      else if length splitCommand \<ge> length commandFields + 1 then
        ip_allMatch commandFields splitCommand \<and> (command = ''xfrm state'' \<or> command = ''xfrm policy'') \<and>
        HasPrefix ''list'' (splitCommand ! length commandFields)
      else False)"

fun ip_valid_loop :: "strs \<Rightarrow> strs \<Rightarrow> bool" where
  "ip_valid_loop splitCommand [] = False"
| "ip_valid_loop splitCommand (command # commands) =
     (if ip_matches splitCommand command then True else ip_valid_loop splitCommand commands)"

definition validateIPCommand :: "strs \<Rightarrow> string \<Rightarrow> validation" where
  "validateIPCommand order ipCommand =
     (let e = Some (Errorf ''invalid ip command: %s'' [FStr ipCommand]);
          splitCommand = Fields (TrimSpace ipCommand) in
      if Atoi ipCommand \<noteq> None then e
      else if length splitCommand < 2 then e
      else if HasPrefix (splitCommand ! 0) ''l'' \<and> splitCommand ! 1 = ''s'' then e
      else if \<not> ip_valid_loop splitCommand order then e
      else ok)"

definition ip_cmd :: "string \<Rightarrow> string \<Rightarrow> string \<Rightarrow> CommandBuilder" where
  "ip_cmd options command filterParameters =
     (let cmd = NewCommand [''ip''];
          cmd = AddIfNotEmpty cmd options (Fields options);
          cmd = Add cmd (Fields command) in
      AddIfNotEmpty cmd filterParameters (Fields filterParameters))"

definition ip_msg :: string where
  "ip_msg = ''error while getting ip data''"

definition ipMissing_msg :: string where
  "ipMissing_msg = ''error while getting ip data: failed to verify ip utility availability in configured image''"

definition GetIPCommandOutput ::
  "strs \<Rightarrow> int \<Rightarrow> 'w kernel_MCPServer \<Rightarrow> Context \<Rightarrow> ListIPParams \<Rightarrow> 'w \<Rightarrow> Result handler_ret \<times> 'w" where
  "GetIPCommandOutput order now s ctx0 inp w0 =
     (let ctx = fst (WithTimeout now (cp_Timeout inp) ctx0) in
      case utilityExists s ctx (Namespace inp) (Node inp) ''ip'' w0 of (err, w) \<Rightarrow>
      (case err of
        Some e \<Rightarrow> ((Result_zero, Some (wrap ipMissing_msg e)), w)
      | None \<Rightarrow>
      (case validateIPCommand order (lip_Command inp) of
        Some e \<Rightarrow> ((Result_zero, Some (wrap ip_msg e)), w)
      | None \<Rightarrow>
      (case ValidateSafeString (lip_FilterParameters inp) ''filter parameters'' True
          ShellMetaCharactersTypeDefault of
        Some e \<Rightarrow> ((Result_zero, Some (wrap ip_msg e)), w)
      | None \<Rightarrow>
      (case ValidateSafeString (lip_Options inp) ''options'' True ShellMetaCharactersTypeDefault of
        Some e \<Rightarrow> ((Result_zero, Some (wrap ip_msg e)), w)
      | None \<Rightarrow>
      (case executeCommand s ctx (Namespace inp) (Node inp)
          (Build (ip_cmd (lip_Options inp) (lip_Command inp) (lip_FilterParameters inp))) w of
        (Inl e, w') \<Rightarrow> ((Result_zero, Some (wrap ip_msg e)), w')
      | (Inr (stdout, stderr), w') \<Rightarrow>
          if stderr \<noteq> [] then ((Result_zero, Some (Errorf run_msg [FStr stderr])), w')
          else ((\<lparr>Data = render (cp_HeadTail inp) stdout\<rparr>, None), w')))))))"

section \<open>What the validators accept\<close>

definition conntrack_actions :: "bool \<Rightarrow> string set" where
  "conntrack_actions cliAvailable = (if cliAvailable
     then {''-L'', ''-S'', ''-C'', ''--dump'', ''--stats'', ''--count''} else {''-L'', ''--dump''})"

definition iptables_tables :: "string set" where
  "iptables_tables = {''filter'', ''nat'', ''mangle'', ''raw'', ''security''}"

definition iptables_actions :: "string set" where
  "iptables_actions = {''-L'', ''-S'', ''--list'', ''--list-rules''}"

definition nft_actions :: "string set" where
  "nft_actions = {''list ruleset'', ''list tables'', ''list chains'', ''list sets'', ''list maps'',
     ''list flowtables''}"

definition nft_families :: "string set" where
  "nft_families = {''ip'', ''ip6'', ''inet'', ''arp'', ''bridge'', ''netdev''}"

lemmas kernel_words = conntrack_actions_def iptables_tables_def iptables_actions_def nft_actions_def
  nft_families_def

text \<open>The numeric check in front of each table lookup never decides: no allowed word is a number.\<close>

lemma TrimSpace_word_None:
  "TrimSpace s \<in> W \<Longrightarrow> \<forall>v \<in> W. list_ex (\<lambda>c. \<not> is_digit c \<and> c \<noteq> CHR ''-'' \<and> c \<noteq> CHR ''+'') v \<Longrightarrow>
   Atoi s = None"
  by (rule Atoi_trim_None) blast

lemma kernel_words_not_numbers:
  "TrimSpace s \<in> conntrack_actions True \<Longrightarrow> Atoi s = None"
  "TrimSpace s \<in> iptables_tables \<Longrightarrow> Atoi s = None"
  "TrimSpace s \<in> iptables_actions \<Longrightarrow> Atoi s = None"
  "TrimSpace s \<in> nft_actions \<Longrightarrow> Atoi s = None"
  "TrimSpace s \<in> nft_families \<Longrightarrow> Atoi s = None"
  by (erule TrimSpace_word_None; simp add: kernel_words is_digit_def)+

lemma kernel_validators_ok [go_valid]:
  "validateConntrackCommand c cli = ok \<longleftrightarrow> c = [] \<or> TrimSpace c \<in> conntrack_actions cli"
  "validateTableName c = ok \<longleftrightarrow> c = [] \<or> TrimSpace c \<in> iptables_tables"
  "validateIptablesCommand c = ok \<longleftrightarrow> c = [] \<or> TrimSpace c \<in> iptables_actions"
  "validateNFTCommand c = ok \<longleftrightarrow> TrimSpace c \<in> nft_actions"
  "validateNFTAddressFamily c = ok \<longleftrightarrow> c = [] \<or> TrimSpace c \<in> nft_families"
proof -
  have t: "conntrack_actions False \<subseteq> conntrack_actions True" by (auto simp: conntrack_actions_def)
  then have "TrimSpace c \<in> conntrack_actions cli \<Longrightarrow> Atoi c = None"
    using kernel_words_not_numbers(1) [of c] by (cases cli) auto
  then show "validateConntrackCommand c cli = ok \<longleftrightarrow> c = [] \<or> TrimSpace c \<in> conntrack_actions cli"
    by (auto simp: validateConntrackCommand_def conntrack_actions_def)
  show "validateTableName c = ok \<longleftrightarrow> c = [] \<or> TrimSpace c \<in> iptables_tables"
    using kernel_words_not_numbers(2) [of c]
    by (simp add: validateTableName_def iptables_tables_def [symmetric])
  show "validateIptablesCommand c = ok \<longleftrightarrow> c = [] \<or> TrimSpace c \<in> iptables_actions"
    using kernel_words_not_numbers(3) [of c]
    by (simp add: validateIptablesCommand_def iptables_actions_def [symmetric])
  show "validateNFTCommand c = ok \<longleftrightarrow> TrimSpace c \<in> nft_actions"
    using kernel_words_not_numbers(4) [of c]
    by (simp add: validateNFTCommand_def nft_actions_def [symmetric])
  show "validateNFTAddressFamily c = ok \<longleftrightarrow> c = [] \<or> TrimSpace c \<in> nft_families"
    using kernel_words_not_numbers(5) [of c]
    by (simp add: validateNFTAddressFamily_def nft_families_def [symmetric])
qed

section \<open>Output filters\<close>

lemma filterWarnings_eq:
  "filterWarnings out = Join (filter (\<lambda>l. \<not> warning_line l) (Split newline out)) [newline]"
  by (simp add: filterWarnings_def warning_line_def)

definition summary_line :: "string \<Rightarrow> bool" where
  "summary_line l \<longleftrightarrow> MatchString ConntrackSummaryPattern l"

lemma splitSummary_loop_eq:
  "splitSummary_loop ls ss rs = (ss @ filter summary_line ls, rs @ filter (\<lambda>l. \<not> summary_line l) ls)"
  by (induction ls arbitrary: ss rs) (simp_all add: summary_line_def)

lemma summary_line_Nil [simp]: "\<not> summary_line []"
  by code_simp

lemma Join_Nil_iff: "Join xs [c] = [] \<longleftrightarrow> xs = [] \<or> xs = [[]]"
  by (cases xs) (auto simp: Join_Cons)

definition only_summary :: "string \<Rightarrow> bool" where
  "only_summary er \<longleftrightarrow> filter (\<lambda>l. \<not> summary_line l) (Split newline er) \<in> {[], [[]]}"

definition summary_of :: "string \<Rightarrow> string" where
  "summary_of er = Join (filter summary_line (Split newline er)) [newline]"

lemma splitConntrackSummary_eq:
  "fst (splitConntrackSummary er) = summary_of er"
  "snd (splitConntrackSummary er) = [] \<longleftrightarrow> only_summary er"
  by (auto simp: splitConntrackSummary_def splitSummary_loop_eq summary_of_def only_summary_def Join_Nil_iff)

lemma only_summary_Nil [simp]: "only_summary []" "summary_of [] = []"
  by (simp_all add: only_summary_def summary_of_def)

section \<open>The ip command\<close>

definition ip_objects :: "string set" where
  "ip_objects = {''address'', ''link'', ''neighbour'', ''netns'', ''route'', ''rule'', ''vrf''}"

definition ip_read_only :: "strs \<Rightarrow> bool" where
  "ip_read_only ws \<longleftrightarrow>
     \<not> (2 \<le> length ws \<and> prefix ''l'' (ws ! 0) \<and> ws ! 1 = ''s'') \<and>
     (2 \<le> length ws \<and> (\<exists>ob \<in> ip_objects. prefix (ws ! 0) ob) \<and> prefix (ws ! 1) ''show'' \<or>
      3 \<le> length ws \<and> prefix (ws ! 0) ''xfrm'' \<and> (prefix (ws ! 1) ''state'' \<or> prefix (ws ! 1) ''policy'') \<and>
        prefix (ws ! 2) ''list'')"

lemma ip_valid_loop_iff: "ip_valid_loop ws cs \<longleftrightarrow> (\<exists>c \<in> set cs. ip_matches ws c)"
  by (induction cs) auto

lemma Fields_ip_words:
  "Fields ''address'' = [''address'']" "Fields ''link'' = [''link'']"
  "Fields ''neighbour'' = [''neighbour'']" "Fields ''netns'' = [''netns'']"
  "Fields ''route'' = [''route'']" "Fields ''rule'' = [''rule'']" "Fields ''vrf'' = [''vrf'']"
  "Fields ''xfrm state'' = [''xfrm'', ''state'']" "Fields ''xfrm policy'' = [''xfrm'', ''policy'']"
  by code_simp+

lemma ip_matches_words:
  assumes "2 \<le> length ws"
  shows "(\<exists>c \<in> set validIPCommand. ip_matches ws c) \<longleftrightarrow>
     (\<exists>ob \<in> ip_objects. prefix (ws ! 0) ob) \<and> prefix (ws ! 1) ''show'' \<or>
      3 \<le> length ws \<and> prefix (ws ! 0) ''xfrm'' \<and> (prefix (ws ! 1) ''state'' \<or> prefix (ws ! 1) ''policy'') \<and>
        prefix (ws ! 2) ''list''"
proof -
  obtain a b r where ws: "ws = a # b # r"
    using assms by (cases ws; cases "tl ws") auto
  have s: "ip_matches ws ob \<longleftrightarrow> prefix a ob \<and> prefix b ''show''" if "ob \<in> ip_objects" for ob
    using that by (auto simp: ip_objects_def ip_matches_def Fields_ip_words HasPrefix_iff ws)
  have x: "ip_matches ws ''xfrm state'' \<longleftrightarrow>
      3 \<le> length ws \<and> prefix a ''xfrm'' \<and> prefix b ''state'' \<and> prefix (ws ! 2) ''list''"
    "ip_matches ws ''xfrm policy'' \<longleftrightarrow>
      3 \<le> length ws \<and> prefix a ''xfrm'' \<and> prefix b ''policy'' \<and> prefix (ws ! 2) ''list''"
    by (auto simp: ip_matches_def Fields_ip_words HasPrefix_iff ws numeral_2_eq_2)
  have v: "set validIPCommand = ip_objects \<union> {''xfrm state'', ''xfrm policy''}"
    by (auto simp: validIPCommand_def ip_objects_def)
  have "(\<exists>c \<in> set validIPCommand. ip_matches ws c) \<longleftrightarrow>
      (\<exists>ob \<in> ip_objects. ip_matches ws ob) \<or> ip_matches ws ''xfrm state'' \<or> ip_matches ws ''xfrm policy''"
    unfolding v by blast
  then show ?thesis using s x by (auto simp: ws)
qed

lemma prefix_number_letter:
  assumes "t \<noteq> []" "prefix t ob" "\<not> is_digit (hd ob) \<and> hd ob \<noteq> CHR ''-'' \<and> hd ob \<noteq> CHR ''+''"
    "set t \<subseteq> set (TrimSpace s)"
  shows "Atoi s = None"
proof (rule Atoi_trim_None)
  have "hd t \<in> set (TrimSpace s)" "hd t = hd ob"
    using assms by (auto simp: prefix_def)
  then show "list_ex (\<lambda>c. \<not> is_digit c \<and> c \<noteq> CHR ''-'' \<and> c \<noteq> CHR ''+'') (TrimSpace s)"
    using assms(3) by (auto simp: list_ex_iff)
qed

lemma ip_read_only_not_number:
  assumes "ip_read_only (Fields s)"
  shows "Atoi s = None"
proof -
  have l: "2 \<le> length (Fields s)" using assms by (auto simp: ip_read_only_def)
  then have "0 < length (Fields s)" by linarith
  then have t: "Fields s ! 0 \<in> set (Fields (TrimSpace s))" by simp
  have "\<exists>ob \<in> insert ''xfrm'' ip_objects. prefix (Fields s ! 0) ob"
    using assms by (auto simp: ip_read_only_def)
  then obtain ob where ob: "ob \<in> insert ''xfrm'' ip_objects" "prefix (Fields s ! 0) ob" by blast
  have "\<not> is_digit (hd ob) \<and> hd ob \<noteq> CHR ''-'' \<and> hd ob \<noteq> CHR ''+''"
    using ob(1) by (auto simp: ip_objects_def is_digit_def)
  with prefix_number_letter [OF _ ob(2)] Fields_token [OF t] show ?thesis by blast
qed

lemma ip_read_only_eq:
  "ip_read_only ws \<longleftrightarrow> 2 \<le> length ws \<and> \<not> (prefix ''l'' (ws ! 0) \<and> ws ! 1 = ''s'') \<and>
     (\<exists>c \<in> set validIPCommand. ip_matches ws c)"
proof (cases "2 \<le> length ws")
  case True
  then show ?thesis by (simp only: ip_read_only_def ip_matches_words simp_thms)
next
  case False
  then have "\<not> 3 \<le> length ws" by simp
  with False show ?thesis by (simp only: ip_read_only_def simp_thms)
qed

lemma validateIPCommand_ok:
  assumes "set order = set validIPCommand"
  shows "validateIPCommand order c = ok \<longleftrightarrow> ip_read_only (Fields c)"
proof -
  have "validateIPCommand order c = ok \<longleftrightarrow> Atoi c = None \<and> 2 \<le> length (Fields c) \<and>
      \<not> (prefix ''l'' (Fields c ! 0) \<and> Fields c ! 1 = ''s'') \<and> ip_valid_loop (Fields c) order"
    by (auto simp: validateIPCommand_def Let_def HasPrefix_iff not_less)
  also have "\<dots> \<longleftrightarrow> Atoi c = None \<and> ip_read_only (Fields c)"
    unfolding ip_read_only_eq ip_valid_loop_iff assms by blast
  also have "\<dots> \<longleftrightarrow> ip_read_only (Fields c)"
    using ip_read_only_not_number by blast
  finally show ?thesis .
qed

section \<open>The commands the kernel tools may run\<close>

definition plain_word :: "string \<Rightarrow> bool" where
  "plain_word t \<longleftrightarrow> t \<noteq> [] \<and> plain t \<and> list_all (\<lambda>c. \<not> ascii_space c) t"

lemma plain_Fields: "plain s \<Longrightarrow> list_all plain_word (Fields s)"
  by (auto simp: plain_word_def no_meta_def list_all_iff dest!: Fields_token)

text \<open>The commands of the kernel tools: a version probe, or a program whose action is a listing. After the
  action come filter words of the client. Before the action of \<^verbatim>\<open>ip\<close> come the client's option words \<open>os\<close>,
  about which nothing is known but that they have no shell metacharacters.\<close>

inductive kernel_command :: "strs \<Rightarrow> strs \<Rightarrow> bool" for os where
  version: "u \<in> {''conntrack'', ''iptables'', ''nft'', ''ip''} \<Longrightarrow> kernel_command os [u, ''-V'']"
| conntrack_file: "kernel_command os [''cat'', ''/proc/net/nf_conntrack'']"
| conntrack: "a \<in> conntrack_actions True \<Longrightarrow> list_all plain_word fs \<Longrightarrow>
    a \<in> {''-L'', ''--dump''} \<or> fs = [] \<Longrightarrow> kernel_command os ([''conntrack'', a] @ fs)"
| iptables: "b \<in> {''iptables'', ''ip6tables''} \<Longrightarrow> t \<in> iptables_tables \<Longrightarrow> a \<in> iptables_actions \<Longrightarrow>
    list_all plain_word fs \<Longrightarrow> a \<in> {''-L'', ''--list''} \<or> fs = [] \<Longrightarrow>
    kernel_command os ([b, ''-t'', t, a] @ fs)"
| nft: "c \<in> nft_actions \<Longrightarrow> fam = [] \<or> (\<exists>f \<in> nft_families. fam = [f]) \<Longrightarrow>
    kernel_command os ([''nft''] @ Fields c @ fam)"
| ip: "list_all plain_word os \<Longrightarrow> ip_read_only ws \<Longrightarrow> list_all plain_word fs \<Longrightarrow>
    kernel_command os ([''ip''] @ os @ ws @ fs)"

definition kernel_call ::
  "'w kernel_MCPServer \<Rightarrow> Context \<Rightarrow> string \<Rightarrow> string \<Rightarrow> strs \<Rightarrow> node_call \<Rightarrow> bool" where
  "kernel_call s ctx ns node os c \<longleftrightarrow> nc_ctx c = ctx \<and> nc_namespace c = ns \<and> nc_node c = node \<and>
     nc_image c = kc_Image (cfg s) \<and> nc_hostPath c = [] \<and> nc_mountPath c = [] \<and> nc_timeout c = 0 \<and>
     kernel_command os (nc_command c)"

lemma snd_executeCommand:
  "snd (executeCommand s ctx ns node cmd w) =
     snd (runDebugNodeCommand s ctx ns node (kc_Image (cfg s)) cmd [] [] 0 w)"
  by (auto simp: executeCommand_def Let_def split: prod.splits sum.splits)

lemma snd_utilityExists:
  "snd (utilityExists s ctx ns node u w) =
     snd (runDebugNodeCommand s ctx ns node (kc_Image (cfg s)) [u, ''-V''] [] [] 0 w)"
  by (auto simp: utilityExists_def Let_def split: prod.splits sum.splits)

lemma kernel_run_call:
  assumes "kernel_command os cmd"
  shows "calls (node_step (runDebugNodeCommand s)) (kernel_call s ctx ns node os) w
     (snd (executeCommand s ctx ns node cmd w))"
  unfolding snd_executeCommand by (rule calls_node_one) (simp add: kernel_call_def assms)

lemma kernel_utility_call:
  assumes "u \<in> {''conntrack'', ''iptables'', ''nft'', ''ip''}"
  shows "calls (node_step (runDebugNodeCommand s)) (kernel_call s ctx ns node os) w
     (snd (utilityExists s ctx ns node u w))"
proof -
  have "kernel_command os [u, ''-V'']" using assms by (rule kernel_command.version)
  then show ?thesis
    unfolding snd_utilityExists by (intro calls_node_one) (simp add: kernel_call_def)
qed

lemma Build_conntrack:
  "c = [] \<or> c \<in> conntrack_actions True \<Longrightarrow>
   Build (conntrackCLI_cmd c fp) = [''conntrack'', if c = [] then ''-L'' else c] @
     (if c \<in> {[], ''-L'', ''--dump''} then Fields fp else [])"
  by (auto simp: conntrack_actions_def conntrackCLI_cmd_def Let_def)

lemma conntrack_permitted:
  assumes "validateConntrackCommand c True = ok" "plain fp"
  shows "kernel_command os (Build (conntrackCLI_cmd (TrimSpace c) fp))"
proof -
  have c: "TrimSpace c = [] \<or> TrimSpace c \<in> conntrack_actions True"
    using assms(1) by (auto simp: go_valid)
  then have "(if TrimSpace c = [] then ''-L'' else TrimSpace c) \<in> conntrack_actions True"
    by (auto simp: conntrack_actions_def)
  then show ?thesis
    unfolding Build_conntrack [OF c]
    by (rule kernel_command.conntrack) (use plain_Fields [OF assms(2)] in auto)
qed

lemma Build_iptables:
  "Build (iptables_cmd t c fp) =
     [iptablesCommand fp, ''-t'', if t = [] then ''filter'' else t, if c = [] then ''-L'' else c] @
     (if fp \<noteq> [] \<and> c \<noteq> ''-S'' \<and> c \<noteq> ''--list-rules'' then Fields fp else [])"
  by (simp add: iptables_cmd_def Let_def)

lemma iptables_permitted:
  assumes "validateTableName t = ok" "validateIptablesCommand c = ok" "plain fp"
  shows "kernel_command os (Build (iptables_cmd (TrimSpace t) (TrimSpace c) fp))"
proof -
  let ?t = "if TrimSpace t = [] then ''filter'' else TrimSpace t"
  let ?a = "if TrimSpace c = [] then ''-L'' else TrimSpace c"
  let ?f = "if fp \<noteq> [] \<and> TrimSpace c \<noteq> ''-S'' \<and> TrimSpace c \<noteq> ''--list-rules'' then Fields fp else []"
  have "?t \<in> iptables_tables" using assms(1) by (auto simp: go_valid iptables_tables_def)
  moreover have "?a \<in> iptables_actions" using assms(2) by (auto simp: go_valid iptables_actions_def)
  moreover have "?a \<in> {''-L'', ''--list''} \<or> ?f = []"
    using assms(2) by (auto simp: go_valid iptables_actions_def)
  moreover have "list_all plain_word ?f" using plain_Fields [OF assms(3)] by simp
  moreover have "iptablesCommand fp \<in> {''iptables'', ''ip6tables''}" by (simp add: iptablesCommand_def)
  ultimately show ?thesis unfolding Build_iptables by (intro kernel_command.iptables)
qed

lemma nft_permitted:
  assumes "validateNFTCommand c = ok" "validateNFTAddressFamily f = ok"
  shows "kernel_command os (Build (nft_cmd (TrimSpace c) (TrimSpace f)))"
proof -
  have c: "TrimSpace c \<in> nft_actions" and f: "TrimSpace f = [] \<or> TrimSpace f \<in> nft_families"
    using assms by (auto simp: go_valid)
  have b: "Build (nft_cmd (TrimSpace c) (TrimSpace f)) =
      [''nft''] @ Fields (TrimSpace c) @ (if TrimSpace f = [] then [] else [TrimSpace f])"
    by (simp add: nft_cmd_def Let_def)
  show ?thesis unfolding b by (rule kernel_command.nft [OF c]) (use f in auto)
qed

lemma ip_permitted:
  assumes "ip_read_only (Fields c)" "plain op" "plain fp"
  shows "kernel_command (Fields op) (Build (ip_cmd op c fp))"
proof -
  have "Build (ip_cmd op c fp) = [''ip''] @ Fields op @ Fields c @ Fields fp"
    by (simp add: ip_cmd_def Let_def)
  then show ?thesis
    using kernel_command.ip [OF plain_Fields [OF assms(2)] assms(1) plain_Fields [OF assms(3)]] by simp
qed

lemma cat_permitted: "kernel_command os [''cat'', conntrackSystemFile]"
  unfolding conntrackSystemFile_def by (rule kernel_command.conntrack_file)

lemma conntrack_source_call:
  assumes "validateConntrackCommand c cli = ok" "plain fp"
  shows "calls (node_step (runDebugNodeCommand s)) (kernel_call s ctx ns node os) w
    (snd (if \<not> cli then getConntrackFromFile s ctx ns node w
          else getConntrackUsingCLI s ctx ns node (TrimSpace c) fp w))"
proof (cases cli)
  case True
  then show ?thesis
    using kernel_run_call [OF conntrack_permitted] assms by (simp add: getConntrackUsingCLI_def)
next
  case False
  then show ?thesis
    using kernel_run_call [OF cat_permitted] by (simp add: getConntrackFromFile_def Let_def)
qed

lemma snd_conntrack_case:
  "snd (case x of (Inl e, w') \<Rightarrow> (h e, w')
     | (Inr (out, er), w') \<Rightarrow>
         (let (summary, rest) = f er in if rest \<noteq> [] then (g rest, w') else (k out summary, w'))) = snd x"
  by (auto split: prod.splits sum.splits)

lemma kernel_conntrack_calls:
  "calls (node_step (runDebugNodeCommand s))
     (kernel_call s (fst (WithTimeout now (cp_Timeout i) ctx)) (Namespace i) (Node i) []) w
     (snd (GetConntrack now s ctx i w))"
  unfolding GetConntrack_def Let_def [where s = "fst (WithTimeout now (cp_Timeout i) ctx)"]
  by (rule calls_seq, rule kernel_utility_call, simp,
      unfold Let_def [where f = "\<lambda>b. case_option _ _ _"] Let_def [where s = "_ = None"],
      intro calls_guard, unfold snd_conntrack_case, rule conntrack_source_call)
    (simp_all add: ValidateSafeString_plain)

lemma kernel_iptables_calls:
  "calls (node_step (runDebugNodeCommand s))
     (kernel_call s (fst (WithTimeout now (cp_Timeout i) ctx)) (Namespace i) (Node i) []) w
     (snd (GetIptables now s ctx i w))"
  unfolding GetIptables_def Let_def ValidateSafeString_plain [symmetric]
  by (rule calls_seq, rule kernel_utility_call, simp,
      intro calls_guard calls_case_output kernel_run_call iptables_permitted)
    (simp_all add: ValidateSafeString_plain)

lemma kernel_nft_calls:
  "calls (node_step (runDebugNodeCommand s))
     (kernel_call s (fst (WithTimeout now (cp_Timeout i) ctx)) (Namespace i) (Node i) []) w
     (snd (GetNFT now s ctx i w))"
  unfolding GetNFT_def Let_def
  by (rule calls_seq, rule kernel_utility_call, simp,
      intro calls_guard calls_case_output kernel_run_call nft_permitted)
    simp_all

lemma kernel_ip_calls:
  assumes "set order = set validIPCommand"
  shows "calls (node_step (runDebugNodeCommand s))
     (kernel_call s (fst (WithTimeout now (cp_Timeout i) ctx)) (Namespace i) (Node i) (Fields (lip_Options i))) w
     (snd (GetIPCommandOutput order now s ctx i w))"
  unfolding GetIPCommandOutput_def Let_def
  by (rule calls_seq, rule kernel_utility_call, simp,
      intro calls_guard calls_case_output kernel_run_call ip_permitted)
    (simp_all add: ValidateSafeString_plain validateIPCommand_ok [OF assms])

section \<open>Properties\<close>


definition no_limits :: HeadTailParams where
  "no_limits = \<lparr>Head = 0, Tail = 0, ApplyTailFirst = False\<rparr>"

definition sample_common :: CommonParams where
  "sample_common = \<lparr>Node = ''ovn-worker'', Namespace = ''default'', cp_HeadTail = no_limits,
     cp_Timeout = \<lparr>TimeoutSeconds = 30\<rparr>\<rparr>"

definition sample_ip :: ListIPParams where
  "sample_ip = CommonParams.extend sample_common
     (ListIPParams.fields ''-4'' ''route show'' ''table all'')"

definition sample_server :: "node_call list kernel_MCPServer" where
  "sample_server = \<lparr>runDebugNodeCommand = log_node (\<lambda>_. Inr ([], [])),
     cfg = \<lparr>kc_Image = ''nicolaka/netshoot''\<rparr>\<rparr>"


text \<open>Claim C26: the outcome of \<^verbatim>\<open>validateIPCommand\<close> does not depend on the iteration order of its map, and
  it accepts a command exactly when its words abbreviate a \<^verbatim>\<open>show\<close> of one of the seven objects or
  a \<^verbatim>\<open>list\<close> of xfrm state or policy, the ambiguous \<^verbatim>\<open>l s\<close> excluded.\<close>

theorem validateIPCommand_iff:
  assumes "set order = set validIPCommand"
  shows "(validateIPCommand order c = ok \<longleftrightarrow> ip_read_only (Fields c)) \<and>
     validateIPCommand order c = validateIPCommand validIPCommand c"
proof -
  have "validateIPCommand o1 c = ok \<or> validateIPCommand o1 c = Some (Errorf ''invalid ip command: %s'' [FStr c])"
    for o1 by (simp add: validateIPCommand_def Let_def)
  then show ?thesis
    using validateIPCommand_ok [OF assms, of c] validateIPCommand_ok [OF refl, of c] by metis
qed

theorem validateIPCommand_iff_witness:
  "set (rev validIPCommand) = set validIPCommand \<and>
   validateIPCommand (rev validIPCommand) ''r s'' = ok \<and>
   validateIPCommand (rev validIPCommand) ''link set eth0 down'' \<noteq> ok"
proof -
  have "ip_read_only (Fields ''r s'')" "\<not> ip_read_only (Fields ''link set eth0 down'')"
    by code_simp+
  with validateIPCommand_iff [of "rev validIPCommand" "''r s''"]
    validateIPCommand_iff [of "rev validIPCommand" "''link set eth0 down''"]
  show ?thesis by (metis set_rev)
qed

lemma GetConntrack_case_ok:
  "(case x of (Inl e, w') \<Rightarrow> ((r0, Some (h e)), w')
     | (Inr (out, er), w') \<Rightarrow>
         (let (summary, rest) = (if er \<noteq> [] then splitConntrackSummary er else ([], [])) in
          if rest \<noteq> [] then ((r0, Some (g rest)), w') else ((k out summary, None), w'))) = ((r, None), v) \<longleftrightarrow>
   (\<exists>out er. x = (Inr (out, er), v) \<and> only_summary er \<and> r = k out (summary_of er))"
proof -
  have eq: "(let (summary, rest) = (if er \<noteq> [] then splitConntrackSummary er else ([], [])) in
          if rest \<noteq> [] then ((r0, Some (g rest)), w') else ((k out summary, None), w')) =
        (if \<not> only_summary er then ((r0, Some (g (snd (splitConntrackSummary er)))), w')
         else ((k out (summary_of er), None), w'))" for out er w'
    using splitConntrackSummary_eq [of er] by (auto split: prod.splits)
  show ?thesis unfolding eq by (auto split: prod.splits sum.splits)
qed

lemma guard_wrap_ok:
  "(case v of Some e \<Rightarrow> ((r0, Some (h e)), w) | None \<Rightarrow> x) = ((r, None), w') \<longleftrightarrow>
     v = None \<and> x = ((r, None), w')"
  by (cases v) auto

lemma output_case_ok:
  "(case x of (Inl e, w') \<Rightarrow> ((r0, Some (h e)), w')
     | (Inr (out, er), w') \<Rightarrow> if er \<noteq> [] then ((r0, Some (g er)), w') else ((k out, None), w')) =
     ((r, None), v) \<longleftrightarrow> (\<exists>out. x = (Inr (out, []), v) \<and> r = k out)"
  by (auto split: prod.splits sum.splits if_splits)

text \<open>Claim C29: \<^verbatim>\<open>get-conntrack\<close> succeeds exactly when its command is allowed (only listing, when the image
  has no \<^verbatim>\<open>conntrack\<close>), its filter is free of metacharacters, and the command, the CLI or else reading
  the proc file, leaves no standard error beyond warnings and the summary line; the summary
  is appended to the rendered entries.\<close>

theorem GetConntrack_ok_iff:
  "GetConntrack now s ctx i w = ((r, None), w') \<longleftrightarrow>
     (\<exists>err w1 out er. let ctx' = fst (WithTimeout now (cp_Timeout i) ctx);
            c = TrimSpace (ct_Command i) in
        utilityExists s ctx' (Namespace i) (Node i) ''conntrack'' w = (err, w1) \<and>
        (ct_Command i = [] \<or> c \<in> conntrack_actions (err = None)) \<and> plain (ct_FilterParameters i) \<and>
        executeCommand s ctx' (Namespace i) (Node i)
          (if err \<noteq> None then [''cat'', ''/proc/net/nf_conntrack'']
           else [''conntrack'', if c = [] then ''-L'' else c] @
             (if c \<in> {'''', ''-L'', ''--dump''} then Fields (ct_FilterParameters i) else [])) w1 =
          (Inr (out, er), w') \<and> only_summary er \<and>
        r = \<lparr>Data = conntrack_out (render (cp_HeadTail i) out) (summary_of er)\<rparr>)"
proof -
  let ?ctx = "fst (WithTimeout now (cp_Timeout i) ctx)"
  let ?c = "TrimSpace (ct_Command i)"
  obtain err w1 where u: "utilityExists s ?ctx (Namespace i) (Node i) ''conntrack'' w = (err, w1)"
    by fastforce
  let ?A = "ct_Command i = [] \<or> ?c \<in> conntrack_actions (err = None)"
  let ?run = "if \<not> err = None then getConntrackFromFile s ?ctx (Namespace i) (Node i) w1
     else getConntrackUsingCLI s ?ctx (Namespace i) (Node i) ?c (ct_FilterParameters i) w1"
  let ?exec = "executeCommand s ?ctx (Namespace i) (Node i)
     (if err \<noteq> None then [''cat'', ''/proc/net/nf_conntrack'']
      else [''conntrack'', if ?c = [] then ''-L'' else ?c] @
        (if ?c \<in> {'''', ''-L'', ''--dump''} then Fields (ct_FilterParameters i) else [])) w1"
  have run: "?run = x \<longleftrightarrow> ?exec = x" if ?A for x
  proof (cases "err = None")
    case True
    then have "?c = [] \<or> ?c \<in> conntrack_actions True" using that by auto
    from Build_conntrack [OF this] True show ?thesis by (simp add: getConntrackUsingCLI_def)
  qed (simp add: getConntrackFromFile_def conntrackSystemFile_def Let_def)
  have ex: "(\<exists>e v out er. utilityExists s ?ctx (Namespace i) (Node i) ''conntrack'' w = (e, v) \<and> Q e v out er)
      \<longleftrightarrow> (\<exists>out er. Q err w1 out er)" for Q
    using u by simp
  have "GetConntrack now s ctx i w = ((r, None), w') \<longleftrightarrow>
      ?A \<and> plain (ct_FilterParameters i) \<and> (\<exists>out er. ?run = (Inr (out, er), w') \<and> only_summary er \<and>
        r = \<lparr>Data = conntrack_out (render (cp_HeadTail i) out) (summary_of er)\<rparr>)"
    unfolding GetConntrack_def Let_def [where s = "fst (WithTimeout now (cp_Timeout i) ctx)"]
      Let_def [where s = "_ = None"] u prod.case guard_wrap_ok GetConntrack_case_ok ValidateSafeString_plain
      kernel_validators_ok ..
  then show ?thesis unfolding Let_def ex using run by blast
qed

text \<open>\<^verbatim>\<open>get-nft\<close> succeeds exactly when \<^verbatim>\<open>nft\<close> is in the image, the command is one of the six
  listings, the family is absent or known, and the command built from them leaves no standard
  error beyond warnings.\<close>

theorem GetNFT_ok_iff:
  "GetNFT now s ctx i w = ((r, None), w') \<longleftrightarrow>
     (\<exists>w1 out. let ctx' = fst (WithTimeout now (cp_Timeout i) ctx); f = TrimSpace (nf_AddressFamilies i) in
        utilityExists s ctx' (Namespace i) (Node i) ''nft'' w = (None, w1) \<and>
        TrimSpace (nf_Command i) \<in> nft_actions \<and> plain (nf_AddressFamilies i) \<and>
        (nf_AddressFamilies i = [] \<or> f \<in> nft_families) \<and>
        executeCommand s ctx' (Namespace i) (Node i)
          ([''nft''] @ Fields (nf_Command i) @ (if f = [] then [] else [f])) w1 = (Inr (out, []), w') \<and>
        r = \<lparr>Data = render (cp_HeadTail i) out\<rparr>)"
proof -
  have b: "Build (nft_cmd (TrimSpace c) f) = [''nft''] @ Fields c @ (if f = [] then [] else [f])" for c f
    by (simp add: nft_cmd_def Let_def)
  obtain err w1 where u: "utilityExists s (fst (WithTimeout now (cp_Timeout i) ctx)) (Namespace i) (Node i)
      ''nft'' w = (err, w1)" by fastforce
  show ?thesis
    unfolding GetNFT_def Let_def u prod.case guard_wrap_ok output_case_ok ValidateSafeString_plain
      kernel_validators_ok b by auto
qed

text \<open>Claim C32: the \<^verbatim>\<open>options\<close> of \<^verbatim>\<open>get-ip\<close> are checked for metacharacters only. Once the probe for \<^verbatim>\<open>ip\<close> has
  succeeded, any metacharacter-free text given as options, so any object and subcommand of \<^verbatim>\<open>ip\<close>, is run
  on the node directly after \<^verbatim>\<open>ip\<close>, before the listing that was validated.\<close>

theorem get_ip_options_run_commands:
  assumes "set order = set validIPCommand"
    and "utilityExists s (fst (WithTimeout now (cp_Timeout i) ctx)) (Namespace i) (Node i) ''ip'' w = (None, w1)"
    and "ip_read_only (Fields (lip_Command i))" "plain (lip_FilterParameters i)" "plain (lip_Options i)"
  shows "snd (GetIPCommandOutput order now s ctx i w) =
    snd (executeCommand s (fst (WithTimeout now (cp_Timeout i) ctx)) (Namespace i) (Node i)
      ([''ip''] @ Fields (lip_Options i) @ Fields (lip_Command i) @ Fields (lip_FilterParameters i)) w1)"
proof -
  have b: "Build (ip_cmd op c fp) = [''ip''] @ Fields op @ Fields c @ Fields fp" for op c fp
    by (simp add: ip_cmd_def Let_def)
  have v: "validateIPCommand order (lip_Command i) = ok"
    "ValidateSafeString (lip_FilterParameters i) ''filter parameters'' True ShellMetaCharactersTypeDefault = ok"
    "ValidateSafeString (lip_Options i) ''options'' True ShellMetaCharactersTypeDefault = ok"
    using assms(3-5) by (simp_all add: validateIPCommand_ok [OF assms(1)] ValidateSafeString_plain)
  show ?thesis
    unfolding GetIPCommandOutput_def Let_def assms(2) prod.case option.case v b
    by (simp split: prod.splits sum.splits)
qed

definition reboot_ip :: ListIPParams where
  "reboot_ip = CommonParams.extend sample_common (ListIPParams.fields ''netns exec blue reboot'' ''address show'' [])"

theorem get_ip_options_run_commands_witness:
  "map nc_command (snd (GetIPCommandOutput validIPCommand 0 sample_server context_Background reboot_ip [])) =
   [[''ip'', ''-V''], [''ip'', ''netns'', ''exec'', ''blue'', ''reboot'', ''address'', ''show'']]"
proof -
  let ?c = "fst (WithTimeout 0 (cp_Timeout reboot_ip) context_Background)"
  define w1 where "w1 = snd (utilityExists sample_server ?c (Namespace reboot_ip) (Node reboot_ip) ''ip'' [])"
  have u: "utilityExists sample_server ?c (Namespace reboot_ip) (Node reboot_ip) ''ip'' [] = (None, w1)"
    unfolding w1_def by code_simp
  have v: "ip_read_only (Fields (lip_Command reboot_ip))" by code_simp
  have p: "plain (lip_FilterParameters reboot_ip)" "plain (lip_Options reboot_ip)"
    unfolding ValidateSafeString_plain [symmetric, of _ "[]"] by code_simp+
  show ?thesis
    unfolding get_ip_options_run_commands [OF refl u v p] w1_def by code_simp
qed

end
