(* ===== verification/NetworkTools.thy ===== *)
theory NetworkTools
  imports Exec CommandBuilder
begin

text \<open>
  The packet capture tools, \<^verbatim>\<open>pkg/network-tools\<close>: \<^verbatim>\<open>tcpdump\<close> on a node or in a pod and \<^verbatim>\<open>pwru\<close> on a node,
  with the validators that bound what they capture. A Go \<^verbatim>\<open>int\<close> is an \<open>int\<close>: the only arithmetic on
  it is comparison.
\<close>

section \<open>Types\<close>

record BaseNetworkDiagParams =
  BPFFilter :: string

record TcpdumpParams = BaseNetworkDiagParams +
  TargetType :: string
  td_Name :: string
  td_Namespace :: string
  ContainerName :: string
  Interface :: string
  PacketCount :: int
  Snaplen :: int
  td_Timeout :: TimeoutParams

record PwruParams = BaseNetworkDiagParams +
  NodeName :: string
  NodePodNamespace :: string
  OutputLimitLines :: int
  pw_Timeout :: TimeoutParams

record CommandResult =
  Output :: string
  Stderr :: string

definition CommandResult_zero :: CommandResult where
  "CommandResult_zero = \<lparr>Output = [], Stderr = []\<rparr>"

record nt_Config =
  PwruImage :: string
  TcpdumpImage :: string

record 'w nt_MCPServer =
  nt_runDebugNodeCommand :: "'w node_exec"
  nt_runPodExecCommand :: "'w pod_exec"
  nt_cfg :: nt_Config

definition nt_NewMCPServer ::
  "'w node_exec option \<Rightarrow> 'w pod_exec option \<Rightarrow> nt_Config \<Rightarrow> 'w nt_MCPServer result" where
  "nt_NewMCPServer runNodeCommand runPodExecCommand c =
     (case runNodeCommand of
        None \<Rightarrow> Inl (Errorf ''function to run debug node command is nil'' [])
      | Some n \<Rightarrow> (case runPodExecCommand of
          None \<Rightarrow> Inl (Errorf ''function to run pod exec command is nil'' [])
        | Some p \<Rightarrow> Inr \<lparr>nt_runDebugNodeCommand = n, nt_runPodExecCommand = p, nt_cfg = c\<rparr>))"

definition DefaultPacketCount :: int where "DefaultPacketCount = 100"
definition MaxPacketCount :: int where "MaxPacketCount = 1000"
definition DefaultSnaplen :: int where "DefaultSnaplen = 96"
definition MaxSnaplen :: int where "MaxSnaplen = 1500"
definition DefaultOutputLimitLines :: int where "DefaultOutputLimitLines = 100"
definition MaxOutputLimitLines :: int where "MaxOutputLimitLines = 1000"

lemmas nt_limits = DefaultPacketCount_def MaxPacketCount_def DefaultSnaplen_def MaxSnaplen_def
  DefaultOutputLimitLines_def MaxOutputLimitLines_def

section \<open>Validation\<close>

definition alnum :: cls where
  "alnum = [(CHR ''a'', CHR ''z''), (CHR ''A'', CHR ''Z''), (CHR ''0'', CHR ''9'')]"

definition iface_cls :: cls where
  "iface_cls = alnum @ [(CHR ''.'', CHR ''.''), (CHR ''_'', CHR ''_''), (CHR ''-'', CHR ''-'')]"

definition interfaceNamePattern :: pat where
  "interfaceNamePattern = Pat True (RSeq (RCls alnum) (RStar (RCls iface_cls))) True"

definition validateInterface :: "string \<Rightarrow> validation" where
  "validateInterface iface =
     (if iface = [] then ok
      else if iface = ''any'' then ok
      else if length iface > 15 then Some (Errorf ''interface name too long: %s'' [FStr iface])
      else if \<not> MatchString interfaceNamePattern iface then
        Some (Errorf ''invalid interface name: %s'' [FStr iface])
      else ok)"

definition validatePacketFilter :: "string \<Rightarrow> validation" where
  "validatePacketFilter filt =
     (if length filt > 1024 then Some (Errorf ''packet filter too long (max 1024 characters)'' [])
      else ValidateSafeString filt ''packet filter'' True ShellMetaCharactersTypeDisallowSpecialCharacters)"

definition validateIntMax :: "int \<Rightarrow> int \<Rightarrow> string \<Rightarrow> string \<Rightarrow> validation" where
  "validateIntMax value mx fieldName unit =
     (if value < 0 then Some (Errorf ''%s cannot be negative'' [FStr fieldName])
      else if value > mx then
        (if unit \<noteq> [] then Some (Errorf ''%s cannot exceed %d %s'' [FStr fieldName, FInt mx, FStr unit])
         else Some (Errorf ''%s cannot exceed %d'' [FStr fieldName, FInt mx]))
      else ok)"

section \<open>Handlers\<close>

text \<open>The result of the executor as the handlers return it: an error with the zero result, or both
  streams.\<close>

definition command_result :: "(string \<times> string) result \<times> 'w \<Rightarrow> CommandResult handler_ret \<times> 'w" where
  "command_result x = (case x of
       (Inl e, w') \<Rightarrow> ((CommandResult_zero, Some e), w')
     | (Inr (stdout, stderr), w') \<Rightarrow> ((\<lparr>Output = stdout, Stderr = stderr\<rparr>, None), w'))"

definition tcpdump_cmd :: "int \<Rightarrow> int \<Rightarrow> string \<Rightarrow> string \<Rightarrow> CommandBuilder" where
  "tcpdump_cmd snaplen packetCount iface filt =
     (let cmd = NewCommand [''tcpdump'', ''-n'', ''-v'', ''-s'', Itoa snaplen, ''-c'', Itoa packetCount];
          cmd = AddIfNotEmpty cmd iface [''-i'', iface] in
      AddIfNotEmpty cmd filt [filt])"

definition targetType_msg :: string where
  "targetType_msg = ''target_type is required and must be 'node' or 'pod'' @ [CHR 0x27]"

definition tcpdumpName_msg :: string where
  "tcpdumpName_msg = ''name is required when target_type is '%s'' @ [CHR 0x27]"

definition tcpdumpNamespace_msg :: string where
  "tcpdumpNamespace_msg = ''namespace is required when target_type is 'pod'' @ [CHR 0x27]"

definition tcpdumpInvalid_msg :: string where
  "tcpdumpInvalid_msg = ''invalid target_type: %s (must be 'node' or 'pod')''"

definition tcpdump_target :: "TcpdumpParams \<Rightarrow> validation" where
  "tcpdump_target inp =
     (if TargetType inp = [] \<or> (TargetType inp \<noteq> ''node'' \<and> TargetType inp \<noteq> ''pod'') then
        Some (Errorf targetType_msg [])
      else if td_Name inp = [] then Some (Errorf tcpdumpName_msg [FStr (TargetType inp)])
      else if TargetType inp = ''pod'' \<and> td_Namespace inp = [] then Some (Errorf tcpdumpNamespace_msg [])
      else ok)"

definition Tcpdump ::
  "int \<Rightarrow> 'w nt_MCPServer \<Rightarrow> Context \<Rightarrow> TcpdumpParams \<Rightarrow> 'w \<Rightarrow> CommandResult handler_ret \<times> 'w" where
  "Tcpdump now s ctx0 inp w =
     (let packetCount = (if PacketCount inp = 0 then DefaultPacketCount else PacketCount inp);
          snaplen = (if Snaplen inp = 0 then DefaultSnaplen else Snaplen inp);
          ctx = fst (WithTimeout now (td_Timeout inp) ctx0) in
      case tcpdump_target inp of
        Some e \<Rightarrow> ((CommandResult_zero, Some e), w)
      | None \<Rightarrow>
      (case validateInterface (Interface inp) of
        Some e \<Rightarrow> ((CommandResult_zero, Some e), w)
      | None \<Rightarrow>
      (case validatePacketFilter (BPFFilter inp) of
        Some e \<Rightarrow> ((CommandResult_zero, Some e), w)
      | None \<Rightarrow>
      (case validateIntMax packetCount MaxPacketCount ''packet_count'' [] of
        Some e \<Rightarrow> ((CommandResult_zero, Some e), w)
      | None \<Rightarrow>
      (case validateIntMax snaplen MaxSnaplen ''snaplen'' ''bytes'' of
        Some e \<Rightarrow> ((CommandResult_zero, Some e), w)
      | None \<Rightarrow>
          (let cmd = Build (tcpdump_cmd snaplen packetCount (Interface inp) (BPFFilter inp)) in
           if TargetType inp = ''node'' then
             command_result (nt_runDebugNodeCommand s ctx (td_Namespace inp) (td_Name inp)
               (TcpdumpImage (nt_cfg s)) cmd [] [] 0 w)
           else if TargetType inp = ''pod'' then
             command_result (nt_runPodExecCommand s ctx (td_Namespace inp) (td_Name inp)
               (ContainerName inp) cmd w)
           else ((CommandResult_zero, Some (Errorf tcpdumpInvalid_msg [FStr (TargetType inp)])), w)))))))"

definition pwru_cmd :: "int \<Rightarrow> string \<Rightarrow> CommandBuilder" where
  "pwru_cmd outputLimitLines filt =
     AddIfNotEmpty (NewCommand [''pwru'', ''--output-limit-lines'', Itoa outputLimitLines]) filt [filt]"

definition kernelDebug :: string where
  "kernelDebug = ''/sys/kernel/debug''"

definition Pwru ::
  "int \<Rightarrow> 'w nt_MCPServer \<Rightarrow> Context \<Rightarrow> PwruParams \<Rightarrow> 'w \<Rightarrow> CommandResult handler_ret \<times> 'w" where
  "Pwru now s ctx0 inp w =
     (let outputLimitLines = (if OutputLimitLines inp = 0 then DefaultOutputLimitLines
            else OutputLimitLines inp);
          ctx = fst (WithTimeout now (pw_Timeout inp) ctx0) in
      case validateIntMax outputLimitLines MaxOutputLimitLines ''output_limit_lines'' [] of
        Some e \<Rightarrow> ((CommandResult_zero, Some e), w)
      | None \<Rightarrow>
      (case validatePacketFilter (BPFFilter inp) of
        Some e \<Rightarrow> ((CommandResult_zero, Some e), w)
      | None \<Rightarrow>
          command_result (nt_runDebugNodeCommand s ctx (NodePodNamespace inp) (NodeName inp)
            (PwruImage (nt_cfg s)) (Build (pwru_cmd outputLimitLines (BPFFilter inp)))
            kernelDebug kernelDebug 0 w)))"

section \<open>What the validators accept\<close>

definition iface_ok :: "string \<Rightarrow> bool" where
  "iface_ok i \<longleftrightarrow> i \<noteq> [] \<and> length i \<le> 15 \<and> in_class alnum (hd i) \<and> list_all (in_class iface_cls) i"

lemma validateInterface_ok: "validateInterface i = ok \<longleftrightarrow> i = [] \<or> iface_ok i"
proof -
  have "MatchString interfaceNamePattern i \<longleftrightarrow>
      i \<noteq> [] \<and> in_class alnum (hd i) \<and> list_all (in_class iface_cls) (tl i)"
    by (cases i) (auto simp: interfaceNamePattern_def MatchString_full rx_in_cls_seq)
  moreover have "in_class alnum c \<Longrightarrow> in_class iface_cls c" for c
    by (auto simp: iface_cls_def in_class_def)
  moreover have "iface_ok ''any''" by code_simp
  ultimately show ?thesis
    by (cases i) (auto simp: validateInterface_def iface_ok_def)
qed

definition filter_ok :: "string \<Rightarrow> bool" where
  "filter_ok f \<longleftrightarrow> length f \<le> 1024 \<and> no_meta ShellMetaCharactersTypeDisallowSpecialCharacters f"

lemma validatePacketFilter_ok: "validatePacketFilter f = ok \<longleftrightarrow> filter_ok f"
  by (auto simp: validatePacketFilter_def filter_ok_def ValidateSafeString_ok known_type_def no_meta_def
      list_all_iff)

lemma validateIntMax_ok: "validateIntMax v m f u = ok \<longleftrightarrow> 0 \<le> v \<and> v \<le> m"
  by (simp add: validateIntMax_def)

lemma tcpdump_target_ok:
  "tcpdump_target i = ok \<longleftrightarrow> TargetType i \<in> {''node'', ''pod''} \<and> td_Name i \<noteq> [] \<and>
     (TargetType i = ''pod'' \<longrightarrow> td_Namespace i \<noteq> [])"
  by (auto simp: tcpdump_target_def)

lemmas nt_valid = validateInterface_ok validatePacketFilter_ok validateIntMax_ok tcpdump_target_ok

lemma Build_nt:
  "Build (tcpdump_cmd sl pc i f) =
     [''tcpdump'', ''-n'', ''-v'', ''-s'', Itoa sl, ''-c'', Itoa pc] @
     (if i = [] then [] else [''-i'', i]) @ (if f = [] then [] else [f])"
  "Build (pwru_cmd n f) = [''pwru'', ''--output-limit-lines'', Itoa n] @ (if f = [] then [] else [f])"
  by (simp_all add: tcpdump_cmd_def pwru_cmd_def Let_def)

section \<open>The bounded commands\<close>

text \<open>A program reads a word that starts with a hyphen as an option. With \<open>opt\<close> the filter, which is the last
  word of a capture, may be one; an option may override the limits that stand before it.\<close>

definition option_word :: "string \<Rightarrow> bool" where
  "option_word f \<longleftrightarrow> take 1 f = ''-''"

inductive nt_command :: "bool \<Rightarrow> strs \<Rightarrow> bool" for opt where
  tcpdump: "1 \<le> pc \<Longrightarrow> pc \<le> 1000 \<Longrightarrow> 1 \<le> sl \<Longrightarrow> sl \<le> 1500 \<Longrightarrow> i = [] \<or> iface_ok i \<Longrightarrow> filter_ok f \<Longrightarrow>
    option_word f \<longrightarrow> opt \<Longrightarrow>
    nt_command opt ([''tcpdump'', ''-n'', ''-v'', ''-s'', Itoa sl, ''-c'', Itoa pc] @
      (if i = [] then [] else [''-i'', i]) @ (if f = [] then [] else [f]))"
| pwru: "1 \<le> n \<Longrightarrow> n \<le> 1000 \<Longrightarrow> filter_ok f \<Longrightarrow> option_word f \<longrightarrow> opt \<Longrightarrow>
    nt_command opt ([''pwru'', ''--output-limit-lines'', Itoa n] @ (if f = [] then [] else [f]))"

lemma nt_command_mono:
  assumes "nt_command opt cmd" "opt \<longrightarrow> free"
  shows "nt_command free cmd"
  using assms(1)
proof cases
  case (tcpdump pc sl i f)
  then show ?thesis using nt_command.tcpdump [of pc sl i f free] assms(2) by blast
next
  case (pwru n f)
  then show ?thesis using nt_command.pwru [of n f free] assms(2) by blast
qed

definition nt_call :: "string \<Rightarrow> string \<Rightarrow> bool \<Rightarrow> node_call + pod_call \<Rightarrow> bool" where
  "nt_call ns name opt c \<longleftrightarrow> (case c of
       Inl n \<Rightarrow> nc_namespace n = ns \<and> nc_node n = name \<and> nt_command opt (nc_command n)
     | Inr p \<Rightarrow> pc_namespace p = ns \<and> pc_name p = name \<and> nt_command opt (pc_command p))"

lemma snd_command_result [simp]: "snd (command_result x) = snd x"
  by (auto simp: command_result_def split: prod.splits sum.splits)

lemma nt_run_calls:
  assumes "nt_command opt cmd"
  shows "calls (both_step run_node run_pod) (nt_call ns name opt) w
      (snd (command_result (run_node ctx ns name im cmd hp mp t w)))"
    "calls (both_step run_node run_pod) (nt_call ns name opt) w
      (snd (command_result (run_pod ctx ns name c cmd w)))"
  unfolding snd_command_result
  by (rule calls_both_node [OF calls_node_one], simp add: nt_call_def assms)
    (rule calls_both_pod [OF calls_pod_one], simp add: nt_call_def assms)

lemma tcpdump_bounded:
  assumes "validateIntMax (if pc = 0 then DefaultPacketCount else pc) MaxPacketCount n u = ok"
    "validateIntMax (if sl = 0 then DefaultSnaplen else sl) MaxSnaplen n' u' = ok"
    "validateInterface i = ok" "validatePacketFilter f = ok"
  shows "nt_command (option_word f) (Build (tcpdump_cmd (if sl = 0 then DefaultSnaplen else sl)
      (if pc = 0 then DefaultPacketCount else pc) i f))"
  unfolding Build_nt by (rule nt_command.tcpdump) (use assms in \<open>auto simp: nt_valid nt_limits split: if_splits\<close>)

lemma pwru_bounded:
  assumes "validateIntMax (if n = 0 then DefaultOutputLimitLines else n) MaxOutputLimitLines m u = ok"
    "validatePacketFilter f = ok"
  shows "nt_command (option_word f) (Build (pwru_cmd (if n = 0 then DefaultOutputLimitLines else n) f))"
  unfolding Build_nt by (rule nt_command.pwru) (use assms in \<open>auto simp: nt_valid nt_limits split: if_splits\<close>)

section \<open>Properties\<close>

lemma capture_handler_calls:
  "calls (both_step (nt_runDebugNodeCommand s) (nt_runPodExecCommand s))
     (nt_call (td_Namespace t) (td_Name t) (option_word (BPFFilter t))) w (snd (Tcpdump now s ctx t w))"
  "calls (both_step (nt_runDebugNodeCommand s) (nt_runPodExecCommand s))
     (nt_call (NodePodNamespace p) (NodeName p) (option_word (BPFFilter p))) w (snd (Pwru now s ctx p w))"
  unfolding Tcpdump_def Pwru_def Let_def
  by (intro calls_guard calls_if calls_pair nt_run_calls tcpdump_bounded pwru_bounded; assumption)+

text \<open>Claim C9: captures are bounded, except by filters that are options. Every command the capture tools run
  is on the target the client named; \<^verbatim>\<open>tcpdump\<close> is told to stop after 1 to 1000 packets and to take at most
  1500 bytes of each, on a well-formed interface if one is given, and \<^verbatim>\<open>pwru\<close> to stop after 1 to 1000 lines.
  The only word after these is the filter, of at most 1024 bytes without shell metacharacters, and it is
  an option, which may override the limits, only when the client's filter starts with a hyphen.\<close>

theorem capture_tools_bounded:
  "calls (both_step (nt_runDebugNodeCommand s) (nt_runPodExecCommand s))
     (nt_call (td_Namespace t) (td_Name t) (option_word (BPFFilter t))) w (snd (Tcpdump now s ctx t w)) \<and>
   calls (both_step (nt_runDebugNodeCommand s) (nt_runPodExecCommand s))
     (nt_call (NodePodNamespace p) (NodeName p) (option_word (BPFFilter p))) w (snd (Pwru now s ctx p w))"
  by (intro conjI capture_handler_calls)

text \<open>\<^verbatim>\<open>tcpdump\<close> succeeds exactly when the target is complete, every parameter is within its
  bounds (zero standing for the default) and the executor for the target type succeeds; the result
  holds both output streams unchanged.\<close>

theorem Tcpdump_ok_iff:
  "Tcpdump now s ctx i w = ((r, None), w') \<longleftrightarrow>
     (let pc = (if PacketCount i = 0 then 100 else PacketCount i);
          sl = (if Snaplen i = 0 then 96 else Snaplen i);
          ctx' = fst (WithTimeout now (td_Timeout i) ctx);
          cmd = [''tcpdump'', ''-n'', ''-v'', ''-s'', Itoa sl, ''-c'', Itoa pc] @
            (if Interface i = [] then [] else [''-i'', Interface i]) @
            (if BPFFilter i = [] then [] else [BPFFilter i]) in
      td_Name i \<noteq> [] \<and> (Interface i = [] \<or> iface_ok (Interface i)) \<and> filter_ok (BPFFilter i) \<and>
      0 \<le> pc \<and> pc \<le> 1000 \<and> 0 \<le> sl \<and> sl \<le> 1500 \<and>
      (TargetType i = ''node'' \<and>
         nt_runDebugNodeCommand s ctx' (td_Namespace i) (td_Name i) (TcpdumpImage (nt_cfg s)) cmd [] [] 0 w =
           (Inr (Output r, Stderr r), w') \<or>
       TargetType i = ''pod'' \<and> td_Namespace i \<noteq> [] \<and>
         nt_runPodExecCommand s ctx' (td_Namespace i) (td_Name i) (ContainerName i) cmd w =
           (Inr (Output r, Stderr r), w')))"
proof -
  have c: "command_result x = ((r, None), w') \<longleftrightarrow> x = (Inr (Output r, Stderr r), w')" for x
    by (cases r) (auto simp: command_result_def split: prod.splits sum.splits)
  have p: "((CommandResult_zero, Some e), w) \<noteq> ((r, None), w')" for e by simp
  show ?thesis
    unfolding Tcpdump_def Let_def guard_handler_ok nt_valid Build_nt nt_limits c
    by (auto simp: c)
qed

definition injected_tcpdump :: TcpdumpParams where
  "injected_tcpdump = \<lparr>BPFFilter = ''-w/tmp/capture'', TargetType = ''node'', td_Name = ''worker-1'',
     td_Namespace = [], ContainerName = [], Interface = [], PacketCount = 5, Snaplen = 0,
     td_Timeout = \<lparr>TimeoutSeconds = 0\<rparr>\<rparr>"

text \<open>Claim C33: a filter that starts with a hyphen is passed on as an option. For every such filter without
  metacharacters, on a node and with the other parameters valid, \<^verbatim>\<open>tcpdump\<close> runs one command, in which the
  filter is a word of its own after the limits on packets and bytes.\<close>

theorem tcpdump_filter_may_be_option:
  assumes "option_word (BPFFilter i)" "filter_ok (BPFFilter i)"
    and "TargetType i = ''node''" "td_Name i \<noteq> []" "Interface i = [] \<or> iface_ok (Interface i)"
    and "PacketCount i \<in> {0..1000}" "Snaplen i \<in> {0..1500}"
  shows "snd (Tcpdump now s ctx i w) =
      snd (nt_runDebugNodeCommand s (fst (WithTimeout now (td_Timeout i) ctx)) (td_Namespace i) (td_Name i)
        (TcpdumpImage (nt_cfg s))
        ([''tcpdump'', ''-n'', ''-v'', ''-s'', Itoa (if Snaplen i = 0 then 96 else Snaplen i),
          ''-c'', Itoa (if PacketCount i = 0 then 100 else PacketCount i)] @
         (if Interface i = [] then [] else [''-i'', Interface i]) @ [BPFFilter i]) [] [] 0 w)"
proof -
  have f: "BPFFilter i \<noteq> []" using assms(1) by (auto simp: option_word_def)
  have v: "validateInterface (Interface i) = ok" "validatePacketFilter (BPFFilter i) = ok"
    "validateIntMax (if PacketCount i = 0 then DefaultPacketCount else PacketCount i) MaxPacketCount n u = ok"
    "validateIntMax (if Snaplen i = 0 then DefaultSnaplen else Snaplen i) MaxSnaplen n u = ok" for n u
    using assms by (auto simp: nt_valid nt_limits)
  have t: "tcpdump_target i = ok" using assms(3,4) by (simp add: nt_valid)
  show ?thesis
    unfolding Tcpdump_def Let_def t v option.case Build_nt using assms(3) f by (simp add: nt_limits)
qed

theorem tcpdump_filter_may_be_option_witness:
  "map nc_command (snd (Tcpdump 0 \<lparr>nt_runDebugNodeCommand = log_node (\<lambda>_. Inr ([], [])),
       nt_runPodExecCommand = (\<lambda>_ _ _ _ _ w. (Inr ([], []), w)),
       nt_cfg = \<lparr>PwruImage = ''pwru'', TcpdumpImage = ''netshoot''\<rparr>\<rparr> context_Background injected_tcpdump [])) =
   [[''tcpdump'', ''-n'', ''-v'', ''-s'', ''96'', ''-c'', ''5'', ''-w/tmp/capture'']]"
proof -
  have f: "filter_ok (BPFFilter injected_tcpdump)"
    unfolding validatePacketFilter_ok [symmetric] by code_simp
  have i: "Itoa 96 = ''96''" "Itoa 5 = ''5''" by code_simp+
  show ?thesis
    by (subst tcpdump_filter_may_be_option [OF _ f])
      (simp_all add: injected_tcpdump_def option_word_def log_node_def i)
qed

end
