(* ===== verification/SosReport.thy ===== *)
theory SosReport
  imports Exec "HOL-Library.Multiset"
begin

text \<open>
  The sosreport tools, \<^verbatim>\<open>pkg/sosreport\<close>: path validation, the manifest, listing and searching its
  commands, reading one command's output and one container's log.

  The file system is a record of the calls the code makes, as functions over an arbitrary world;
  decompression and the decoding of \<^verbatim>\<open>manifest.json\<close> are parameters of it. \<open>calls (fs_step fs)\<close> says which
  paths a tool touches. The manifest's plugins are a Go map: the order a loop visits them in
  is the argument \<open>iter\<close>, a rearrangement of the plugins.
\<close>

section \<open>The file system calls\<close>

record os_file =
  f_data :: string
  f_err :: "err option"

section \<open>Types\<close>

record CommandDetail =
  Exec :: string
  Filepath :: string

record FilesDetail =
  FilesCopied :: strs

record PluginDetail =
  Commands :: "CommandDetail list"
  Files :: "FilesDetail list"

type_synonym plugins = "(string \<times> PluginDetail) list"

record Manifest =
  Plugins :: plugins

record 'w os_fs =
  fs_NotExist :: "string \<Rightarrow> 'w \<Rightarrow> bool \<times> 'w"
  fs_Open :: "string \<Rightarrow> ('w, os_file) effect"
  fs_ReadFile :: "string \<Rightarrow> ('w, string) effect"
  fs_gunzip :: "os_file \<Rightarrow> os_file result"
  fs_Unmarshal :: "string \<Rightarrow> Manifest result"

datatype fs_call = StatCall string | OpenCall string | ReadFileCall string

definition fs_step :: "'w os_fs \<Rightarrow> fs_call \<Rightarrow> 'w \<Rightarrow> 'w" where
  "fs_step fs c w = (case c of
       StatCall p \<Rightarrow> snd (fs_NotExist fs p w)
     | OpenCall p \<Rightarrow> snd (fs_Open fs p w)
     | ReadFileCall p \<Rightarrow> snd (fs_ReadFile fs p w))"

fun call_path :: "fs_call \<Rightarrow> string" where
  "call_path (StatCall p) = p"
| "call_path (OpenCall p) = p"
| "call_path (ReadFileCall p) = p"

record CommandSummary =
  cs_Exec :: string
  cs_Filepath :: string

record CommandMatch =
  cm_Plugin :: string
  cm_Exec :: string
  cm_Filepath :: string

record PluginSummary =
  ps_Name :: string
  ps_CommandCount :: int

record ListPluginsResult =
  lp_Plugins :: "PluginSummary list"
  lp_TotalCommands :: int

record ListCommandsResult =
  lc_Plugin :: string
  lc_CommandCount :: int
  lc_Commands :: "CommandSummary list"

record SearchCommandsResult =
  sc_Matches :: "CommandMatch list"
  sc_Total :: int

definition sos_DefaultMaxLines :: int where "sos_DefaultMaxLines = 100"
definition DefaultMaxResults :: int where "DefaultMaxResults = 100"

section \<open>Validation and reading\<close>

definition sosPath_msg :: string where
  "sosPath_msg = ''sosreport path does not exist: %s''"

definition sosCommands_msg :: string where
  "sosCommands_msg = ''not a valid sosreport: missing sos_commands directory''"

definition sosManifest_msg :: string where
  "sosManifest_msg = ''not a valid sosreport: missing sos_reports/manifest.json''"

definition validateSosreportPath :: "'w os_fs \<Rightarrow> string \<Rightarrow> 'w \<Rightarrow> validation \<times> 'w" where
  "validateSosreportPath fs sosreportPath w =
     (case fs_NotExist fs sosreportPath w of
        (True, w1) \<Rightarrow> (Some (Errorf sosPath_msg [FStr sosreportPath]), w1)
      | (False, w1) \<Rightarrow>
     (case fs_NotExist fs (JoinPath [sosreportPath, ''sos_commands'']) w1 of
        (True, w2) \<Rightarrow> (Some (Errorf sosCommands_msg []), w2)
      | (False, w2) \<Rightarrow>
     (case fs_NotExist fs (JoinPath [sosreportPath, ''sos_reports'', ''manifest.json'']) w2 of
        (True, w3) \<Rightarrow> (Some (Errorf sosManifest_msg []), w3)
      | (False, w3) \<Rightarrow> (ok, w3))))"

definition validateRelativePath :: "string \<Rightarrow> validation" where
  "validateRelativePath relPath =
     (let cleanPath = Clean relPath in
      if Contains cleanPath ''..'' \<or> IsAbs cleanPath
      then Some (Errorf ''invalid path: path traversal not allowed'' []) else ok)"

text \<open>\<^verbatim>\<open>bufio.Scanner\<close> with a buffer of at most one MiB: lines end at a newline, a trailing carriage return is
  dropped, a last empty line is not a line, and a line that does not fit with its newline is an
  error.\<close>

definition maxToken :: int where
  "maxToken = 1024 * 1024"

definition token_too_long :: err where
  "token_too_long = ExtErr ''bufio.Scanner: token too long''"

definition dropCR :: "string \<Rightarrow> string" where
  "dropCR l = (if l \<noteq> [] \<and> last l = CHR 0x0D then butlast l else l)"

definition readLines :: "os_file \<Rightarrow> strs result" where
  "readLines f =
     (let ls = Split newline (f_data f);
          ls = (if last ls = [] then butlast ls else ls) in
      if list_ex (\<lambda>l. maxToken \<le> int (length l)) ls then Inl token_too_long
      else (case f_err f of Some e \<Rightarrow> Inl e | None \<Rightarrow> Inr (map dropCR ls)))"

definition loadManifest :: "'w os_fs \<Rightarrow> string \<Rightarrow> ('w, Manifest) effect" where
  "loadManifest fs sosreportPath w =
     (case fs_ReadFile fs (JoinPath [sosreportPath, ''sos_reports'', ''manifest.json'']) w of
        (Inl e, w') \<Rightarrow> (Inl (Errorf ''failed to read manifest.json: %w'' [FErr e]), w')
      | (Inr data, w') \<Rightarrow>
          (case fs_Unmarshal fs data of
             Inl e \<Rightarrow> (Inl (Errorf ''failed to parse manifest.json: %w'' [FErr e]), w')
           | Inr m \<Rightarrow> (Inr m, w')))"

text \<open>Reading an opened file under a pattern.\<close>

definition read_matched :: "compiler \<Rightarrow> PatternParams \<Rightarrow> os_file \<Rightarrow> ('w, strs) effect" where
  "read_matched compile p f =
     ExecuteWithMatch compile p
       (\<lambda>w. case readLines f of
          Inl e \<Rightarrow> (Inl e, w)
        | Inr fileLines \<Rightarrow> (Inr (StripEmptyLines fileLines), w)) True"

section \<open>Commands\<close>

definition noFile_msg :: string where
  "noFile_msg = ''command output file not found: %s''"

definition noMatch :: "string \<Rightarrow> string" where
  "noMatch quoted = ''No lines matching pattern '' @ quoted @ '' found'' @ [newline]"

text \<open>\<^verbatim>\<open>fmt.Sprintf\<close> under \<^verbatim>\<open>%q\<close> is the parameter \<open>quote\<close>.\<close>

definition getCommandOutput ::
  "(string \<Rightarrow> string) \<Rightarrow> compiler \<Rightarrow> 'w os_fs \<Rightarrow> string \<Rightarrow> string \<Rightarrow> PatternParams \<Rightarrow> HeadTailParams \<Rightarrow>
   ('w, string) effect" where
  "getCommandOutput quote compile fs sosreportPath relativeFilepath patternParams headTailParams w =
     (case validateSosreportPath fs sosreportPath w of
        (Some e, w1) \<Rightarrow> (Inl e, w1)
      | (None, w1) \<Rightarrow>
     (case validateRelativePath relativeFilepath of
        Some e \<Rightarrow> (Inl e, w1)
      | None \<Rightarrow>
          (let fullPath = JoinPath [sosreportPath, relativeFilepath] in
           case fs_NotExist fs fullPath w1 of
             (True, w2) \<Rightarrow> (Inl (Errorf noFile_msg [FStr relativeFilepath]), w2)
           | (False, w2) \<Rightarrow>
          (case fs_Open fs fullPath w2 of
             (Inl e, w3) \<Rightarrow> (Inl (Errorf ''failed to open file: %w'' [FErr e]), w3)
           | (Inr f, w3) \<Rightarrow>
          (case read_matched compile patternParams f w3 of
             (Inl e, w4) \<Rightarrow> (Inl e, w4)
           | (Inr lines, w4) \<Rightarrow>
               if length lines = 0 \<and> Pattern patternParams \<noteq> [] then
                 (Inr (noMatch (quote (Pattern patternParams))), w4)
               else (Inr (Join (Apply headTailParams lines sos_DefaultMaxLines) [newline]), w4))))))"

fun listPlugins_loop :: "plugins \<Rightarrow> PluginSummary list \<Rightarrow> int \<Rightarrow> ListPluginsResult" where
  "listPlugins_loop [] acc tot = \<lparr>lp_Plugins = acc, lp_TotalCommands = tot\<rparr>"
| "listPlugins_loop ((pluginName, plugin) # ps) acc tot =
     (let commandCount = int (length (Commands plugin)) in
      listPlugins_loop ps (acc @ [\<lparr>ps_Name = pluginName, ps_CommandCount = commandCount\<rparr>])
        (tot + commandCount))"

definition listPlugins :: "(plugins \<Rightarrow> plugins) \<Rightarrow> 'w os_fs \<Rightarrow> string \<Rightarrow> ('w, ListPluginsResult) effect" where
  "listPlugins iter fs sosreportPath w =
     (case loadManifest fs sosreportPath w of
        (Inl e, w') \<Rightarrow> (Inl e, w')
      | (Inr manifest, w') \<Rightarrow> (Inr (listPlugins_loop (iter (Plugins manifest)) [] 0), w'))"

definition listCommands :: "'w os_fs \<Rightarrow> string \<Rightarrow> string \<Rightarrow> ('w, ListCommandsResult) effect" where
  "listCommands fs sosreportPath pluginName w =
     (case loadManifest fs sosreportPath w of
        (Inl e, w') \<Rightarrow> (Inl e, w')
      | (Inr manifest, w') \<Rightarrow>
          (case map_of (Plugins manifest) pluginName of
             None \<Rightarrow> (Inl (Errorf ''plugin %q not found in manifest'' [FStr pluginName]), w')
           | Some plugin \<Rightarrow>
               (Inr \<lparr>lc_Plugin = pluginName, lc_CommandCount = int (length (Commands plugin)),
                  lc_Commands = map (\<lambda>cmd. \<lparr>cs_Exec = Exec cmd, cs_Filepath = Filepath cmd\<rparr>)
                    (Commands plugin)\<rparr>, w')))"

text \<open>One string matched against the pattern, as the loop does it: through \<open>ExecuteWithMatch\<close> on a
  one-element list.\<close>

definition match_one :: "compiler \<Rightarrow> PatternParams \<Rightarrow> string \<Rightarrow> strs result" where
  "match_one compile p s = fst (ExecuteWithMatch compile p (\<lambda>w. (Inr [s], w)) True ())"

fun search_cmds ::
  "compiler \<Rightarrow> PatternParams \<Rightarrow> int \<Rightarrow> string \<Rightarrow> CommandDetail list \<Rightarrow> CommandMatch list \<Rightarrow>
   (CommandMatch list \<times> bool) result" where
  "search_cmds compile p maxResults pluginName [] acc = Inr (acc, False)"
| "search_cmds compile p maxResults pluginName (cmd # cmds) acc =
     (case match_one compile p (Exec cmd) of
        Inl e \<Rightarrow> Inl e
      | Inr execMatches \<Rightarrow>
     (case match_one compile p (Filepath cmd) of
        Inl e \<Rightarrow> Inl e
      | Inr filepathMatches \<Rightarrow>
          if length execMatches = 1 \<or> length filepathMatches = 1 then
            (let acc' = acc @ [\<lparr>cm_Plugin = pluginName, cm_Exec = Exec cmd, cm_Filepath = Filepath cmd\<rparr>] in
             if int (length acc') \<ge> maxResults then Inr (acc', True)
             else search_cmds compile p maxResults pluginName cmds acc')
          else search_cmds compile p maxResults pluginName cmds acc))"

fun search_plugins ::
  "compiler \<Rightarrow> PatternParams \<Rightarrow> int \<Rightarrow> plugins \<Rightarrow> CommandMatch list \<Rightarrow> CommandMatch list result" where
  "search_plugins compile p maxResults [] acc = Inr acc"
| "search_plugins compile p maxResults ((pluginName, plugin) # ps) acc =
     (case search_cmds compile p maxResults pluginName (Commands plugin) acc of
        Inl e \<Rightarrow> Inl e
      | Inr (acc', done') \<Rightarrow>
          if done' then Inr acc' else search_plugins compile p maxResults ps acc')"

definition searchCommands ::
  "compiler \<Rightarrow> (plugins \<Rightarrow> plugins) \<Rightarrow> 'w os_fs \<Rightarrow> string \<Rightarrow> PatternParams \<Rightarrow> int \<Rightarrow>
   ('w, SearchCommandsResult) effect" where
  "searchCommands compile iter fs sosreportPath patternParams maxResults0 w =
     (case loadManifest fs sosreportPath w of
        (Inl e, w') \<Rightarrow> (Inl e, w')
      | (Inr manifest, w') \<Rightarrow>
          (let maxResults = (if maxResults0 \<le> 0 then DefaultMaxResults else maxResults0) in
           case search_plugins compile patternParams maxResults (iter (Plugins manifest)) [] of
             Inl e \<Rightarrow> (Inl e, w')
           | Inr ms \<Rightarrow> (Inr \<lparr>sc_Matches = ms, sc_Total = int (length ms)\<rparr>, w')))"

section \<open>Pod logs\<close>

definition hex_digit :: "char \<Rightarrow> bool" where
  "hex_digit c \<longleftrightarrow> is_digit c \<or> 65 \<le> code c \<and> code c \<le> 70 \<or> 97 \<le> code c \<and> code c \<le> 102"

definition parseContainerName :: "string \<Rightarrow> string option" where
  "parseContainerName remainder =
     (let idx = LastIndex remainder (CHR ''-'') in
      if idx \<le> 0 then None
      else (let containerName = take (nat idx) remainder;
                idPart = drop (nat idx + 1) remainder in
        if containerName = [] \<or> idPart = [] then None
        else if \<not> list_all hex_digit idPart then None
        else Some containerName))"

definition matchesContainerLogFile :: "string \<Rightarrow> string \<Rightarrow> string \<Rightarrow> string \<Rightarrow> bool" where
  "matchesContainerLogFile logPath namespace name container =
     (let base = TrimSuffix (Base logPath) ''.gz'' in
      if \<not> HasSuffix base ''.log'' then False
      else (let base = TrimSuffix base ''.log'';
                prefix' = name @ ''_'' @ namespace @ ''_'' in
        if \<not> HasPrefix base prefix' then False
        else (case parseContainerName (TrimPrefix base prefix') of
            None \<Rightarrow> False
          | Some containerName \<Rightarrow> if container = [] then True else containerName = container)))"

definition searchInFile ::
  "compiler \<Rightarrow> 'w os_fs \<Rightarrow> string \<Rightarrow> PatternParams \<Rightarrow> ('w, strs) effect" where
  "searchInFile compile fs filePath patternParams w =
     (case fs_Open fs filePath w of
        (Inl e, w') \<Rightarrow> (Inl e, w')
      | (Inr f, w') \<Rightarrow>
          if HasSuffix filePath ''.gz'' then
            (case fs_gunzip fs f of
               Inl e \<Rightarrow> (Inl (Errorf ''failed to create gzip reader: %w'' [FErr e]), w')
             | Inr g \<Rightarrow> read_matched compile patternParams g w')
          else read_matched compile patternParams f w')"

text \<open>The two nested loops stop at the first matching path.\<close>

fun first_path :: "(string \<Rightarrow> bool) \<Rightarrow> strs \<Rightarrow> string option" where
  "first_path P [] = None"
| "first_path P (logPath # ps) = (if \<not> P logPath then first_path P ps else Some logPath)"

fun first_log :: "(string \<Rightarrow> bool) \<Rightarrow> FilesDetail list \<Rightarrow> string option" where
  "first_log P [] = None"
| "first_log P (f # fs) = (case first_path P (FilesCopied f) of Some p \<Rightarrow> Some p | None \<Rightarrow> first_log P fs)"

definition noLogs_container :: "string \<Rightarrow> string \<Rightarrow> string \<Rightarrow> string" where
  "noLogs_container namespace name quoted =
     ''No pod logs found for pod '' @ namespace @ ''/'' @ name @ '' container '' @ quoted @ [newline]"

definition noLogs_pod :: "string \<Rightarrow> string \<Rightarrow> string" where
  "noLogs_pod namespace name = ''No pod logs found for pod '' @ namespace @ ''/'' @ name @ [newline]"

definition noLogs_content :: "string \<Rightarrow> string \<Rightarrow> string" where
  "noLogs_content namespace name =
     ''No log content found for pod '' @ namespace @ ''/'' @ name @ [newline]"

definition noLogs_any :: string where
  "noLogs_any = ''No pod logs found in sosreport'' @ [newline]"

definition noLogs_pattern :: "string \<Rightarrow> string" where
  "noLogs_pattern p = ''No matches found for pattern: '' @ p @ [newline]"

definition getPodLogs ::
  "(string \<Rightarrow> string) \<Rightarrow> compiler \<Rightarrow> 'w os_fs \<Rightarrow> string \<Rightarrow> string \<Rightarrow> string \<Rightarrow> string \<Rightarrow> PatternParams \<Rightarrow>
   HeadTailParams \<Rightarrow> ('w, string) effect" where
  "getPodLogs quote compile fs sosreportPath namespace name container patternParams headTailParams w =
     (if namespace = [] then (Inl (Errorf ''namespace is required'' []), w)
      else if name = [] then (Inl (Errorf ''name is required'' []), w)
      else (case loadManifest fs sosreportPath w of
        (Inl e, w1) \<Rightarrow> (Inl e, w1)
      | (Inr manifest, w1) \<Rightarrow>
          (case map_of (Plugins manifest) ''container_log'' of
             None \<Rightarrow> (Inr noLogs_any, w1)
           | Some containerLogPlugin \<Rightarrow>
               if length (Files containerLogPlugin) = 0 then (Inr noLogs_any, w1)
               else (case first_log (\<lambda>p. matchesContainerLogFile p namespace name container)
                   (Files containerLogPlugin) of
                 None \<Rightarrow>
                   (Inr (if container \<noteq> [] then noLogs_container namespace name (quote container)
                         else noLogs_pod namespace name), w1)
               | Some logPath \<Rightarrow>
                   (let fullPath = JoinPath [sosreportPath, TrimPrefix logPath ''host/''] in
                    case searchInFile compile fs fullPath patternParams w1 of
                      (Inl e, w2) \<Rightarrow> (Inl e, w2)
                    | (Inr result, w2) \<Rightarrow>
                        if length result = 0 then
                          (Inr (if Pattern patternParams \<noteq> [] then noLogs_pattern (Pattern patternParams)
                                else noLogs_content namespace name), w2)
                        else (Inr (Join (Apply headTailParams result sos_DefaultMaxLines) [newline]), w2))))))"

section \<open>Handlers\<close>

record ListPluginsParams =
  lpp_SosreportPath :: string

record ListCommandsParams =
  lcp_SosreportPath :: string
  lcp_Plugin :: string

record SearchCommandsParams =
  scp_SosreportPath :: string
  scp_Pattern :: PatternParams
  scp_MaxResults :: int

record GetCommandParams =
  gcp_SosreportPath :: string
  gcp_Filepath :: string
  gcp_Pattern :: PatternParams
  gcp_HeadTail :: HeadTailParams

record GetCommandResult =
  gc_Output :: string

record sos_GetPodLogsParams =
  spl_SosreportPath :: string
  spl_Name :: string
  spl_Namespace :: string
  spl_Container :: string
  spl_Pattern :: PatternParams
  spl_HeadTail :: HeadTailParams

record sos_GetPodLogsResult =
  spl_Output :: string

definition sos_ListPlugins ::
  "(plugins \<Rightarrow> plugins) \<Rightarrow> 'w os_fs \<Rightarrow> ListPluginsParams \<Rightarrow> 'w \<Rightarrow> ListPluginsResult handler_ret \<times> 'w" where
  "sos_ListPlugins iter fs inp w =
     (case listPlugins iter fs (lpp_SosreportPath inp) w of
        (Inl e, w') \<Rightarrow> ((\<lparr>lp_Plugins = [], lp_TotalCommands = 0\<rparr>, Some e), w')
      | (Inr result, w') \<Rightarrow> ((result, None), w'))"

definition sos_ListCommands ::
  "'w os_fs \<Rightarrow> ListCommandsParams \<Rightarrow> 'w \<Rightarrow> ListCommandsResult handler_ret \<times> 'w" where
  "sos_ListCommands fs inp w =
     (case listCommands fs (lcp_SosreportPath inp) (lcp_Plugin inp) w of
        (Inl e, w') \<Rightarrow> ((\<lparr>lc_Plugin = [], lc_CommandCount = 0, lc_Commands = []\<rparr>, Some e), w')
      | (Inr result, w') \<Rightarrow> ((result, None), w'))"

definition sos_SearchCommands ::
  "compiler \<Rightarrow> (plugins \<Rightarrow> plugins) \<Rightarrow> 'w os_fs \<Rightarrow> SearchCommandsParams \<Rightarrow> 'w \<Rightarrow>
   SearchCommandsResult handler_ret \<times> 'w" where
  "sos_SearchCommands compile iter fs inp w =
     (if Pattern (scp_Pattern inp) = [] then
        ((\<lparr>sc_Matches = [], sc_Total = 0\<rparr>, Some (Errorf ''pattern is required'' [])), w)
      else (case searchCommands compile iter fs (scp_SosreportPath inp) (scp_Pattern inp)
          (scp_MaxResults inp) w of
        (Inl e, w') \<Rightarrow> ((\<lparr>sc_Matches = [], sc_Total = 0\<rparr>, Some e), w')
      | (Inr result, w') \<Rightarrow> ((result, None), w')))"

definition sos_GetCommand ::
  "(string \<Rightarrow> string) \<Rightarrow> compiler \<Rightarrow> 'w os_fs \<Rightarrow> GetCommandParams \<Rightarrow> 'w \<Rightarrow>
   GetCommandResult handler_ret \<times> 'w" where
  "sos_GetCommand quote compile fs inp w =
     (case getCommandOutput quote compile fs (gcp_SosreportPath inp) (gcp_Filepath inp)
         (gcp_Pattern inp) (gcp_HeadTail inp) w of
        (Inl e, w') \<Rightarrow> ((\<lparr>gc_Output = []\<rparr>, Some e), w')
      | (Inr output, w') \<Rightarrow> ((\<lparr>gc_Output = output\<rparr>, None), w'))"

definition sos_GetPodLogs ::
  "(string \<Rightarrow> string) \<Rightarrow> compiler \<Rightarrow> 'w os_fs \<Rightarrow> sos_GetPodLogsParams \<Rightarrow> 'w \<Rightarrow>
   sos_GetPodLogsResult handler_ret \<times> 'w" where
  "sos_GetPodLogs quote compile fs inp w =
     (case getPodLogs quote compile fs (spl_SosreportPath inp) (spl_Namespace inp) (spl_Name inp)
         (spl_Container inp) (spl_Pattern inp) (spl_HeadTail inp) w of
        (Inl e, w') \<Rightarrow> ((\<lparr>spl_Output = []\<rparr>, Some e), w')
      | (Inr output, w') \<Rightarrow> ((\<lparr>spl_Output = output\<rparr>, None), w'))"

section \<open>Which paths the tools touch\<close>

lemma validateRelativePath_ok:
  assumes "validateRelativePath r = ok"
  shows "\<not> IsAbs r" "''..'' \<notin> set (clean_elems r)"
proof -
  have a: "\<not> IsAbs r" "\<not> Contains (Clean r) ''..''"
    using assms by (auto simp: validateRelativePath_def Let_def split: if_splits)
  then show "\<not> IsAbs r" by simp
  show "''..'' \<notin> set (clean_elems r)"
  proof
    assume d: "''..'' \<in> set (clean_elems r)"
    then have "Clean r = Join (clean_elems r) ''/''" using a(1) by (auto simp: Clean_def)
    then show False using a(2) sublist_Join [OF d, of "''/''"] by (simp add: Contains_iff)
  qed
qed

definition under :: "string \<Rightarrow> fs_call \<Rightarrow> bool" where
  "under root c \<longleftrightarrow> below root (call_path c)"

lemma sos_fixed_paths:
  "below root (JoinPath [root, ''sos_commands''])"
  "below root (JoinPath [root, ''sos_reports'', ''manifest.json''])"
proof -
  have "\<not> IsAbs ''sos_commands''" "''..'' \<notin> set (clean_elems ''sos_commands'')"
    "\<not> IsAbs ''sos_reports/manifest.json''" "''..'' \<notin> set (clean_elems ''sos_reports/manifest.json'')"
    by code_simp+
  then show "below root (JoinPath [root, ''sos_commands''])"
    "below root (JoinPath [root, ''sos_reports'', ''manifest.json''])"
    by (simp_all add: below_JoinPath JoinPath3)
qed

lemma fs_calls:
  "P (StatCall p) \<Longrightarrow> calls (fs_step fs) P w (snd (fs_NotExist fs p w))"
  "P (OpenCall p) \<Longrightarrow> calls (fs_step fs) P w (snd (fs_Open fs p w))"
  "P (ReadFileCall p) \<Longrightarrow> calls (fs_step fs) P w (snd (fs_ReadFile fs p w))"
  using calls_one [of P "StatCall p" "fs_step fs"] calls_one [of P "OpenCall p" "fs_step fs"]
    calls_one [of P "ReadFileCall p" "fs_step fs"] by (simp_all add: fs_step_def)

lemma snd_read_matched [simp]: "snd (read_matched compile p f w) = w"
  using ExecuteWithMatch_world [of compile p "\<lambda>w. case readLines f of
      Inl e \<Rightarrow> (Inl e, w) | Inr fileLines \<Rightarrow> (Inr (StripEmptyLines fileLines), w)" True w]
  by (auto simp: read_matched_def split: sum.splits)

lemma calls_read_matched: "calls st P w (snd (read_matched compile p f w))"
  by (simp add: calls.none)

lemma validateSosreportPath_calls:
  "calls (fs_step fs) (under root) w (snd (validateSosreportPath fs root w))"
  unfolding validateSosreportPath_def
  by (intro calls_seq calls_branches fs_calls; simp add: under_def sos_fixed_paths)

lemma loadManifest_calls: "calls (fs_step fs) (under root) w (snd (loadManifest fs root w))"
  unfolding loadManifest_def
  by (intro calls_seq calls_branches fs_calls; simp add: under_def sos_fixed_paths)

lemma getCommandOutput_calls:
  "calls (fs_step fs) (under root) w (snd (getCommandOutput quote compile fs root rel p ht w))"
  unfolding getCommandOutput_def Let_def
  by (intro calls_seq calls_branches fs_calls validateSosreportPath_calls calls_read_matched;
      simp add: under_def below_JoinPath validateRelativePath_ok)

lemma list_tools_calls:
  "calls (fs_step fs) (under root) w (snd (listPlugins iter fs root w))"
  "calls (fs_step fs) (under root) w (snd (listCommands fs root name w))"
  "calls (fs_step fs) (under root) w (snd (searchCommands compile iter fs root p mx w))"
  unfolding listPlugins_def listCommands_def searchCommands_def Let_def
  by (intro calls_seq calls_branches loadManifest_calls)+

section \<open>Searching the manifest\<close>

definition cmd_match :: "compiler \<Rightarrow> PatternParams \<Rightarrow> CommandDetail \<Rightarrow> bool" where
  "cmd_match compile p c \<longleftrightarrow> matches_pattern compile p (Exec c) \<or> matches_pattern compile p (Filepath c)"

definition plugin_matches :: "compiler \<Rightarrow> PatternParams \<Rightarrow> string \<Rightarrow> CommandDetail list \<Rightarrow> CommandMatch list" where
  "plugin_matches compile p n cmds =
     map (\<lambda>c. \<lparr>cm_Plugin = n, cm_Exec = Exec c, cm_Filepath = Filepath c\<rparr>) (filter (cmd_match compile p) cmds)"

definition all_matches :: "compiler \<Rightarrow> PatternParams \<Rightarrow> plugins \<Rightarrow> CommandMatch list" where
  "all_matches compile p ps = concat (map (\<lambda>(n, pl). plugin_matches compile p n (Commands pl)) ps)"

lemma match_one_ok:
  "pattern_ok compile p \<Longrightarrow> match_one compile p s = Inr (if matches_pattern compile p s then [s] else [])"
  by (auto simp: match_one_def ExecuteWithMatch_def pattern_ok_def matches_pattern_def split: sum.splits)

lemma match_one_err: "\<not> pattern_ok compile p \<Longrightarrow> \<exists>e. match_one compile p s = Inl e"
  by (auto simp: match_one_def ExecuteWithMatch_def pattern_ok_def split: sum.splits)

lemma search_cmds_ok:
  assumes "pattern_ok compile p" "int (length acc) < mx"
  shows "search_cmds compile p mx n cmds acc =
     (let ms = acc @ plugin_matches compile p n cmds in
      if int (length ms) \<ge> mx then Inr (take (nat mx) ms, True) else Inr (ms, False))"
  using assms(2)
proof (induction cmds arbitrary: acc)
  case (Cons c cmds)
  let ?m = "\<lparr>cm_Plugin = n, cm_Exec = Exec c, cm_Filepath = Filepath c\<rparr>"
  show ?case
  proof (cases "cmd_match compile p c")
    case True
    then have s: "search_cmds compile p mx n (c # cmds) acc =
        (if int (length (acc @ [?m])) \<ge> mx then Inr (acc @ [?m], True)
         else search_cmds compile p mx n cmds (acc @ [?m]))"
      using match_one_ok [OF assms(1)] by (auto simp: cmd_match_def Let_def)
    have m: "acc @ plugin_matches compile p n (c # cmds) = (acc @ [?m]) @ plugin_matches compile p n cmds"
      using True by (simp add: plugin_matches_def)
    show ?thesis
    proof (cases "int (length (acc @ [?m])) \<ge> mx")
      case True
      then have l: "nat mx = length (acc @ [?m])" using Cons.prems by simp
      have "take (nat mx) ((acc @ [?m]) @ plugin_matches compile p n cmds) = acc @ [?m]"
        unfolding l by simp
      moreover have "mx \<le> int (length ((acc @ [?m]) @ plugin_matches compile p n cmds))"
        using True by simp
      ultimately show ?thesis unfolding s m using True by (simp only: Let_def if_True)
    next
      case False
      then show ?thesis unfolding s m using Cons.IH [of "acc @ [?m]"] by simp
    qed
  next
    case False
    then have "search_cmds compile p mx n (c # cmds) acc = search_cmds compile p mx n cmds acc"
      using match_one_ok [OF assms(1)] by (auto simp: cmd_match_def)
    moreover have "plugin_matches compile p n (c # cmds) = plugin_matches compile p n cmds"
      using False by (simp add: plugin_matches_def)
    ultimately show ?thesis using Cons by simp
  qed
qed (simp add: plugin_matches_def Let_def)

lemma search_plugins_ok:
  assumes "pattern_ok compile p" "int (length acc) < mx"
  shows "search_plugins compile p mx ps acc = Inr (take (nat mx) (acc @ all_matches compile p ps))"
  using assms(2)
proof (induction ps arbitrary: acc)
  case (Cons x ps)
  obtain n pl where x: "x = (n, pl)" by (cases x)
  let ?ms = "acc @ plugin_matches compile p n (Commands pl)"
  have a: "acc @ all_matches compile p (x # ps) = ?ms @ all_matches compile p ps"
    by (simp add: x all_matches_def)
  show ?case
  proof (cases "int (length ?ms) \<ge> mx")
    case True
    then have "take (nat mx) (?ms @ all_matches compile p ps) = take (nat mx) ?ms" by simp
    with True show ?thesis unfolding a
      using search_cmds_ok [OF assms(1) Cons.prems, of n "Commands pl"] by (simp add: x Let_def)
  next
    case False
    then show ?thesis unfolding a
      using search_cmds_ok [OF assms(1) Cons.prems, of n "Commands pl"] Cons.IH [of ?ms]
      by (simp add: x Let_def)
  qed
qed (simp add: all_matches_def)

lemma search_plugins_err:
  assumes "\<not> pattern_ok compile p"
  shows "search_plugins compile p mx ps acc = Inr ms \<longleftrightarrow>
     list_all (\<lambda>(_, pl). Commands pl = []) ps \<and> ms = acc"
proof (induction ps)
  case (Cons x ps)
  obtain n pl where x: "x = (n, pl)" by (cases x)
  show ?case
  proof (cases "Commands pl")
    case Nil
    then show ?thesis using Cons x by auto
  next
    case (Cons c cs)
    obtain e where "match_one compile p (Exec c) = Inl e" using match_one_err [OF assms] by blast
    then show ?thesis using x Cons by simp
  qed
qed auto

lemma all_matches_none: "list_all (\<lambda>(_, pl). Commands pl = []) ps \<Longrightarrow> all_matches compile p ps = []"
  by (induction ps) (auto simp: all_matches_def plugin_matches_def)

lemma mset_all_matches:
  "mset ps = mset qs \<Longrightarrow> mset (all_matches compile p ps) = mset (all_matches compile p qs)"
proof -
  have "mset (all_matches compile p ps) =
      sum_mset (image_mset (\<lambda>(n, pl). mset (plugin_matches compile p n (Commands pl))) (mset ps))" for ps
    by (induction ps) (auto simp: all_matches_def)
  then show "mset ps = mset qs \<Longrightarrow> ?thesis" by simp
qed

lemma listPlugins_loop_eq:
  "listPlugins_loop ps acc tot =
     \<lparr>lp_Plugins = acc @ map (\<lambda>(n, pl). \<lparr>ps_Name = n, ps_CommandCount = int (length (Commands pl))\<rparr>) ps,
      lp_TotalCommands = tot + sum_list (map (\<lambda>(n, pl). int (length (Commands pl))) ps)\<rparr>"
  by (induction ps acc tot rule: listPlugins_loop.induct) (simp_all add: Let_def)

section \<open>Container log names\<close>

lemma append_sep_inject:
  fixes a b :: string
  shows "c \<notin> set a \<Longrightarrow> c \<notin> set b \<Longrightarrow> a @ c # x = b @ c # y \<longleftrightarrow> a = b \<and> x = y"
  by (metis Join_Split Split_append_sep list.inject append_same_eq same_append_eq)

lemma parseContainerName_ok:
  assumes "c \<noteq> []" "ident \<noteq> []" "list_all hex_digit ident"
  shows "parseContainerName (c @ ''-'' @ ident) = Some c"
proof -
  have "CHR ''-'' \<notin> set ident" using assms(3) by (auto simp: list_all_iff hex_digit_def is_digit_def)
  then have "LastIndex (c @ CHR ''-'' # ident) (CHR ''-'') = int (length c)"
    by (rule LastIndex_append)
  then show ?thesis using assms by (simp add: parseContainerName_def Let_def)
qed

definition log_file :: "string \<Rightarrow> string \<Rightarrow> string \<Rightarrow> string \<Rightarrow> string" where
  "log_file name ns c ident = name @ ''_'' @ ns @ ''_'' @ c @ ''-'' @ ident @ ''.log''"

lemma TrimSuffix_gz: "TrimSuffix (f @ ''.log'') ''.gz'' = f @ ''.log''"
proof -
  have "\<not> HasSuffix (f @ ''.log'') ''.gz''" by (auto simp: HasSuffix_iff suffix_def append_eq_append_conv2
      Cons_eq_append_conv append_eq_Cons_conv)
  then show ?thesis by (simp add: TrimSuffix_def)
qed

lemma first_path_find: "first_path P ps = find P ps"
  by (induction ps) auto

lemma find_append: "find P (xs @ ys) = (case find P xs of Some x \<Rightarrow> Some x | None \<Rightarrow> find P ys)"
  by (induction xs) auto

lemma first_log_find: "first_log P fs = find P (concat (map FilesCopied fs))"
  by (induction fs) (simp_all add: first_path_find find_append split: option.splits)


section \<open>Properties\<close>

lemma sos_handler_calls:
  "calls (fs_step fs) (under (lpp_SosreportPath l)) w (snd (sos_ListPlugins iter fs l w))"
  "calls (fs_step fs) (under (lcp_SosreportPath c)) w (snd (sos_ListCommands fs c w))"
  "calls (fs_step fs) (under (scp_SosreportPath s)) w (snd (sos_SearchCommands compile iter fs s w))"
  "calls (fs_step fs) (under (gcp_SosreportPath g)) w (snd (sos_GetCommand quote compile fs g w))"
  unfolding sos_GetCommand_def sos_ListPlugins_def sos_ListCommands_def sos_SearchCommands_def
  by (intro calls_case_result calls_if calls_pair getCommandOutput_calls list_tools_calls)+

text \<open>Claim C11: \<^verbatim>\<open>sos-get-command\<close> and the listing and search tools touch only paths below the sosreport
  directory the client named, whatever file path, plugin or pattern it sends.\<close>

theorem sos_tools_stay_below_root:
  "calls (fs_step fs) (under (gcp_SosreportPath g)) w (snd (sos_GetCommand quote compile fs g w)) \<and>
   calls (fs_step fs) (under (lpp_SosreportPath l)) w (snd (sos_ListPlugins iter fs l w)) \<and>
   calls (fs_step fs) (under (lcp_SosreportPath c)) w (snd (sos_ListCommands fs c w)) \<and>
   calls (fs_step fs) (under (scp_SosreportPath s)) w (snd (sos_SearchCommands compile iter fs s w))"
  by (intro conjI sos_handler_calls)

text \<open>\<^verbatim>\<open>sos-search-commands\<close> succeeds exactly when a pattern is given, the manifest loads and the
  pattern compiles (or there is no command to match), and it returns the first \<^verbatim>\<open>max_results\<close>
  (100 when not positive) of the commands whose exec or file path matches, in the order visited,
  with their number.\<close>

theorem sos_SearchCommands_ok_iff:
  "sos_SearchCommands compile iter fs i w = ((r, None), w') \<longleftrightarrow>
     Pattern (scp_Pattern i) \<noteq> [] \<and>
     (\<exists>m. loadManifest fs (scp_SosreportPath i) w = (Inr m, w') \<and>
       (pattern_ok compile (scp_Pattern i) \<or> list_all (\<lambda>(_, pl). Commands pl = []) (iter (Plugins m))) \<and>
       (let ms = take (nat (if scp_MaxResults i \<le> 0 then 100 else scp_MaxResults i))
            (all_matches compile (scp_Pattern i) (iter (Plugins m))) in
        r = \<lparr>sc_Matches = ms, sc_Total = int (length ms)\<rparr>))"
proof -
  let ?mx = "if scp_MaxResults i \<le> 0 then DefaultMaxResults else scp_MaxResults i"
  have s: "search_plugins compile (scp_Pattern i) ?mx ps [] = Inr ms \<longleftrightarrow>
      (pattern_ok compile (scp_Pattern i) \<or> list_all (\<lambda>(_, pl). Commands pl = []) ps) \<and>
      ms = take (nat (if scp_MaxResults i \<le> 0 then 100 else scp_MaxResults i))
        (all_matches compile (scp_Pattern i) ps)" for ps ms
  proof (cases "pattern_ok compile (scp_Pattern i)")
    case True
    then show ?thesis
      using search_plugins_ok [OF True, of "[]" ?mx ps] by (auto simp: DefaultMaxResults_def)
  next
    case False
    then show ?thesis
      unfolding search_plugins_err [OF False] using all_matches_none [of ps compile "scp_Pattern i"] by auto
  qed
  have "searchCommands compile iter fs (scp_SosreportPath i) (scp_Pattern i) (scp_MaxResults i) w = (Inr r, w')
      \<longleftrightarrow> (\<exists>m ms. loadManifest fs (scp_SosreportPath i) w = (Inr m, w') \<and>
        search_plugins compile (scp_Pattern i) ?mx (iter (Plugins m)) [] = Inr ms \<and>
        r = \<lparr>sc_Matches = ms, sc_Total = int (length ms)\<rparr>)"
    by (auto simp: searchCommands_def Let_def split: prod.splits sum.splits)
  then show ?thesis
    unfolding s by (auto simp: sos_SearchCommands_def Let_def split: prod.splits sum.splits)
qed

text \<open>Claim C31: what the order in which Go visits the plugin map can change in a search. For two orders,
  \<^verbatim>\<open>sos-search-commands\<close> succeeds under both or under neither and touches the same files; the number of
  matches reported is the same, and while it is below \<^verbatim>\<open>max_results\<close> (100 when not positive) the matches are
  the same up to order. When the search is cut off at \<^verbatim>\<open>max_results\<close> the order may decide which it returns.\<close>

theorem sos_search_order:
  assumes "\<forall>ps. mset (iter ps) = mset ps" "\<forall>ps. mset (iter' ps) = mset ps"
    and "sos_SearchCommands compile iter fs i w = ((r, None), w')"
  shows "\<exists>r'. sos_SearchCommands compile iter' fs i w = ((r', None), w') \<and> sc_Total r' = sc_Total r \<and>
    (sc_Total r < (if scp_MaxResults i \<le> 0 then 100 else scp_MaxResults i) \<longrightarrow> mset (sc_Matches r') = mset (sc_Matches r))"
proof -
  let ?mx = "if scp_MaxResults i \<le> 0 then 100 else scp_MaxResults i"
  obtain m where p: "Pattern (scp_Pattern i) \<noteq> []" and m: "loadManifest fs (scp_SosreportPath i) w = (Inr m, w')"
    and o: "pattern_ok compile (scp_Pattern i) \<or> list_all (\<lambda>(_, pl). Commands pl = []) (iter (Plugins m))"
    and r: "sc_Matches r = take (nat ?mx) (all_matches compile (scp_Pattern i) (iter (Plugins m)))"
      "sc_Total r = int (length (sc_Matches r))"
    using assms(3) unfolding sos_SearchCommands_ok_iff Let_def by auto
  let ?a = "all_matches compile (scp_Pattern i) (iter (Plugins m))"
  let ?b = "all_matches compile (scp_Pattern i) (iter' (Plugins m))"
  have e: "mset (iter (Plugins m)) = mset (iter' (Plugins m))" using assms(1,2) by simp
  have ab: "mset ?a = mset ?b" "length ?a = length ?b"
    using mset_all_matches [OF e, of compile "scp_Pattern i"] mset_eq_length by blast+
  have "pattern_ok compile (scp_Pattern i) \<or> list_all (\<lambda>(_, pl). Commands pl = []) (iter' (Plugins m))"
    using o mset_eq_setD [OF e] by (simp add: list_all_iff)
  then have s: "sos_SearchCommands compile iter' fs i w =
      ((\<lparr>sc_Matches = take (nat ?mx) ?b, sc_Total = int (length (take (nat ?mx) ?b))\<rparr>, None), w')"
    unfolding sos_SearchCommands_ok_iff Let_def using p m by blast
  have t: "sc_Total r = int (length (take (nat ?mx) ?b))" unfolding r using ab(2) by simp
  have "mset (take (nat ?mx) ?b) = mset (sc_Matches r)" if "sc_Total r < ?mx"
  proof -
    have "length ?b \<le> nat ?mx" using that unfolding t by (simp add: min_def split: if_splits)
    then show ?thesis using ab by (simp add: r(1))
  qed
  then show ?thesis using s t by fastforce
qed

definition two_plugins :: Manifest where
  "two_plugins = \<lparr>Plugins = [(''networking'', \<lparr>Commands = [\<lparr>Exec = ''ip route'', Filepath = ''sos_commands/ip_route''\<rparr>], Files = []\<rparr>),
     (''kernel'', \<lparr>Commands = [\<lparr>Exec = ''uname -a'', Filepath = ''sos_commands/uname''\<rparr>], Files = []\<rparr>)]\<rparr>"

text \<open>a container log file named \<^verbatim>\<open><pod>_<namespace>_<container>-<id>.log\<close>, compressed or not and in
  any directory, is matched by a query exactly when pod and namespace are the same and the
  query's container is empty or the same.\<close>

theorem container_log_match:
  assumes "CHR ''_'' \<notin> set (name @ ns @ name' @ ns')" "c \<noteq> []" "ident \<noteq> []" "list_all hex_digit ident"
    "slash \<notin> set (log_file name ns c ident)" "sfx \<in> {'''', ''.gz''}"
  shows "matchesContainerLogFile (dir @ ''/'' @ log_file name ns c ident @ sfx) ns' name' c' \<longleftrightarrow>
     name' = name \<and> ns' = ns \<and> (c' = [] \<or> c' = c)"
proof -
  let ?b = "name @ CHR ''_'' # ns @ CHR ''_'' # c @ CHR ''-'' # ident"
  have f: "log_file name ns c ident = ?b @ ''.log''" by (simp add: log_file_def)
  have base: "Base (dir @ ''/'' @ log_file name ns c ident @ sfx) = log_file name ns c ident @ sfx"
    using Base_dir [of "log_file name ns c ident @ sfx" dir] assms(5,6) by (auto simp: log_file_def)
  have trim: "TrimSuffix (log_file name ns c ident @ sfx) ''.gz'' = ?b @ ''.log''"
    using assms(6) TrimSuffix_gz [of ?b] TrimSuffix_append [of "?b @ ''.log''" "''.gz''"] unfolding f by auto
  have pre: "HasPrefix ?b (name' @ ''_'' @ ns' @ ''_'') \<longleftrightarrow> name' = name \<and> ns' = ns"
  proof
    assume "HasPrefix ?b (name' @ ''_'' @ ns' @ ''_'')"
    then obtain z where "?b = name' @ CHR ''_'' # (ns' @ CHR ''_'' # z)"
      by (auto simp: HasPrefix_iff prefix_def)
    then have "name = name'" "ns @ CHR ''_'' # c @ CHR ''-'' # ident = ns' @ CHR ''_'' # z"
      using assms(1) append_sep_inject [of "CHR ''_''" name name'] by auto
    then show "name' = name \<and> ns' = ns"
      using assms(1) append_sep_inject [of "CHR ''_''" ns ns'] by auto
  qed (auto simp: HasPrefix_iff)
  have rest: "parseContainerName (TrimPrefix ?b (name @ ''_'' @ ns @ ''_'')) = Some c"
    using parseContainerName_ok [OF assms(2-4)] TrimPrefix_append [of "name @ ''_'' @ ns @ ''_''" "c @ ''-'' @ ident"]
    by simp
  have "HasSuffix (?b @ ''.log'') ''.log''"
    using suffixI [OF refl, of "''.log''" ?b] by (simp only: HasSuffix_iff)
  then show ?thesis
    unfolding matchesContainerLogFile_def base trim Let_def TrimSuffix_append pre using rest by auto
qed

theorem container_log_match_witness:
  "matchesContainerLogFile (''host/var/log/containers'' @ ''/'' @
     log_file ''ovnkube-node-abc'' ''openshift-ovn'' ''nbdb'' ''0a9f'' @ ''.gz'') ''openshift-ovn'' ''ovnkube-node-abc'' []"
proof -
  have "CHR ''_'' \<notin> set (''ovnkube-node-abc'' @ ''openshift-ovn'' @ ''ovnkube-node-abc'' @ ''openshift-ovn'')"
    "list_all hex_digit ''0a9f''" "slash \<notin> set (log_file ''ovnkube-node-abc'' ''openshift-ovn'' ''nbdb'' ''0a9f'')"
    by code_simp+
  from container_log_match [OF this(1) _ _ this(2,3), of "''.gz''" "''host/var/log/containers''" "[]"]
  show ?thesis by simp
qed

section \<open>Pod log paths\<close>

text \<open>A path that climbs from a directory to the root and down to a file.\<close>

definition climb :: "string \<Rightarrow> string \<Rightarrow> string" where
  "climb base target = concat (replicate (length (clean_elems base)) ''../'') @ tl target"

lemma Split_dots: "Split slash (concat (replicate n ''../'') @ u) = replicate n ''..'' @ Split slash u"
  by (induction n) (simp_all add: Split_append [of slash "''..''", simplified])

lemma clean_run_climb:
  "''..'' \<notin> set st \<Longrightarrow> clean_run True st (replicate (length st) ''..'') = []"
  by (induction st) auto

lemma JoinPath_climb:
  assumes "IsAbs base" "IsAbs target" "Clean target = target"
  shows "JoinPath [base, climb base target] = target"
proof -
  obtain u where u: "target = slash # u" using assms(2) by (cases target) (auto simp: IsAbs_def HasPrefix_def)
  have b: "base \<noteq> []" using assms(1) by (auto simp: IsAbs_def HasPrefix_def)
  have "clean_run True (rev (clean_elems base)) (replicate (length (clean_elems base)) ''..'') = []"
    using clean_run_climb [of "rev (clean_elems base)"] clean_elems_abs_no_dotdot [OF assms(1)] by simp
  then have "clean_elems (base @ slash # climb base target) = rev (clean_run True [] (Split slash u))"
    using assms(1) by (simp add: clean_elems_append_slash [OF b] climb_def Split_dots clean_run_append u)
  also have "\<dots> = clean_elems target" using assms(2) by (simp add: clean_elems_def u)
  finally have "JoinPath [base, climb base target] = Clean target"
    using assms(1,2) IsAbs_append [OF b, of "slash # climb base target"] by (simp add: JoinPath2 [OF b] Clean_def)
  then show ?thesis using assms(3) by simp
qed

lemma snd_searchInFile: "snd (searchInFile compile fs p q w) = snd (fs_Open fs p w)"
proof -
  have "snd (read_matched compile q f v) = v" for f v
    using ExecuteWithMatch_world [of compile q "\<lambda>w. case readLines f of Inl e \<Rightarrow> (Inl e, w)
        | Inr fileLines \<Rightarrow> (Inr (StripEmptyLines fileLines), w)" True v]
    by (auto simp: read_matched_def split: sum.splits)
  then show ?thesis by (auto simp: searchInFile_def split: prod.splits sum.splits)
qed

text \<open>Claim C35: \<^verbatim>\<open>sos-get-pod-logs\<close> joins the manifest's log path to the report directory without the
  traversal check. For every absolute report directory other than the root and every file of the file
  system, if the first log path of the manifest that matches the request climbs out of the report to that file, the
  tool, after loading the manifest, opens exactly that file.\<close>

theorem sos_pod_logs_leave_root:
  assumes "IsAbs (spl_SosreportPath i)" "clean_elems (spl_SosreportPath i) \<noteq> []" "IsAbs file" "Clean file = file"
    and "spl_Namespace i \<noteq> []" "spl_Name i \<noteq> []"
    and "loadManifest fs (spl_SosreportPath i) w = (Inr m, w1)" "map_of (Plugins m) ''container_log'' = Some pl"
    and "first_log (\<lambda>p. matchesContainerLogFile p (spl_Namespace i) (spl_Name i) (spl_Container i)) (Files pl) =
      Some (climb (spl_SosreportPath i) file)"
  shows "snd (sos_GetPodLogs quote compile fs i w) = snd (fs_Open fs file w1)"
proof -
  let ?root = "spl_SosreportPath i"
  obtain n where "length (clean_elems ?root) = Suc n" using assms(2) by (cases "length (clean_elems ?root)") auto
  then have "\<exists>x. climb ?root file = CHR ''.'' # x" by (simp add: climb_def)
  then have "TrimPrefix (climb ?root file) ''host/'' = climb ?root file"
    by (auto simp: TrimPrefix_def HasPrefix_def)
  then have p: "JoinPath [?root, TrimPrefix (climb ?root file) ''host/''] = file"
    using JoinPath_climb [OF assms(1,3,4)] by simp
  have f: "Files pl \<noteq> []" using assms(9) by auto
  have "snd (getPodLogs quote compile fs ?root (spl_Namespace i) (spl_Name i) (spl_Container i) (spl_Pattern i) (spl_HeadTail i) w) =
      snd (searchInFile compile fs file (spl_Pattern i) w1)"
    unfolding getPodLogs_def using assms(5-9) f by (auto simp: p Let_def split: prod.splits sum.splits)
  then show ?thesis
    unfolding sos_GetPodLogs_def snd_searchInFile by (auto split: prod.splits sum.splits)
qed

definition evil_manifest :: Manifest where
  "evil_manifest = \<lparr>Plugins = [(''container_log'', \<lparr>Commands = [],
     Files = [\<lparr>FilesCopied = [''../../etc/pod_ns_app-0a1b.log'']\<rparr>]\<rparr>)]\<rparr>"

definition evil_fs :: "strs os_fs" where
  "evil_fs = \<lparr>fs_NotExist = (\<lambda>p w. (False, w)), fs_Open = (\<lambda>p w. (Inr \<lparr>f_data = ''x'', f_err = None\<rparr>, w @ [p])),
     fs_ReadFile = (\<lambda>p w. (Inr [], w)), fs_gunzip = Inr, fs_Unmarshal = (\<lambda>_. Inr evil_manifest)\<rparr>"

definition evil_request :: sos_GetPodLogsParams where
  "evil_request = \<lparr>spl_SosreportPath = ''/srv/report'', spl_Name = ''pod'', spl_Namespace = ''ns'', spl_Container = [],
     spl_Pattern = \<lparr>Pattern = []\<rparr>, spl_HeadTail = \<lparr>Head = 0, Tail = 0, ApplyTailFirst = False\<rparr>\<rparr>"

theorem sos_pod_logs_leave_root_witness:
  "snd (sos_GetPodLogs id (\<lambda>_. Inr (\<lambda>_. True)) evil_fs evil_request []) = [''/etc/pod_ns_app-0a1b.log''] \<and>
   \<not> below ''/srv/report'' ''/etc/pod_ns_app-0a1b.log''"
proof -
  let ?f = "''/etc/pod_ns_app-0a1b.log''"
  have h: "IsAbs (spl_SosreportPath evil_request)" "clean_elems (spl_SosreportPath evil_request) \<noteq> []" "IsAbs ?f" "Clean ?f = ?f"
    "spl_Namespace evil_request \<noteq> []" "spl_Name evil_request \<noteq> []" by code_simp+
  have l: "loadManifest evil_fs (spl_SosreportPath evil_request) [] = (Inr evil_manifest, [])" by code_simp
  have c: "map_of (Plugins evil_manifest) ''container_log'' =
      Some \<lparr>Commands = [], Files = [\<lparr>FilesCopied = [''../../etc/pod_ns_app-0a1b.log'']\<rparr>]\<rparr>" by code_simp
  have g: "first_log (\<lambda>p. matchesContainerLogFile p (spl_Namespace evil_request) (spl_Name evil_request) (spl_Container evil_request))
      (Files \<lparr>Commands = [], Files = [\<lparr>FilesCopied = [''../../etc/pod_ns_app-0a1b.log'']\<rparr>]\<rparr>) =
      Some (climb (spl_SosreportPath evil_request) ?f)" by code_simp
  have b: "\<not> below ''/srv/report'' ?f" by code_simp
  show ?thesis
    unfolding sos_pod_logs_leave_root [OF h l c g] using b by (simp add: evil_fs_def)
qed

definition plugins_fs :: "unit os_fs" where
  "plugins_fs = \<lparr>fs_NotExist = (\<lambda>p w. (False, w)), fs_Open = (\<lambda>p w. (Inl (ExtErr ''ENOENT''), w)),
     fs_ReadFile = (\<lambda>p w. (Inr [], w)), fs_gunzip = Inr, fs_Unmarshal = (\<lambda>_. Inr two_plugins)\<rparr>"

definition search_all :: SearchCommandsParams where
  "search_all = \<lparr>scp_SosreportPath = ''/srv/report'', scp_Pattern = \<lparr>Pattern = ''sos''\<rparr>, scp_MaxResults = 10\<rparr>"

theorem sos_search_order_witness:
  "\<exists>r'. sos_SearchCommands (\<lambda>_. Inr (\<lambda>_. True)) rev plugins_fs search_all () = ((r', None), ()) \<and> sc_Total r' = 2 \<and>
    mset (sc_Matches r') = mset (sc_Matches (fst (fst (sos_SearchCommands (\<lambda>_. Inr (\<lambda>_. True)) id plugins_fs search_all ()))))"
proof -
  let ?x = "sos_SearchCommands (\<lambda>_. Inr (\<lambda>_. True)) id plugins_fs search_all ()"
  have x: "?x = ((fst (fst ?x), None), ())" "sc_Total (fst (fst ?x)) = 2" "scp_MaxResults search_all = 10" by code_simp+
  from sos_search_order [OF _ _ x(1), of rev] show ?thesis unfolding x(2,3) by simp
qed

end
