(* ===== verification/KubeTypes.thy ===== *)
theory KubeTypes
  imports GoStrings
begin

text \<open>
  The output parameters the Kubernetes and the must-gather tools share,
  \<^verbatim>\<open>pkg/kubernetes/types/common.go\<close>. The JSONPath parser of client-go is the parameter \<open>parse\<close>.
\<close>

definition YAMLOutputType :: string where "YAMLOutputType = ''yaml''"
definition JSONOutputType :: string where "JSONOutputType = ''json''"
definition JSONPathOutputType :: string where "JSONPathOutputType = ''jsonpath''"
definition WideOutputType :: string where "WideOutputType = ''wide''"

lemmas output_types = YAMLOutputType_def JSONOutputType_def JSONPathOutputType_def WideOutputType_def

record OutputParams =
  OutputType :: string

record GetParams =
  gp_Name :: string
  gp_Namespace :: string
  gp_OutputParams :: OutputParams

record ListParams =
  lp_Namespace :: string
  lp_LabelSelector :: string
  lp_OutputParams :: OutputParams

definition ValidateOutputParams :: "(string \<Rightarrow> err option) \<Rightarrow> OutputParams \<Rightarrow> validation" where
  "ValidateOutputParams parse o' =
     (if OutputType o' \<noteq> [] \<and> OutputType o' \<noteq> YAMLOutputType \<and> OutputType o' \<noteq> JSONOutputType \<and>
         OutputType o' \<noteq> WideOutputType \<and> \<not> HasPrefix (OutputType o') (JSONPathOutputType @ ''='') then
        Some (Errorf ''invalid output_type: %s'' [FStr (OutputType o')])
      else (case CutPrefix (OutputType o') (JSONPathOutputType @ ''='') of
          None \<Rightarrow> ok
        | Some jsonPathTemplate \<Rightarrow>
            (case parse jsonPathTemplate of
               Some e \<Rightarrow> Some (Errorf ''invalid json_path_template: %s, error: %w''
                 [FStr jsonPathTemplate, FErr e])
             | None \<Rightarrow> ok)))"

lemma ValidateOutputParams_ok:
  "ValidateOutputParams parse p = ok \<longleftrightarrow>
     OutputType p \<in> {'''', ''yaml'', ''json'', ''wide''} \<or>
     (\<exists>t. OutputType p = ''jsonpath='' @ t \<and> parse t = None)"
proof (cases "CutPrefix (OutputType p) (JSONPathOutputType @ ''='')")
  case None
  then have n: "\<not> HasPrefix (OutputType p) (JSONPathOutputType @ ''='')" by (simp add: CutPrefix_None)
  then have "\<nexists>t. OutputType p = ''jsonpath='' @ t"
    by (auto simp: HasPrefix_iff JSONPathOutputType_def)
  with None n show ?thesis by (auto simp: ValidateOutputParams_def output_types)
next
  case (Some t)
  then have e: "OutputType p = ''jsonpath='' @ t" by (simp add: CutPrefix_Some JSONPathOutputType_def)
  then have "HasPrefix (OutputType p) (JSONPathOutputType @ ''='')"
    by (auto simp: HasPrefix_iff JSONPathOutputType_def)
  with Some show ?thesis
    by (cases "parse t") (auto simp: ValidateOutputParams_def e)
qed

definition output_ok :: "(string \<Rightarrow> err option) \<Rightarrow> OutputParams \<Rightarrow> bool" where
  "output_ok parse p \<longleftrightarrow> OutputType p \<in> {[], ''yaml'', ''json'', ''wide''} \<or>
     (\<exists>t. OutputType p = ''jsonpath='' @ t \<and> parse t = None)"

lemma ValidateOutputParams_output_ok: "ValidateOutputParams parse p = None \<longleftrightarrow> output_ok parse p"
  by (simp only: ValidateOutputParams_ok output_ok_def)

end
