(* ===== verification/Transition.thy ===== *)
theory Transition
  imports Main
begin

text \<open>
  Labelled step relations: the runs whose labels satisfy a predicate, invariants along them, and what
  happens on every run. The locales \<open>kept\<close> and \<open>descent\<close> are the two contracts the state machines of the
  library meet: a set of states that steps do not leave, and a measure that decreases until a goal. \<open>within step goal k s\<close> says
  that every run from \<open>s\<close> has reached the goal after at most \<open>k\<close> steps.
\<close>

section \<open>Runs\<close>

inductive runs :: "('l \<Rightarrow> 's \<Rightarrow> 's \<Rightarrow> bool) \<Rightarrow> ('l \<Rightarrow> bool) \<Rightarrow> 's \<Rightarrow> 's \<Rightarrow> bool" for step ok where
  start: "runs step ok s s"
| more: "runs step ok s t \<Longrightarrow> step l t u \<Longrightarrow> ok l \<Longrightarrow> runs step ok s u"

lemma runs_one: "step l s t \<Longrightarrow> ok l \<Longrightarrow> runs step ok s t"
  by (rule runs.more [OF runs.start])

lemma runs_trans [trans]: "runs step ok s t \<Longrightarrow> runs step ok t u \<Longrightarrow> runs step ok s u"
  by (rotate_tac, induction rule: runs.induct) (auto intro: runs.more)

lemma runs_mono: "runs step ok s t \<Longrightarrow> (\<And>l. ok l \<Longrightarrow> ok' l) \<Longrightarrow> runs step ok' s t"
  by (induction rule: runs.induct) (auto intro: runs.intros)

text \<open>Every run of permitted steps from the state reaches the goal, and none stops before it.\<close>

inductive inevitable :: "('l \<Rightarrow> 's \<Rightarrow> 's \<Rightarrow> bool) \<Rightarrow> ('l \<Rightarrow> bool) \<Rightarrow> ('s \<Rightarrow> bool) \<Rightarrow> 's \<Rightarrow> bool" for step ok goal where
  now: "goal s \<Longrightarrow> inevitable step ok goal s"
| later: "\<exists>l t. ok l \<and> step l s t \<Longrightarrow> (\<And>l t. ok l \<Longrightarrow> step l s t \<Longrightarrow> inevitable step ok goal t) \<Longrightarrow>
    inevitable step ok goal s"

lemma inevitable_reached: "inevitable step ok goal s \<Longrightarrow> \<exists>t. runs step ok s t \<and> goal t"
proof (induction rule: inevitable.induct)
  case (later s)
  then obtain l t where t: "ok l" "step l s t" by blast
  with later(3) obtain u where "runs step ok t u" "goal u" by blast
  with t show ?case using runs_trans [OF runs_one] by metis
qed (auto intro: runs.start)

text \<open>Every run of an unlabelled step relation reaches the goal in at most so many steps, and none stops
  before it.\<close>

fun within :: "('s \<Rightarrow> 's \<Rightarrow> bool) \<Rightarrow> ('s \<Rightarrow> bool) \<Rightarrow> nat \<Rightarrow> 's \<Rightarrow> bool" where
  "within step goal 0 s \<longleftrightarrow> goal s"
| "within step goal (Suc k) s \<longleftrightarrow> goal s \<or> (\<exists>t. step s t) \<and> (\<forall>t. step s t \<longrightarrow> within step goal k t)"

lemma within_goal: "goal s \<Longrightarrow> within step goal k s"
  by (cases k) simp_all

lemma within_measure:
  assumes moves: "\<And>s. I s \<Longrightarrow> \<exists>t. step s t"
    and descends: "\<And>s t. I s \<Longrightarrow> step s t \<Longrightarrow> I t \<and> m t < m s \<or> goal t"
  shows "I s \<Longrightarrow> m s < k \<Longrightarrow> within step goal k s"
proof (induction k arbitrary: s)
  case (Suc k)
  have "within step goal k t" if "step s t" for t
    using descends [OF Suc.prems(1) that] Suc.IH [of t] Suc.prems(2) within_goal by fastforce
  then show ?case using moves [OF Suc.prems(1)] by auto
qed simp

section \<open>Contracts\<close>

locale kept =
  fixes step :: "'l \<Rightarrow> 's \<Rightarrow> 's \<Rightarrow> bool" and ok :: "'l \<Rightarrow> bool" and I :: "'s \<Rightarrow> bool"
  assumes keeps: "step l s t \<Longrightarrow> ok l \<Longrightarrow> I s \<Longrightarrow> I t"
begin

lemma runs_keep: "runs step ok s t \<Longrightarrow> I s \<Longrightarrow> I t"
  by (induction rule: runs.induct) (auto intro: keeps)

end

locale descent = kept +
  fixes goal :: "'s \<Rightarrow> bool" and m :: "'s \<Rightarrow> nat"
  assumes descends: "step l s t \<Longrightarrow> ok l \<Longrightarrow> I s \<Longrightarrow> \<not> goal s \<Longrightarrow> m t < m s"
    and moves: "I s \<Longrightarrow> \<not> goal s \<Longrightarrow> \<exists>l t. ok l \<and> step l s t"
begin

lemma reaches_goal: "I s \<Longrightarrow> inevitable step ok goal s"
proof (induction s rule: measure_induct_rule [where f = m])
  case (less s)
  show ?case
  proof (cases "goal s")
    case False
    have "inevitable step ok goal t" if "ok l" "step l s t" for l t
      using that less.prems False by (metis less.IH keeps descends)
    with moves [OF less.prems False] show ?thesis by (rule inevitable.later)
  qed (rule inevitable.now)
qed

end

end
