(* ===== verification/OmcClient.thy ===== *)
theory OmcClient
  imports Exec KubeTypes Transition
begin

text \<open>
  The must-gather side that runs the \<^verbatim>\<open>omc\<close> command: \<^verbatim>\<open>pkg/must-gather/utils/utils.go\<close> and
  \<^verbatim>\<open>pkg/must-gather/omc-client\<close>. The operating system calls of the must-gather packages are the record
  \<open>mg_os\<close>, functions over an arbitrary world.

  \<^verbatim>\<open>omc use\<close> writes the selected must-gather to a state all later \<^verbatim>\<open>omc\<close> commands read, so the client
  holds a mutex from \<^verbatim>\<open>use\<close> to the command. The methods are given sequentially, as they run while
  the lock is held; the last section has the interleaving of several requests as a step relation,
  with the lock, and shows that no request's command runs under another request's must-gather.
\<close>

section \<open>Operating system calls\<close>

record tar_header =
  th_Name :: string
  th_Typeflag :: char

text \<open>What the tar reader yields: an entry with the content that can be read and the error met after it, if
  any, or an error in place of a header.\<close>

datatype tar_item =
    TarEntry tar_header string "err option"
  | TarError err

record 'w mg_os =
  mg_Stat :: "string \<Rightarrow> ('w, bool) effect"
  mg_IsNotExist :: "err \<Rightarrow> bool"
  mg_ReadDir :: "string \<Rightarrow> ('w, (string \<times> bool) list) effect"
  mg_CreateTemp :: "string \<Rightarrow> string \<Rightarrow> ('w, string) effect"
  mg_Remove :: "string \<Rightarrow> 'w \<Rightarrow> err option \<times> 'w"
  mg_RemoveAll :: "string \<Rightarrow> 'w \<Rightarrow> err option \<times> 'w"
  mg_Open :: "string \<Rightarrow> ('w, string) effect"
  mg_Untar :: "string \<Rightarrow> tar_item list result"
  mg_MkdirAll :: "string \<Rightarrow> 'w \<Rightarrow> err option \<times> 'w"
  mg_OpenFile :: "string \<Rightarrow> 'w \<Rightarrow> err option \<times> 'w"
  mg_Write :: "string \<Rightarrow> string \<Rightarrow> 'w \<Rightarrow> err option \<times> 'w"
  mg_Command :: "Context \<Rightarrow> string \<Rightarrow> strs \<Rightarrow> 'w \<Rightarrow> (string \<times> err option) \<times> 'w"

text \<open>The calls as values, and the world each of them leaves: with \<open>calls\<close> this states which calls a
  tool makes.\<close>

datatype mg_op =
    OStat string
  | OReadDir string
  | OCreateTemp string string
  | ORemove string
  | ORemoveAll string
  | OOpen string
  | OMkdirAll string
  | OOpenFile string
  | OWrite string string
  | OCommand Context string strs

primrec mg_step :: "'w mg_os \<Rightarrow> mg_op \<Rightarrow> 'w \<Rightarrow> 'w" where
  "mg_step os (OStat p) w = snd (mg_Stat os p w)"
| "mg_step os (OReadDir p) w = snd (mg_ReadDir os p w)"
| "mg_step os (OCreateTemp d p) w = snd (mg_CreateTemp os d p w)"
| "mg_step os (ORemove p) w = snd (mg_Remove os p w)"
| "mg_step os (ORemoveAll p) w = snd (mg_RemoveAll os p w)"
| "mg_step os (OOpen p) w = snd (mg_Open os p w)"
| "mg_step os (OMkdirAll p) w = snd (mg_MkdirAll os p w)"
| "mg_step os (OOpenFile p) w = snd (mg_OpenFile os p w)"
| "mg_step os (OWrite p d) w = snd (mg_Write os p d w)"
| "mg_step os (OCommand ctx cmd as) w = snd (mg_Command os ctx cmd as w)"

text \<open>One call, in the form the code makes it.\<close>

lemma calls_mg_one:
  "P (OStat p) \<Longrightarrow> calls (mg_step os) P w (snd (mg_Stat os p w))"
  "P (OReadDir p) \<Longrightarrow> calls (mg_step os) P w (snd (mg_ReadDir os p w))"
  "P (OCreateTemp d p) \<Longrightarrow> calls (mg_step os) P w (snd (mg_CreateTemp os d p w))"
  "P (ORemove p) \<Longrightarrow> calls (mg_step os) P w (snd (mg_Remove os p w))"
  "P (ORemoveAll p) \<Longrightarrow> calls (mg_step os) P w (snd (mg_RemoveAll os p w))"
  "P (OOpen p) \<Longrightarrow> calls (mg_step os) P w (snd (mg_Open os p w))"
  "P (OMkdirAll p) \<Longrightarrow> calls (mg_step os) P w (snd (mg_MkdirAll os p w))"
  "P (OOpenFile p) \<Longrightarrow> calls (mg_step os) P w (snd (mg_OpenFile os p w))"
  "P (OWrite p t) \<Longrightarrow> calls (mg_step os) P w (snd (mg_Write os p t w))"
  "P (OCommand ctx cmd as) \<Longrightarrow> calls (mg_step os) P w (snd (mg_Command os ctx cmd as w))"
  using calls_one [of P "OStat p" "mg_step os" w] calls_one [of P "OReadDir p" "mg_step os" w]
    calls_one [of P "OCreateTemp d p" "mg_step os" w] calls_one [of P "ORemove p" "mg_step os" w]
    calls_one [of P "ORemoveAll p" "mg_step os" w] calls_one [of P "OOpen p" "mg_step os" w]
    calls_one [of P "OMkdirAll p" "mg_step os" w] calls_one [of P "OOpenFile p" "mg_step os" w]
    calls_one [of P "OWrite p t" "mg_step os" w] calls_one [of P "OCommand ctx cmd as" "mg_step os" w]
  by simp_all

section \<open>The must-gather path\<close>

definition mgMissing_msg :: string where "mgMissing_msg = ''must gather path %s does not exist: %w''"
definition mgStat_msg :: string where "mgStat_msg = ''failed to stat must gather path %s: %w''"
definition mgLog_msg :: string where "mgLog_msg = ''must gather log file %s not found: %w''"
definition mgLogStat_msg :: string where "mgLogStat_msg = ''failed to stat must gather log file %s: %w''"

definition ValidateMustGatherPath :: "'w mg_os \<Rightarrow> string \<Rightarrow> 'w \<Rightarrow> validation \<times> 'w" where
  "ValidateMustGatherPath os mustGatherPath0 w =
     (case ValidatePath mustGatherPath0 ''must gather path'' False of
        Some e \<Rightarrow> (Some e, w)
      | None \<Rightarrow>
          (let mustGatherPath = Clean mustGatherPath0;
               logPath = JoinPath [mustGatherPath, ''must-gather.logs''] in
           case mg_Stat os mustGatherPath w of
             (Inl e, w1) \<Rightarrow>
               (Some (Errorf (if mg_IsNotExist os e then mgMissing_msg else mgStat_msg)
                  [FStr mustGatherPath, FErr e]), w1)
           | (Inr _, w1) \<Rightarrow>
               (case mg_Stat os logPath w1 of
                  (Inl e, w2) \<Rightarrow>
                    (Some (Errorf (if mg_IsNotExist os e then mgLog_msg else mgLogStat_msg)
                       [FStr logPath, FErr e]), w2)
                | (Inr _, w2) \<Rightarrow> (ok, w2))))"

section \<open>Name and selector validation\<close>

definition lower_alnum :: cls where
  "lower_alnum = [(CHR ''a'', CHR ''z''), (CHR ''0'', CHR ''9'')]"

definition name_inner :: cls where
  "name_inner = lower_alnum @ [(CHR ''.'', CHR ''.''), (CHR ''_'', CHR ''_''), (CHR ''-'', CHR ''-'')]"

definition kubernetesNamePattern :: pat where
  "kubernetesNamePattern = Pat True
     (RSeq (RCls lower_alnum) (ROpt (RSeq (RStar (RCls name_inner)) (RCls lower_alnum)))) True"

definition dashName_msg :: string where
  "dashName_msg = ''name cannot start with '-': %s''"

definition validateKubernetesName :: "string \<Rightarrow> bool \<Rightarrow> validation" where
  "validateKubernetesName name allowEmpty =
     (if name = [] then (if allowEmpty then ok else Some (Errorf ''field cannot be empty'' []))
      else if HasPrefix name ''-'' then Some (Errorf dashName_msg [FStr name])
      else if \<not> MatchString kubernetesNamePattern (ToLower name) then
        Some (Errorf ''invalid name format: %s'' [FStr name])
      else ok)"

definition validateLabelSelector :: "string \<Rightarrow> validation" where
  "validateLabelSelector selector =
     ValidateSafeString selector ''label selector'' True ShellMetaCharactersTypeAllowBrackets"

section \<open>The client\<close>

record 'w OmcClient =
  omc_os :: "'w mg_os"
  omc_commandPath :: string

definition getOmcCommandPath :: "(string \<Rightarrow> string result) \<Rightarrow> string result" where
  "getOmcCommandPath LookPath = (case LookPath ''omc'' of
       Inl e \<Rightarrow> Inl (Errorf ''failed to look path for omc: %w'' [FErr e])
     | Inr path \<Rightarrow> Inr path)"

definition NewOmcClient :: "'w mg_os \<Rightarrow> (string \<Rightarrow> string result) \<Rightarrow> 'w OmcClient result" where
  "NewOmcClient os LookPath = (case getOmcCommandPath LookPath of
       Inl e \<Rightarrow> Inl (Errorf ''failed to get omc command path: %w'' [FErr e])
     | Inr commandPath \<Rightarrow> Inr \<lparr>omc_os = os, omc_commandPath = commandPath\<rparr>)"

definition omcUse_msg :: string where
  "omcUse_msg = ''failed to execute omc command. output: %s, error: %w''"

definition omcValidate_msg :: string where
  "omcValidate_msg = ''failed to validate must gather path: %w''"

definition useMustGather :: "'w OmcClient \<Rightarrow> Context \<Rightarrow> string \<Rightarrow> 'w \<Rightarrow> validation \<times> 'w" where
  "useMustGather c ctx mustGatherPath w =
     (case ValidateMustGatherPath (omc_os c) mustGatherPath w of
        (Some e, w1) \<Rightarrow> (Some (Errorf omcValidate_msg [FErr e]), w1)
      | (None, w1) \<Rightarrow>
          (case mg_Command (omc_os c) ctx (omc_commandPath c) [''use'', mustGatherPath] w1 of
             ((output, Some e), w2) \<Rightarrow> (Some (Errorf omcUse_msg [FStr output, FErr e]), w2)
           | ((output, None), w2) \<Rightarrow> (ok, w2)))"

text \<open>The two steps under the lock: select the must-gather, run the command.\<close>

definition omcSelect_msg :: string where
  "omcSelect_msg = ''failed to use must gather: %w''"

definition locked_omc :: "'w OmcClient \<Rightarrow> Context \<Rightarrow> string \<Rightarrow> strs \<Rightarrow> string \<Rightarrow> ('w, string) effect" where
  "locked_omc c ctx mustGatherPath args msg w =
     (case useMustGather c ctx mustGatherPath w of
        (Some e, w1) \<Rightarrow> (Inl (Errorf omcSelect_msg [FErr e]), w1)
      | (None, w1) \<Rightarrow>
          (case mg_Command (omc_os c) ctx (omc_commandPath c) args w1 of
             ((output, Some e), w2) \<Rightarrow> (Inl (Errorf msg [FStr output, FErr e]), w2)
           | ((output, None), w2) \<Rightarrow> (Inr output, w2)))"

definition InfoTypeExtraInfo :: string where "InfoTypeExtraInfo = ''extrainfo''"
definition InfoTypeHostNetInfo :: string where "InfoTypeHostNetInfo = ''hostnetinfo''"
definition InfoTypeSubnets :: string where "InfoTypeSubnets = ''subnets''"

definition ovnkInfo_msg :: string where
  "ovnkInfo_msg = ''failed to get ovnk info. output: %s, error: %w''"

definition omc_GetOvnKInfo :: "'w OmcClient \<Rightarrow> Context \<Rightarrow> string \<Rightarrow> string \<Rightarrow> ('w, string) effect" where
  "omc_GetOvnKInfo c ctx mustGatherPath infoType w =
     (if infoType = InfoTypeExtraInfo then
        locked_omc c ctx mustGatherPath [''ovnk'', ''extrainfo''] ovnkInfo_msg w
      else if infoType = InfoTypeHostNetInfo then
        locked_omc c ctx mustGatherPath [''ovnk'', ''hostnetinfo''] ovnkInfo_msg w
      else if infoType = InfoTypeSubnets then
        locked_omc c ctx mustGatherPath [''ovnk'', ''subnets''] ovnkInfo_msg w
      else (Inl (Errorf ''invalid info type: %s'' [FStr infoType]), w))"

definition podLogs_args :: "string \<Rightarrow> string \<Rightarrow> string \<Rightarrow> bool \<Rightarrow> bool \<Rightarrow> strs" where
  "podLogs_args namespace name container previous rotated =
     [''logs'', name] @ (if container \<noteq> [] then [''-c'', container] else []) @
     (if namespace \<noteq> [] then [''-n'', namespace] else []) @
     (if previous then [''-p''] else []) @ (if rotated then [''-r''] else [])"

definition omcLogs_msg :: string where
  "omcLogs_msg = ''failed to get pod logs. output: %s, error: %w''"

definition omc_GetPodLogs ::
  "'w OmcClient \<Rightarrow> Context \<Rightarrow> string \<Rightarrow> string \<Rightarrow> string \<Rightarrow> string \<Rightarrow> bool \<Rightarrow> bool \<Rightarrow> ('w, string) effect" where
  "omc_GetPodLogs c ctx mustGatherPath namespace name container previous rotated w =
     (case validateKubernetesName name False of
        Some e \<Rightarrow> (Inl (Errorf ''failed to validate name: %w'' [FErr e]), w)
      | None \<Rightarrow>
     (case validateKubernetesName namespace True of
        Some e \<Rightarrow> (Inl (Errorf ''failed to validate namespace: %w'' [FErr e]), w)
      | None \<Rightarrow>
     (case validateKubernetesName container True of
        Some e \<Rightarrow> (Inl (Errorf ''failed to validate container: %w'' [FErr e]), w)
      | None \<Rightarrow>
          locked_omc c ctx mustGatherPath (podLogs_args namespace name container previous rotated)
            omcLogs_msg w)))"

definition appendOutputTypeArgs :: "strs \<Rightarrow> OutputParams \<Rightarrow> strs" where
  "appendOutputTypeArgs as p =
     (if OutputType p = JSONOutputType then as @ [''-o'', ''json'']
      else if OutputType p = YAMLOutputType then as @ [''-o'', ''yaml'']
      else if OutputType p = WideOutputType then as @ [''-o'', ''wide'']
      else if HasPrefix (OutputType p) (JSONPathOutputType @ ''='') then as @ [''-o'', OutputType p]
      else as)"

definition getResource_args :: "string \<Rightarrow> string \<Rightarrow> string \<Rightarrow> OutputParams \<Rightarrow> strs" where
  "getResource_args kind name namespace p =
     appendOutputTypeArgs ([''get'', kind, name] @
       [''-n'', if namespace = [] then ''default'' else namespace]) p"

definition listResources_args :: "string \<Rightarrow> string \<Rightarrow> string \<Rightarrow> OutputParams \<Rightarrow> strs" where
  "listResources_args kind namespace labelSelector p =
     appendOutputTypeArgs ([''get'', kind] @ (if labelSelector \<noteq> [] then [''-l'', labelSelector] else [])) p @
     (if namespace \<noteq> [] then [''-n'', namespace] else [''-A''])"

definition getResource_msg :: string where
  "getResource_msg = ''failed to get resource. output: %s, error: %w''"

definition noResource_msg :: string where
  "noResource_msg = ''failed to get resource %s with name %s in namespace %s: %s''"

definition omc_GetResource ::
  "'w OmcClient \<Rightarrow> Context \<Rightarrow> string \<Rightarrow> string \<Rightarrow> string \<Rightarrow> string \<Rightarrow> OutputParams \<Rightarrow> ('w, string) effect" where
  "omc_GetResource c ctx mustGatherPath kind namespace name outputParams w =
     (case validateKubernetesName kind False of
        Some e \<Rightarrow> (Inl (Errorf ''failed to validate kind: %w'' [FErr e]), w)
      | None \<Rightarrow>
     (case validateKubernetesName name False of
        Some e \<Rightarrow> (Inl (Errorf ''failed to validate name: %w'' [FErr e]), w)
      | None \<Rightarrow>
     (case validateKubernetesName namespace True of
        Some e \<Rightarrow> (Inl (Errorf ''failed to validate namespace: %w'' [FErr e]), w)
      | None \<Rightarrow>
          (case locked_omc c ctx mustGatherPath (getResource_args kind name namespace outputParams)
              getResource_msg w of
             (Inl e, w') \<Rightarrow> (Inl e, w')
           | (Inr output, w') \<Rightarrow>
               if Contains (ToLower output) ''no resources'' then
                 (Inl (Errorf noResource_msg [FStr kind, FStr name,
                    FStr (if namespace = [] then ''default'' else namespace), FStr output]), w')
               else (Inr output, w')))))"

definition listResources_msg :: string where
  "listResources_msg = ''failed to list resources. output: %s, error: %w''"

definition emptyJSONList :: string where
  "emptyJSONList = ''{'' @ [newline] @ ''  \"apiVersion\": \"v1\",'' @ [newline] @
     ''  \"kind\": \"List\",'' @ [newline] @ ''  \"items\": []'' @ [newline] @ ''}''"

definition emptyYAMLList :: string where
  "emptyYAMLList = ''apiVersion: v1'' @ [newline] @ ''kind: List'' @ [newline] @ ''items: []''"

definition omc_ListResources ::
  "'w OmcClient \<Rightarrow> Context \<Rightarrow> string \<Rightarrow> string \<Rightarrow> string \<Rightarrow> string \<Rightarrow> OutputParams \<Rightarrow> ('w, string) effect" where
  "omc_ListResources c ctx mustGatherPath kind namespace labelSelector outputParams w =
     (case validateKubernetesName kind False of
        Some e \<Rightarrow> (Inl (Errorf ''failed to validate kind: %w'' [FErr e]), w)
      | None \<Rightarrow>
     (case validateKubernetesName namespace True of
        Some e \<Rightarrow> (Inl (Errorf ''failed to validate namespace: %w'' [FErr e]), w)
      | None \<Rightarrow>
     (case validateLabelSelector labelSelector of
        Some e \<Rightarrow> (Inl (Errorf ''failed to validate label selector: %w'' [FErr e]), w)
      | None \<Rightarrow>
          (case locked_omc c ctx mustGatherPath
              (listResources_args kind namespace labelSelector outputParams) listResources_msg w of
             (Inl e, w') \<Rightarrow> (Inl e, w')
           | (Inr output, w') \<Rightarrow>
               if Contains (ToLower output) ''no resources'' then
                 (Inr (if OutputType outputParams = JSONOutputType then emptyJSONList
                       else if OutputType outputParams = YAMLOutputType then emptyYAMLList
                       else []), w')
               else (Inr output, w')))))"

section \<open>Accepted names\<close>

definition kube_name :: "string \<Rightarrow> bool" where
  "kube_name t \<longleftrightarrow> t \<noteq> [] \<and> in_class lower_alnum (hd t) \<and> in_class lower_alnum (last t) \<and>
     list_all (in_class name_inner) t"

lemma lower_alnum_inner: "in_class lower_alnum c \<Longrightarrow> in_class name_inner c"
  by (auto simp: in_class_def lower_alnum_def name_inner_def)

lemma match_kubernetesNamePattern: "MatchString kubernetesNamePattern t \<longleftrightarrow> kube_name t"
proof (cases t)
  case Nil
  then show ?thesis by (simp add: kubernetesNamePattern_def MatchString_full rx_in_cls_seq kube_name_def)
next
  case (Cons c s)
  have "rx_in (RSeq (RStar (RCls name_inner)) (RCls lower_alnum)) s \<longleftrightarrow>
      s \<noteq> [] \<and> in_class lower_alnum (last s) \<and> list_all (in_class name_inner) s"
  proof (cases s rule: rev_cases)
    case (snoc u d)
    then show ?thesis using lower_alnum_inner by (auto simp: rx_in_Seq)
  qed (simp add: rx_in_Seq)
  then show ?thesis
    using Cons lower_alnum_inner
    by (auto simp: kubernetesNamePattern_def MatchString_full rx_in_cls_seq kube_name_def)
qed

text \<open>The bytes an accepted name may have: those of the pattern, capitals, and the bytes of the two runes
  whose lower case is an ASCII letter.\<close>

definition raw_name :: "char \<Rightarrow> bool" where
  "raw_name c \<longleftrightarrow> 97 \<le> code c \<and> code c \<le> 122 \<or> 48 \<le> code c \<and> code c \<le> 57 \<or>
     65 \<le> code c \<and> code c \<le> 90 \<or> code c \<in> {45, 46, 95, 0xE2, 0x84, 0xAA, 0xC4, 0xB0}"

lemma name_inner_code:
  "in_class name_inner c \<longleftrightarrow> 97 \<le> code c \<and> code c \<le> 122 \<or> 48 \<le> code c \<and> code c \<le> 57 \<or>
     code c = 46 \<or> code c = 95 \<or> code c = 45"
  by (simp add: in_class_def name_inner_def lower_alnum_def) linarith

lemma raw_name_lower_ascii: "in_class name_inner (lower_ascii c) \<Longrightarrow> raw_name c"
  by (cases "65 \<le> code c \<and> code c \<le> 90") (auto simp: raw_name_def name_inner_code lower_ascii_def)

lemma raw_name_ToLower: "list_all (in_class name_inner) (ToLower s) \<Longrightarrow> list_all raw_name s"
proof (induction s rule: ToLower.induct)
  case (1 a b c s)
  then show ?case using raw_name_lower_ascii [of a]
    by (auto simp: raw_name_def [of a] raw_name_def [of b] raw_name_def [of c] split: if_splits)
next
  case (2 a b)
  then show ?case using raw_name_lower_ascii [of a] raw_name_lower_ascii [of b]
    by (auto simp: raw_name_def [of a] raw_name_def [of b] split: if_splits)
qed (auto dest: raw_name_lower_ascii)

lemma ToLower_hyphen: "ToLower (CHR ''-'' # s) = CHR ''-'' # ToLower s"
  by (cases "CHR ''-'' # s" rule: ToLower.cases) (auto simp: lower_ascii_def)

lemma validateKubernetesName_ok:
  "validateKubernetesName name allowEmpty = ok \<longleftrightarrow>
     (if name = [] then allowEmpty else kube_name (ToLower name))"
proof (cases name)
  case (Cons c s)
  have "c \<noteq> CHR ''-''" if "kube_name (ToLower name)"
    using that Cons by (auto simp: ToLower_hyphen kube_name_def in_class_def lower_alnum_def)
  then show ?thesis
    using Cons by (auto simp: validateKubernetesName_def match_kubernetesNamePattern HasPrefix_iff)
qed (simp add: validateKubernetesName_def)

text \<open>A name as it reaches the command line: not empty, never an option, and without white space, quotes,
  separators or shell metacharacters.\<close>

definition kname :: "string \<Rightarrow> bool" where
  "kname n \<longleftrightarrow> n \<noteq> [] \<and> hd n \<noteq> CHR ''-'' \<and> list_all raw_name n"

lemma validateKubernetesName_kname:
  "validateKubernetesName n b = ok \<Longrightarrow> n \<noteq> [] \<Longrightarrow> kname n"
proof -
  assume a: "validateKubernetesName n b = ok" and n: "n \<noteq> []"
  then have k: "kube_name (ToLower n)" by (simp add: validateKubernetesName_ok)
  obtain c s where cs: "n = c # s" using n by (cases n) auto
  have "c \<noteq> CHR ''-''"
    using k cs by (auto simp: ToLower_hyphen kube_name_def in_class_def lower_alnum_def)
  with k cs show ?thesis using raw_name_ToLower [of n] by (simp add: kname_def kube_name_def)
qed

lemma kname_default [simp]: "kname ''default''"
  by (simp add: kname_def raw_name_def)

section \<open>The commands the client may run\<close>

definition name_flag :: "string \<Rightarrow> strs \<Rightarrow> bool" where
  "name_flag f as \<longleftrightarrow> as = [] \<or> (\<exists>v. kname v \<and> as = [f, v])"

definition output_flag :: "strs \<Rightarrow> bool" where
  "output_flag as \<longleftrightarrow> as = [] \<or>
     (\<exists>v. as = [''-o'', v] \<and> (v \<in> {''json'', ''yaml'', ''wide''} \<or> prefix ''jsonpath='' v))"

definition selector_flag :: "strs \<Rightarrow> bool" where
  "selector_flag as \<longleftrightarrow> as = [] \<or>
     (\<exists>v. as = [''-l'', v] \<and> v \<noteq> [] \<and> no_meta ShellMetaCharactersTypeAllowBrackets v)"

inductive omc_args :: "strs \<Rightarrow> bool" where
  ovnk: "t \<in> {''extrainfo'', ''hostnetinfo'', ''subnets''} \<Longrightarrow> omc_args [''ovnk'', t]"
| logs: "kname name \<Longrightarrow> name_flag ''-c'' cs \<Longrightarrow> name_flag ''-n'' ns \<Longrightarrow> set sw \<subseteq> {''-p'', ''-r''} \<Longrightarrow>
    omc_args (''logs'' # name # cs @ ns @ sw)"
| get: "kname kind \<Longrightarrow> kname name \<Longrightarrow> kname ns \<Longrightarrow> output_flag os \<Longrightarrow>
    omc_args ([''get'', kind, name, ''-n'', ns] @ os)"
| list: "kname kind \<Longrightarrow> selector_flag ls \<Longrightarrow> output_flag os \<Longrightarrow> sc = [''-A''] \<or> (\<exists>n. kname n \<and> sc = [''-n'', n]) \<Longrightarrow>
    omc_args ([''get'', kind] @ ls @ os @ sc)"

lemma output_flag_append: "\<exists>os. output_flag os \<and> appendOutputTypeArgs as p = as @ os"
  by (auto simp: appendOutputTypeArgs_def output_flag_def output_types HasPrefix_iff)

lemma kname_required: "validateKubernetesName n False = ok \<Longrightarrow> kname n"
  using validateKubernetesName_kname [of n False] by (cases n) (auto simp: validateKubernetesName_ok)

lemma name_flag_ok:
  "validateKubernetesName n True = ok \<Longrightarrow> name_flag f (if n \<noteq> [] then [f, n] else [])"
  using validateKubernetesName_kname [of n True] by (simp add: name_flag_def)

lemma podLogs_args_ok:
  assumes "validateKubernetesName name False = ok" "validateKubernetesName ns True = ok"
    "validateKubernetesName c True = ok"
  shows "omc_args (podLogs_args ns name c previous rotated)"
proof -
  let ?sw = "(if previous then [''-p''] else []) @ (if rotated then [''-r''] else [])"
  have "set ?sw \<subseteq> {''-p'', ''-r''}" by auto
  from omc_args.logs [OF kname_required [OF assms(1)] name_flag_ok [OF assms(3)]
      name_flag_ok [OF assms(2)] this]
  show ?thesis by (simp only: podLogs_args_def append_Cons append_Nil)
qed

lemma getResource_args_ok:
  assumes "validateKubernetesName kind False = ok" "validateKubernetesName name False = ok"
    "validateKubernetesName ns True = ok"
  shows "omc_args (getResource_args kind name ns p)"
proof -
  have "kname (if ns = [] then ''default'' else ns)"
    using validateKubernetesName_kname [OF assms(3)] by simp
  moreover obtain os where "output_flag os" "getResource_args kind name ns p =
      [''get'', kind, name, ''-n'', if ns = [] then ''default'' else ns] @ os"
    using output_flag_append [of "[''get'', kind, name, ''-n'', if ns = [] then ''default'' else ns]" p]
    unfolding getResource_args_def append_Cons append_Nil by blast
  ultimately show ?thesis
    using omc_args.get [OF kname_required [OF assms(1)] kname_required [OF assms(2)]] by simp
qed

lemma validateLabelSelector_ok:
  "validateLabelSelector l = ok \<Longrightarrow> selector_flag (if l \<noteq> [] then [''-l'', l] else [])"
  by (auto simp: validateLabelSelector_def ValidateSafeString_ok selector_flag_def no_meta_def
      list_all_iff split: if_splits)

lemma listResources_args_ok:
  assumes "validateKubernetesName kind False = ok" "validateKubernetesName ns True = ok"
    "validateLabelSelector l = ok"
  shows "omc_args (listResources_args kind ns l p)"
proof -
  let ?ls = "if l \<noteq> [] then [''-l'', l] else []"
  let ?sc = "if ns \<noteq> [] then [''-n'', ns] else [''-A'']"
  obtain os where os: "output_flag os" "appendOutputTypeArgs ([''get'', kind] @ ?ls) p = [''get'', kind] @ ?ls @ os"
    using output_flag_append [of "[''get'', kind] @ ?ls" p] by auto
  have "?sc = [''-A''] \<or> (\<exists>n. kname n \<and> ?sc = [''-n'', n])"
    using validateKubernetesName_kname [OF assms(2)] by simp
  then have "omc_args ([''get'', kind] @ ?ls @ os @ ?sc)"
    using omc_args.list [OF kname_required [OF assms(1)] validateLabelSelector_ok [OF assms(3)] os(1)]
    by blast
  then show ?thesis by (simp only: listResources_args_def os(2) append_assoc)
qed

text \<open>The system calls the client makes for a request on one must-gather.\<close>

inductive omc_op :: "string \<Rightarrow> Context \<Rightarrow> string \<Rightarrow> mg_op \<Rightarrow> bool" for cmd ctx path where
  stat: "ValidatePath path ''must gather path'' False = ok \<Longrightarrow>
    p \<in> {Clean path, JoinPath [Clean path, ''must-gather.logs'']} \<Longrightarrow> omc_op cmd ctx path (OStat p)"
| use: "ValidatePath path ''must gather path'' False = ok \<Longrightarrow> omc_op cmd ctx path (OCommand ctx cmd [''use'', path])"
| query: "ValidatePath path ''must gather path'' False = ok \<Longrightarrow> omc_args as \<Longrightarrow>
    omc_op cmd ctx path (OCommand ctx cmd as)"

lemma calls_ValidateMustGatherPath:
  "calls (mg_step os) (omc_op cmd ctx path) w (snd (ValidateMustGatherPath os path w))"
  unfolding ValidateMustGatherPath_def Let_def
  by (intro calls_guard calls_seq calls_branches calls_mg_one omc_op.stat) auto

lemma ValidateMustGatherPath_valid:
  "ValidateMustGatherPath os path w = (ok, w') \<Longrightarrow> ValidatePath path ''must gather path'' False = ok"
  by (cases "ValidatePath path ''must gather path'' False") (auto simp: ValidateMustGatherPath_def)

lemma calls_useMustGather:
  "calls (mg_step (omc_os c)) (omc_op (omc_commandPath c) ctx path) w (snd (useMustGather c ctx path w))"
  unfolding useMustGather_def
  by (intro calls_seq_eq calls_ValidateMustGatherPath calls_branches calls_seq calls_mg_one omc_op.use)
    (simp_all add: calls.none split: prod.splits option.splits add: ValidateMustGatherPath_valid)

lemma useMustGather_valid:
  "useMustGather c ctx path w = (ok, w') \<Longrightarrow> ValidatePath path ''must gather path'' False = ok"
  by (auto simp: useMustGather_def split: prod.splits option.splits dest: ValidateMustGatherPath_valid)

lemma calls_locked_omc:
  assumes "omc_args as"
  shows "calls (mg_step (omc_os c)) (omc_op (omc_commandPath c) ctx path) w
    (snd (locked_omc c ctx path as msg w))"
  unfolding locked_omc_def
  by (intro calls_seq_eq calls_useMustGather calls_branches calls_seq calls_mg_one omc_op.query assms)
    (simp_all add: calls.none useMustGather_valid split: prod.splits option.splits)

lemmas calls_guards = calls_guard calls_if calls_pair

lemma calls_omc_client:
  "calls (mg_step (omc_os c)) (omc_op (omc_commandPath c) ctx path) w (snd (omc_GetOvnKInfo c ctx path ty w))"
  "calls (mg_step (omc_os c)) (omc_op (omc_commandPath c) ctx path) w
     (snd (omc_GetPodLogs c ctx path ns name ct prev rot w))"
  "calls (mg_step (omc_os c)) (omc_op (omc_commandPath c) ctx path) w
     (snd (omc_GetResource c ctx path kind ns name p w))"
  "calls (mg_step (omc_os c)) (omc_op (omc_commandPath c) ctx path) w
     (snd (omc_ListResources c ctx path kind ns sel p w))"
  unfolding omc_GetOvnKInfo_def omc_GetPodLogs_def omc_GetResource_def omc_ListResources_def
  by (intro calls_guards calls_locked_omc calls_seq calls_branches podLogs_args_ok getResource_args_ok
      listResources_args_ok; simp add: omc_args.ovnk)+

section \<open>What a successful command returns\<close>

definition omc_session ::
  "'w OmcClient \<Rightarrow> Context \<Rightarrow> string \<Rightarrow> strs \<Rightarrow> 'w \<Rightarrow> string \<Rightarrow> 'w \<Rightarrow> bool" where
  \<comment> \<open>the must-gather is valid and selected, and the next command is the query, which answers\<close>
  "omc_session c ctx path as w out w' \<longleftrightarrow>
     (\<exists>w1 o1 w2. ValidateMustGatherPath (omc_os c) path w = (ok, w1) \<and>
        mg_Command (omc_os c) ctx (omc_commandPath c) [''use'', path] w1 = ((o1, None), w2) \<and>
        mg_Command (omc_os c) ctx (omc_commandPath c) as w2 = ((out, None), w'))"

lemma useMustGather_ok_iff:
  "useMustGather c ctx path w = (ok, w2) \<longleftrightarrow>
     (\<exists>w1 o1. ValidateMustGatherPath (omc_os c) path w = (ok, w1) \<and>
        mg_Command (omc_os c) ctx (omc_commandPath c) [''use'', path] w1 = ((o1, None), w2))"
  by (auto simp: useMustGather_def split: prod.splits option.splits)

lemma locked_omc_ok_iff:
  "locked_omc c ctx path as msg w = (Inr out, w') \<longleftrightarrow> omc_session c ctx path as w out w'"
proof -
  have "locked_omc c ctx path as msg w = (Inr out, w') \<longleftrightarrow>
      (\<exists>w2. useMustGather c ctx path w = (ok, w2) \<and>
        mg_Command (omc_os c) ctx (omc_commandPath c) as w2 = ((out, None), w'))"
    by (auto simp: locked_omc_def split: prod.splits option.splits)
  then show ?thesis by (auto simp: useMustGather_ok_iff omc_session_def)
qed

lemma guard_Inl_wrap:
  "(case v of Some e \<Rightarrow> (Inl (f e), w) | None \<Rightarrow> x) = (Inr y, w') \<longleftrightarrow> v = ok \<and> x = (Inr y, w')"
  by (cases v) auto

lemma omc_GetPodLogs_ok_iff:
  "omc_GetPodLogs c ctx path ns name ct prev rot w = (Inr out, w') \<longleftrightarrow>
     validateKubernetesName name False = ok \<and> validateKubernetesName ns True = ok \<and>
     validateKubernetesName ct True = ok \<and>
     omc_session c ctx path (podLogs_args ns name ct prev rot) w out w'"
  by (simp only: omc_GetPodLogs_def guard_Inl_wrap locked_omc_ok_iff)

lemma omc_GetResource_ok_iff:
  "omc_GetResource c ctx path kind ns name p w = (Inr out, w') \<longleftrightarrow>
     validateKubernetesName kind False = ok \<and> validateKubernetesName name False = ok \<and>
     validateKubernetesName ns True = ok \<and>
     omc_session c ctx path (getResource_args kind name ns p) w out w' \<and>
     \<not> Contains (ToLower out) ''no resources''"
proof -
  have "(case x of (Inl e, w') \<Rightarrow> (Inl e, w')
      | (Inr output, w') \<Rightarrow> if b output then (Inl (h output), w') else (Inr output, w')) = (Inr out, w') \<longleftrightarrow>
      x = (Inr out, w') \<and> \<not> b out" for x :: "string result \<times> 'a" and b h
    by (auto split: prod.splits sum.splits)
  then show ?thesis
    by (simp only: omc_GetResource_def guard_Inl_wrap locked_omc_ok_iff)
qed

definition empty_list_output :: "string \<Rightarrow> string" where
  "empty_list_output ty = (if ty = JSONOutputType then emptyJSONList
     else if ty = YAMLOutputType then emptyYAMLList else [])"

lemma omc_ListResources_ok_iff:
  "omc_ListResources c ctx path kind ns sel p w = (Inr out, w') \<longleftrightarrow>
     validateKubernetesName kind False = ok \<and> validateKubernetesName ns True = ok \<and>
     validateLabelSelector sel = ok \<and>
     (\<exists>raw. omc_session c ctx path (listResources_args kind ns sel p) w raw w' \<and>
        out = (if Contains (ToLower raw) ''no resources'' then empty_list_output (OutputType p) else raw))"
proof -
  have "(case x of (Inl e, w') \<Rightarrow> (Inl e, w')
      | (Inr output, w') \<Rightarrow> if b output then (Inr z, w') else (Inr output, w')) = (Inr out, w') \<longleftrightarrow>
      (\<exists>raw. x = (Inr raw, w') \<and> out = (if b raw then z else raw))" for x :: "string result \<times> 'a" and b z
    by (auto split: prod.splits sum.splits)
  then show ?thesis
    by (simp only: omc_ListResources_def guard_Inl_wrap locked_omc_ok_iff empty_list_output_def)
qed

lemma omc_GetOvnKInfo_ok_iff:
  "omc_GetOvnKInfo c ctx path ty w = (Inr out, w') \<longleftrightarrow>
     ty \<in> {InfoTypeExtraInfo, InfoTypeHostNetInfo, InfoTypeSubnets} \<and>
     omc_session c ctx path [''ovnk'', ty] w out w'"
  by (auto simp: omc_GetOvnKInfo_def locked_omc_ok_iff InfoTypeExtraInfo_def InfoTypeHostNetInfo_def
      InfoTypeSubnets_def)

section \<open>Several requests and the lock\<close>

text \<open>
  Requests run concurrently, each on a goroutine of its own, and share the client. A request that has
  passed its validation takes the lock (\<^verbatim>\<open>c.lock.Lock()\<close>), selects its must-gather, runs its command
  and returns, which releases the lock (the deferred \<^verbatim>\<open>Unlock\<close>). Between any two of these steps every
  other request may make one of its own.
\<close>

record omc_request =
  rq_ctx :: Context
  rq_path :: string
  rq_args :: strs
  rq_msg :: string

datatype phase =
    Waiting
  | Locked
  | Selected
  | Ended "string result"
  | Returned "string result"

record 'w omc_sys =
  sys_world :: 'w
  sys_holder :: "nat option"
  sys_phase :: "nat \<Rightarrow> phase"

definition sys_init :: "'w \<Rightarrow> 'w omc_sys" where
  "sys_init w = \<lparr>sys_world = w, sys_holder = None, sys_phase = (\<lambda>_. Waiting)\<rparr>"

definition query_result :: "string \<Rightarrow> string \<times> err option \<Rightarrow> string result" where
  "query_result msg r = (case r of
       (output, Some e) \<Rightarrow> Inl (Errorf msg [FStr output, FErr e])
     | (output, None) \<Rightarrow> Inr output)"

inductive omc_step :: "'w OmcClient \<Rightarrow> (nat \<Rightarrow> omc_request) \<Rightarrow> 'w omc_sys \<Rightarrow> 'w omc_sys \<Rightarrow> bool"
  for c rq where
  lock: "sys_phase s r = Waiting \<Longrightarrow> sys_holder s = None \<Longrightarrow>
    omc_step c rq s (s\<lparr>sys_holder := Some r, sys_phase := (sys_phase s)(r := Locked)\<rparr>)"
| select: "sys_phase s r = Locked \<Longrightarrow>
    useMustGather c (rq_ctx (rq r)) (rq_path (rq r)) (sys_world s) = (None, w) \<Longrightarrow>
    omc_step c rq s (s\<lparr>sys_world := w, sys_phase := (sys_phase s)(r := Selected)\<rparr>)"
| select_fail: "sys_phase s r = Locked \<Longrightarrow>
    useMustGather c (rq_ctx (rq r)) (rq_path (rq r)) (sys_world s) = (Some e, w) \<Longrightarrow>
    omc_step c rq s (s\<lparr>sys_world := w,
      sys_phase := (sys_phase s)(r := Ended (Inl (Errorf omcSelect_msg [FErr e])))\<rparr>)"
| query: "sys_phase s r = Selected \<Longrightarrow>
    mg_Command (omc_os c) (rq_ctx (rq r)) (omc_commandPath c) (rq_args (rq r)) (sys_world s) = (a, w) \<Longrightarrow>
    omc_step c rq s (s\<lparr>sys_world := w,
      sys_phase := (sys_phase s)(r := Ended (query_result (rq_msg (rq r)) a))\<rparr>)"
| unlock: "sys_phase s r = Ended res \<Longrightarrow>
    omc_step c rq s (s\<lparr>sys_holder := None, sys_phase := (sys_phase s)(r := Returned res)\<rparr>)"

inductive omc_reach :: "'w OmcClient \<Rightarrow> (nat \<Rightarrow> omc_request) \<Rightarrow> 'w \<Rightarrow> 'w omc_sys \<Rightarrow> bool"
  for c rq w0 where
  init: "omc_reach c rq w0 (sys_init w0)"
| step: "omc_reach c rq w0 s \<Longrightarrow> omc_step c rq s s' \<Longrightarrow> omc_reach c rq w0 s'"

text \<open>The same requests one after the other, each a whole \<open>locked_omc\<close>.\<close>

fun serial_run ::
  "'w OmcClient \<Rightarrow> (nat \<Rightarrow> omc_request) \<Rightarrow> nat list \<Rightarrow> 'w \<Rightarrow> (nat \<times> string result) list \<times> 'w" where
  "serial_run c rq [] w = ([], w)"
| "serial_run c rq (r # rs) w =
     (case locked_omc c (rq_ctx (rq r)) (rq_path (rq r)) (rq_args (rq r)) (rq_msg (rq r)) w of
        (res, w1) \<Rightarrow> (case serial_run c rq rs w1 of (out, w2) \<Rightarrow> ((r, res) # out, w2)))"

lemma serial_run_append:
  "serial_run c rq (rs @ qs) w = (case serial_run c rq rs w of (out, w1) \<Rightarrow>
     (case serial_run c rq qs w1 of (out', w2) \<Rightarrow> (out @ out', w2)))"
  by (induction rs arbitrary: w) (auto split: prod.splits)

lemma serial_run_ids: "map fst (fst (serial_run c rq rs w)) = rs"
  by (induction rs arbitrary: w) (auto split: prod.splits simp: prod_eq_iff)

definition idle :: "phase \<Rightarrow> bool" where
  "idle p \<longleftrightarrow> p = Waiting \<or> (\<exists>res. p = Returned res)"

lemma idle_simps [simp]: "idle Waiting" "idle (Returned res)" "\<not> idle Locked" "\<not> idle Selected" "\<not> idle (Ended res)"
  by (simp_all add: idle_def)

definition locked_request :: "'w OmcClient \<Rightarrow> omc_request \<Rightarrow> 'w \<Rightarrow> string result \<times> 'w" where
  "locked_request c q w = locked_omc c (rq_ctx q) (rq_path q) (rq_args q) (rq_msg q) w"

text \<open>How far the holder of the lock has come from the world \<open>w\<close> in which it took it.\<close>

fun holder_at :: "'w OmcClient \<Rightarrow> omc_request \<Rightarrow> 'w \<Rightarrow> phase \<Rightarrow> 'w \<Rightarrow> bool" where
  "holder_at c q w Locked w' \<longleftrightarrow> w' = w"
| "holder_at c q w Selected w' \<longleftrightarrow> useMustGather c (rq_ctx q) (rq_path q) w = (None, w')"
| "holder_at c q w (Ended res) w' \<longleftrightarrow> locked_request c q w = (res, w')"
| "holder_at c q w _ w' \<longleftrightarrow> False"

definition sys_ok ::
  "'w OmcClient \<Rightarrow> (nat \<Rightarrow> omc_request) \<Rightarrow> 'w \<Rightarrow> nat list \<Rightarrow> (nat \<times> string result) list \<Rightarrow> 'w \<Rightarrow> 'w omc_sys \<Rightarrow> bool" where
  "sys_ok c rq w0 rs out wn s \<longleftrightarrow>
     distinct rs \<and> serial_run c rq rs w0 = (out, wn) \<and>
     (\<forall>r res. sys_phase s r = Returned res \<longleftrightarrow> (r, res) \<in> set out) \<and>
     (\<forall>r. sys_holder s \<noteq> Some r \<longrightarrow> idle (sys_phase s r)) \<and>
     (case sys_holder s of None \<Rightarrow> sys_world s = wn
      | Some h \<Rightarrow> holder_at c (rq h) wn (sys_phase s h) (sys_world s))"

lemma sys_ok_holder:
  assumes "sys_ok c rq w0 rs out wn s" "\<not> idle (sys_phase s r)"
  shows "sys_holder s = Some r \<and> holder_at c (rq r) wn (sys_phase s r) (sys_world s)"
proof -
  have "sys_holder s = Some r" using assms by (auto simp: sys_ok_def)
  with assms(1) show ?thesis by (simp add: sys_ok_def)
qed

text \<open>A step of the holder inside its critical section.\<close>

lemma sys_ok_inner:
  assumes ok: "sys_ok c rq w0 rs out wn s" and p: "\<not> idle (sys_phase s r)"
    and q: "holder_at c (rq r) wn q w"
  shows "sys_ok c rq w0 rs out wn (s\<lparr>sys_world := w, sys_phase := (sys_phase s)(r := q)\<rparr>)"
proof -
  have h: "sys_holder s = Some r" using sys_ok_holder [OF ok p] by simp
  have "\<nexists>res. sys_phase s r = Returned res" using p by (auto simp: idle_def)
  moreover have "\<nexists>res. q = Returned res" using q by auto
  ultimately show ?thesis using ok h q by (auto simp: sys_ok_def)
qed

lemma sys_ok_step:
  assumes "omc_step c rq s s'" "sys_ok c rq w0 rs out wn s"
  shows "\<exists>rs' out' wn'. sys_ok c rq w0 rs' out' wn' s'"
  using assms(1)
proof cases
  case (lock r)
  then have "(r, res) \<notin> set out" for res using assms(2) by (force simp: sys_ok_def)
  then have "sys_ok c rq w0 rs out wn s'" using lock assms(2) by (auto simp: sys_ok_def)
  then show ?thesis by blast
next
  case (select r w)
  have n: "\<not> idle (sys_phase s r)" using select by (simp add: idle_def)
  have "sys_ok c rq w0 rs out wn s'" unfolding select(1)
    using sys_ok_holder [OF assms(2) n] select by (intro sys_ok_inner [OF assms(2) n]) auto
  then show ?thesis by blast
next
  case (select_fail r e w)
  have n: "\<not> idle (sys_phase s r)" using select_fail by (simp add: idle_def)
  have "sys_ok c rq w0 rs out wn s'" unfolding select_fail(1)
    using sys_ok_holder [OF assms(2) n] select_fail
    by (intro sys_ok_inner [OF assms(2) n]) (auto simp: locked_request_def locked_omc_def)
  then show ?thesis by blast
next
  case (query r a w)
  have n: "\<not> idle (sys_phase s r)" using query by (simp add: idle_def)
  have "sys_ok c rq w0 rs out wn s'" unfolding query(1)
    using sys_ok_holder [OF assms(2) n] query
    by (intro sys_ok_inner [OF assms(2) n])
      (auto simp: locked_request_def locked_omc_def query_result_def split: prod.splits option.splits)
  then show ?thesis by blast
next
  case (unlock r res)
  have n: "\<not> idle (sys_phase s r)" using unlock by (simp add: idle_def)
  note h = sys_ok_holder [OF assms(2) n]
  have ids: "map fst out = rs" using serial_run_ids [of c rq rs w0] assms(2) by (simp add: sys_ok_def)
  have new: "(r, x) \<notin> set out" for x
    using assms(2) unlock(2) by (auto simp: sys_ok_def dest: spec [of _ r])
  then have "r \<notin> set rs" using ids by force
  moreover have "serial_run c rq (rs @ [r]) w0 = (out @ [(r, res)], sys_world s)"
    using assms(2) h unlock(2) by (simp add: serial_run_append sys_ok_def locked_request_def)
  ultimately have "sys_ok c rq w0 (rs @ [r]) (out @ [(r, res)]) (sys_world s) s'"
    using assms(2) h unlock new by (auto simp: sys_ok_def)
  then show ?thesis by blast
qed

lemma sys_ok_reach: "omc_reach c rq w0 s \<Longrightarrow> \<exists>rs out wn. sys_ok c rq w0 rs out wn s"
proof (induction rule: omc_reach.induct)
  case init
  have "sys_ok c rq w0 [] [] w0 (sys_init w0)" by (simp add: sys_ok_def sys_init_def idle_def)
  then show ?case by blast
next
  case (step s s')
  then obtain rs out wn where "sys_ok c rq w0 rs out wn s" by blast
  from sys_ok_step [OF step.hyps(2) this] show ?case .
qed

text \<open>Claim C6: requests on the omc client are serialised by its lock. Whatever the interleaving of any number
  of requests, when the lock is free the requests that have returned can be put in an order such
  that running them one at a time, each from its selection of the must-gather to its command with
  nothing in between, leads to the same world and gives each of them the same result. So no request
  reads a must-gather another request selected.\<close>

theorem omc_requests_serialisable:
  assumes "omc_reach c rq w0 s" "sys_holder s = None"
  shows "\<exists>order results. distinct order \<and> serial_run c rq order w0 = (results, sys_world s) \<and>
    (\<forall>r res. sys_phase s r = Returned res \<longleftrightarrow> (r, res) \<in> set results) \<and>
    (\<forall>r. r \<notin> set order \<longrightarrow> sys_phase s r = Waiting)"
proof -
  obtain rs out wn where ok: "sys_ok c rq w0 rs out wn s" using sys_ok_reach [OF assms(1)] by blast
  have ids: "map fst out = rs" using serial_run_ids [of c rq rs w0] ok by (simp add: sys_ok_def)
  have "sys_phase s r = Waiting" if "r \<notin> set rs" for r
  proof -
    have "(r, res) \<notin> set out" for res using that ids by force
    then show ?thesis using ok assms(2) by (auto simp: sys_ok_def idle_def)
  qed
  then show ?thesis using ok assms(2) unfolding sys_ok_def by auto
qed

text \<open>A client on a world that is the list of commands run, where every call succeeds, and two requests, of
  which the first has run from lock to return.\<close>

definition demo_os :: "strs list mg_os" where
  "demo_os = \<lparr>mg_Stat = \<lambda>_ w. (Inr True, w), mg_IsNotExist = \<lambda>_. False, mg_ReadDir = \<lambda>_ w. (Inr [], w),
     mg_CreateTemp = \<lambda>d p w. (Inr (d @ ''/'' @ p), w), mg_Remove = \<lambda>_ w. (None, w),
     mg_RemoveAll = \<lambda>_ w. (None, w), mg_Open = \<lambda>_ w. (Inr [], w), mg_Untar = \<lambda>_. Inr [],
     mg_MkdirAll = \<lambda>_ w. (None, w), mg_OpenFile = \<lambda>_ w. (None, w), mg_Write = \<lambda>_ _ w. (None, w),
     mg_Command = \<lambda>_ _ as w. ((''out'', None), w @ [as])\<rparr>"

definition demo_client :: "strs list OmcClient" where
  "demo_client = \<lparr>omc_os = demo_os, omc_commandPath = ''/usr/bin/omc''\<rparr>"

definition demo_requests :: "Context \<Rightarrow> nat \<Rightarrow> omc_request" where
  "demo_requests ctx r = \<lparr>rq_ctx = ctx, rq_path = (if r = 0 then ''/a'' else ''/b''),
     rq_args = [''ovnk'', ''subnets''], rq_msg = ovnkInfo_msg\<rparr>"

definition demo_served :: "strs list omc_sys" where
  "demo_served = \<lparr>sys_world = [[''use'', ''/a''], [''ovnk'', ''subnets'']], sys_holder = None,
     sys_phase = (\<lambda>_. Waiting)(0 := Returned (Inr ''out''))\<rparr>"

definition demo_locked :: "strs list omc_sys" where
  "demo_locked = \<lparr>sys_world = [], sys_holder = Some 0, sys_phase = (\<lambda>_. Waiting)(0 := Locked)\<rparr>"

lemma demo_use:
  "useMustGather demo_client ctx ''/a'' w = (None, w @ [[''use'', ''/a'']])"
proof -
  have "ValidatePath ''/a'' ''must gather path'' False = ok" by code_simp
  then show ?thesis
    by (simp add: useMustGather_def ValidateMustGatherPath_def demo_client_def demo_os_def Let_def)
qed

lemma demo_locked_reach: "omc_reach demo_client (demo_requests ctx) [] demo_locked"
proof -
  have "omc_step demo_client (demo_requests ctx) (sys_init [])
      ((sys_init [])\<lparr>sys_holder := Some 0, sys_phase := (sys_phase (sys_init []))(0 := Locked)\<rparr>)"
    using omc_step.lock [of "sys_init []" 0 demo_client "demo_requests ctx"] by (simp add: sys_init_def)
  from omc_reach.step [OF omc_reach.init this] show ?thesis by (simp add: sys_init_def demo_locked_def)
qed

lemma demo_served_reach: "omc_reach demo_client (demo_requests ctx) [] demo_served"
proof -
  let ?c = demo_client and ?rq = "demo_requests ctx"
  define s1 where "s1 = \<lparr>sys_world = [[''use'', ''/a'']], sys_holder = Some 0, sys_phase = (\<lambda>_. Waiting)(0 := Selected)\<rparr>"
  define s2 where "s2 = \<lparr>sys_world = [[''use'', ''/a''], [''ovnk'', ''subnets'']], sys_holder = Some 0,
      sys_phase = (\<lambda>_. Waiting)(0 := Ended (Inr ''out''))\<rparr>"
  have "omc_step ?c ?rq demo_locked s1"
    using omc_step.select [of demo_locked 0 ?c ?rq "[[''use'', ''/a'']]"]
    by (simp add: demo_locked_def s1_def demo_requests_def demo_use)
  moreover have "omc_step ?c ?rq s1 s2"
    using omc_step.query [of s1 0 ?c ?rq "(''out'', None)" "sys_world s2"]
    by (simp add: s1_def s2_def demo_requests_def demo_client_def demo_os_def query_result_def)
  moreover have "omc_step ?c ?rq s2 demo_served"
    using omc_step.unlock [of s2 0 "Inr ''out''" ?c ?rq] by (simp add: s2_def demo_served_def)
  ultimately show ?thesis using demo_locked_reach omc_reach.step by meson
qed

theorem omc_requests_serialisable_witness:
  "\<exists>order results. distinct order \<and>
     serial_run demo_client (demo_requests context_Background) order [] = (results, sys_world demo_served) \<and>
     (\<forall>r res. sys_phase demo_served r = Returned res \<longleftrightarrow> (r, res) \<in> set results) \<and>
     (\<forall>r. r \<notin> set order \<longrightarrow> sys_phase demo_served r = Waiting)"
  by (rule omc_requests_serialisable [OF demo_served_reach]) (simp add: demo_served_def)

text \<open>The steps a request that holds the lock has left, and what the holder does next: while it holds the
  lock no other request moves.\<close>

fun left_steps :: "phase \<Rightarrow> nat" where
  "left_steps Locked = 2"
| "left_steps Selected = 1"
| "left_steps _ = 0"

definition lock_freed :: "nat \<Rightarrow> 'w omc_sys \<Rightarrow> bool" where
  "lock_freed h s \<longleftrightarrow> sys_holder s = None \<and> (\<exists>res. sys_phase s h = Returned res)"

lemma holder_phase:
  assumes "omc_reach c rq w0 s" "sys_holder s = Some h"
  obtains (locked) "sys_phase s h = Locked" | (selected) "sys_phase s h = Selected"
  | (ended) res where "sys_phase s h = Ended res"
proof -
  obtain rs out wn where "sys_ok c rq w0 rs out wn s" using sys_ok_reach [OF assms(1)] by blast
  then have "holder_at c (rq h) wn (sys_phase s h) (sys_world s)" using assms(2) by (simp add: sys_ok_def)
  then show thesis using that by (cases "sys_phase s h") auto
qed

lemma holder_moves:
  assumes "omc_reach c rq w0 s" "sys_holder s = Some h"
  shows "\<exists>t. omc_step c rq s t"
  using assms
proof (cases rule: holder_phase)
  case locked
  obtain v w where u: "useMustGather c (rq_ctx (rq h)) (rq_path (rq h)) (sys_world s) = (v, w)"
    by (cases "useMustGather c (rq_ctx (rq h)) (rq_path (rq h)) (sys_world s)")
  then show ?thesis
    using omc_step.select [where rq = rq, OF locked] omc_step.select_fail [where rq = rq, OF locked] by (cases v) blast+
next
  case selected
  then show ?thesis using omc_step.query [where rq = rq] by (metis prod.exhaust)
next
  case (ended res)
  then show ?thesis using omc_step.unlock by blast
qed

lemma holder_only:
  assumes "omc_reach c rq w0 s" "sys_holder s = Some h" "\<not> idle (sys_phase s r)"
  shows "r = h"
  using sys_ok_reach [OF assms(1)] sys_ok_holder [OF _ assms(3)] assms(2) by (metis option.inject)

lemma holder_step:
  assumes "omc_reach c rq w0 s" "sys_holder s = Some h" "omc_step c rq s t"
  shows "sys_holder t = Some h \<and> left_steps (sys_phase t h) < left_steps (sys_phase s h) \<or> lock_freed h t"
  using assms(3)
proof cases
  case (unlock r res)
  then have "r = h" using holder_only [OF assms(1,2), of r] by simp
  then show ?thesis using unlock by (simp add: lock_freed_def)
next
  case (select r w)
  then have "r = h" using holder_only [OF assms(1,2), of r] by simp
  then show ?thesis using select assms(2) by simp
next
  case (select_fail r e w)
  then have "r = h" using holder_only [OF assms(1,2), of r] by simp
  then show ?thesis using select_fail assms(2) by simp
next
  case (query r a w)
  then have "r = h" using holder_only [OF assms(1,2), of r] by simp
  then show ?thesis using query assms(2) by simp
qed (use assms(2) in simp)

text \<open>Claim C12: the lock is always released. In every reachable state in which a request holds the lock, a step
  is possible, and however the requests are scheduled from there, that request has returned and the
  lock is free after at most three steps, whether or not its must-gather can be selected. And in every
  reachable state in which some request has not returned a step is possible.\<close>

theorem omc_lock_released:
  assumes "omc_reach c rq w0 s" "\<nexists>res. sys_phase s r = Returned res"
  shows "(\<exists>s'. omc_step c rq s s') \<and>
    (\<forall>h. sys_holder s = Some h \<longrightarrow> within (omc_step c rq) (lock_freed h) 3 s)"
proof -
  have "within (omc_step c rq) (lock_freed h) 3 s" if "sys_holder s = Some h" for h
  proof (rule within_measure [where I = "\<lambda>s. omc_reach c rq w0 s \<and> sys_holder s = Some h" and m = "\<lambda>s. left_steps (sys_phase s h)"])
    fix s t assume "omc_reach c rq w0 s \<and> sys_holder s = Some h" "omc_step c rq s t"
    then show "(omc_reach c rq w0 t \<and> sys_holder t = Some h) \<and> left_steps (sys_phase t h) < left_steps (sys_phase s h) \<or> lock_freed h t"
      using holder_step [of c rq w0 s h t] omc_reach.step [of c rq w0 s t] by simp
  next
    show "left_steps (sys_phase s h) < 3" by (cases "sys_phase s h") simp_all
  qed (use assms(1) that in \<open>auto dest: holder_moves\<close>)
  moreover have "\<exists>s'. omc_step c rq s s'"
  proof (cases "sys_holder s")
    case None
    then have "idle (sys_phase s r)" using sys_ok_reach [OF assms(1)] by (auto simp: sys_ok_def)
    then have "sys_phase s r = Waiting" using assms(2) by (auto simp: idle_def)
    then show ?thesis using omc_step.lock [OF _ None] by blast
  next
    case (Some h)
    then show ?thesis by (rule holder_moves [OF assms(1)])
  qed
  ultimately show ?thesis by blast
qed

theorem omc_lock_released_witness:
  "(\<exists>s'. omc_step demo_client (demo_requests context_Background) demo_locked s') \<and>
   within (omc_step demo_client (demo_requests context_Background)) (lock_freed 0) 3 demo_locked"
proof -
  have "\<nexists>res. sys_phase demo_locked 1 = Returned res" "sys_holder demo_locked = Some 0"
    by (simp_all add: demo_locked_def)
  with omc_lock_released [OF demo_locked_reach] show ?thesis by blast
qed

end
