(* ===== verification/OvsdbTool.thy ===== *)
theory OvsdbTool
  imports OmcClient GoJson "HOL-Library.AList"
begin

text \<open>
  The must-gather tools on OVN database files, \<^verbatim>\<open>pkg/must-gather/ovsdb-tool\<close>: finding the network logs,
  unpacking the database archive, listing the database files with the nodes they come from, and
  running an ovsdb query on one of them. The operating system is the record \<open>mg_os\<close>; decoding and
  encoding JSON and decoding a pod list are the parameters of the record \<open>json_lib\<close>. A closed file
  handle leaves no trace in the world, so \<^verbatim>\<open>Close\<close> is not modelled.
\<close>

section \<open>JSON\<close>

text \<open>\<^verbatim>\<open>json.Marshal\<close> writes the members of a map in the order of their keys: a map is given as the list
  of its members in that order.\<close>

record json_lib =
  json_Unmarshal :: "string \<Rightarrow> json result"
  json_Marshal :: "json \<Rightarrow> string result"
  json_PodList :: "string \<Rightarrow> (string \<times> string) list result"

section \<open>The network logs directory\<close>

definition networkLogsDirectory :: string where "networkLogsDirectory = ''network_logs''"
definition ovnkDatabaseStore :: string where "ovnkDatabaseStore = ''ovnk_database_store''"
definition ovnkubeNodeLabelSelector :: string where "ovnkubeNodeLabelSelector = ''app=ovnkube-node''"

definition multipleDirs_msg :: string where
  "multipleDirs_msg = ''must gather path contains multiple directories: %v''"
definition noDirs_msg :: string where
  "noDirs_msg = ''must gather path does not contain any directories: %v''"
definition readMg_msg :: string where "readMg_msg = ''failed to read must gather path: %w''"
definition nlMissing_msg :: string where "nlMissing_msg = ''network logs directory %s not found: %w''"
definition nlStat_msg :: string where "nlStat_msg = ''failed to stat network logs directory %s: %w''"

text \<open>The loop over the directory entries; \<open>None\<close> is its early return when there is a second directory.\<close>

fun dir_loop :: "(string \<times> bool) list \<Rightarrow> string \<Rightarrow> nat \<Rightarrow> (string \<times> nat) option" where
  "dir_loop [] dirName count = Some (dirName, count)"
| "dir_loop ((name, isDir) # dirs) dirName count =
     (if isDir then (if count + 1 > 1 then None else dir_loop dirs name (count + 1))
      else dir_loop dirs dirName count)"

definition getNetworkLogsDirectory :: "'w mg_os \<Rightarrow> string \<Rightarrow> ('w, string) effect" where
  "getNetworkLogsDirectory os mustgatherPath w =
     (case ValidateMustGatherPath os mustgatherPath w of
        (Some e, w1) \<Rightarrow> (Inl (Errorf omcValidate_msg [FErr e]), w1)
      | (None, w1) \<Rightarrow>
     (case mg_ReadDir os mustgatherPath w1 of
        (Inl e, w2) \<Rightarrow> (Inl (Errorf readMg_msg [FErr e]), w2)
      | (Inr dirs, w2) \<Rightarrow>
     (case dir_loop dirs [] 0 of
        None \<Rightarrow> (Inl (Errorf multipleDirs_msg [FStrs (map fst dirs)]), w2)
      | Some (dirName, count) \<Rightarrow>
          if count = 0 then (Inl (Errorf noDirs_msg [FStrs (map fst dirs)]), w2)
          else
            (let networkLogsPath = JoinPath [mustgatherPath, dirName, networkLogsDirectory] in
             case mg_Stat os networkLogsPath w2 of
               (Inl e, w3) \<Rightarrow>
                 (Inl (Errorf (if mg_IsNotExist os e then nlMissing_msg else nlStat_msg)
                    [FStr networkLogsPath, FErr e]), w3)
             | (Inr _, w3) \<Rightarrow> (Inr networkLogsPath, w3)))))"

definition isWritable :: "'w mg_os \<Rightarrow> string \<Rightarrow> ('w, bool) effect" where
  "isWritable os path w =
     (case mg_CreateTemp os path ''tmpfile'' w of
        (Inl e, w1) \<Rightarrow> (Inl (Errorf ''failed to create temporary file: %w'' [FErr e]), w1)
      | (Inr name, w1) \<Rightarrow> (Inr True, snd (mg_Remove os name w1)))"

section \<open>Unpacking the archive\<close>

definition TypeReg :: char where "TypeReg = CHR ''0''"
definition TypeDir :: char where "TypeDir = CHR ''5''"

definition inside :: "string \<Rightarrow> string \<Rightarrow> bool" where
  \<comment> \<open>the check on every destination path\<close>
  "inside networkLogsPath destPath \<longleftrightarrow> HasPrefix (Clean destPath @ ''/'') (Clean networkLogsPath @ ''/'')"

definition badDir_msg :: string where "badDir_msg = ''invalid directory path in archive: %s''"
definition badFile_msg :: string where "badFile_msg = ''invalid file path in archive: %s''"
definition badType_msg :: string where "badType_msg = ''unsupported tar entry type %v for %s''"
definition mkParent_msg :: string where "mkParent_msg = ''failed to create parent directory: %w''"
definition dbFile_msg :: string where "dbFile_msg = ''failed to create db file: %w''"
definition dbCopy_msg :: string where "dbCopy_msg = ''failed to copy db file: %w''"

text \<open>The function literal that creates one file; \<^verbatim>\<open>io.Copy\<close> writes what can be read and reports a write
  error or else the read error.\<close>

definition extract_file ::
  "'w mg_os \<Rightarrow> string \<Rightarrow> tar_header \<Rightarrow> string \<Rightarrow> err option \<Rightarrow> 'w \<Rightarrow> validation \<times> 'w" where
  "extract_file os networkLogsPath header data rd w =
     (let destPath = JoinPath [networkLogsPath, th_Name header] in
      if \<not> inside networkLogsPath destPath then (Some (Errorf badFile_msg [FStr (th_Name header)]), w)
      else
     (case mg_MkdirAll os (Dir destPath) w of
        (Some e, w1) \<Rightarrow> (Some (Errorf mkParent_msg [FErr e]), w1)
      | (None, w1) \<Rightarrow>
     (case mg_OpenFile os destPath w1 of
        (Some e, w2) \<Rightarrow> (Some (Errorf dbFile_msg [FErr e]), w2)
      | (None, w2) \<Rightarrow>
     (case mg_Write os destPath data w2 of
        (Some e, w3) \<Rightarrow> (Some (Errorf dbCopy_msg [FErr e]), w3)
      | (None, w3) \<Rightarrow>
          (case rd of Some e \<Rightarrow> (Some (Errorf dbCopy_msg [FErr e]), w3) | None \<Rightarrow> (ok, w3))))))"

fun extract_loop :: "'w mg_os \<Rightarrow> string \<Rightarrow> tar_item list \<Rightarrow> 'w \<Rightarrow> validation \<times> 'w" where
  "extract_loop os networkLogsPath [] w = (ok, w)"
| "extract_loop os networkLogsPath (TarError e # items) w =
     (Some (Errorf ''failed to read tar header: %w'' [FErr e]), w)"
| "extract_loop os networkLogsPath (TarEntry header data rd # items) w =
     (if th_Typeflag header = TypeDir then
        (let destPath = JoinPath [networkLogsPath, th_Name header] in
         if \<not> inside networkLogsPath destPath then (Some (Errorf badDir_msg [FStr (th_Name header)]), w)
         else (case mg_MkdirAll os destPath w of
             (Some e, w1) \<Rightarrow> (Some (Errorf ''failed to create directory: %w'' [FErr e]), w1)
           | (None, w1) \<Rightarrow> extract_loop os networkLogsPath items w1))
      else if th_Typeflag header \<noteq> TypeReg then
        (Some (Errorf badType_msg [FInt (int (code (th_Typeflag header))), FStr (th_Name header)]), w)
      else (case extract_file os networkLogsPath header data rd w of
          (Some e, w1) \<Rightarrow> (Some (Errorf dbFile_msg [FErr e]), w1)
        | (None, w1) \<Rightarrow> extract_loop os networkLogsPath items w1))"

definition nlGet_msg :: string where "nlGet_msg = ''failed to get network logs directory: %w''"
definition nlWritable_msg :: string where
  "nlWritable_msg = ''failed to check if network logs path is writable: %w''"
definition notWritable_msg :: string where
  "notWritable_msg = ''network logs path does not have write permissions''"
definition rmDb_msg :: string where "rmDb_msg = ''failed to remove db directory: %w''"
definition tarMissing_msg :: string where
  "tarMissing_msg = ''ovnk database store tar file not found: %w''"

text \<open>From the check of the database directory on.\<close>

definition extract_into :: "'w mg_os \<Rightarrow> string \<Rightarrow> ('w, string) effect" where
  "extract_into os networkLogsPath w =
     (let dbPath = JoinPath [networkLogsPath, ovnkDatabaseStore];
          dbTarPath = JoinPath [networkLogsPath, ovnkDatabaseStore @ ''.tar.gz''] in
      case mg_Stat os dbPath w of (stat, w1) \<Rightarrow>
        if stat = Inr True then (Inr dbPath, w1)
        else
      (case (if stat = Inr False then mg_RemoveAll os dbPath w1 else (None, w1)) of
         (Some e, w2) \<Rightarrow> (Inl (Errorf rmDb_msg [FErr e]), w2)
       | (None, w2) \<Rightarrow>
      (case mg_Stat os dbTarPath w2 of (tar, w3) \<Rightarrow>
         if (case tar of Inl e \<Rightarrow> mg_IsNotExist os e | Inr _ \<Rightarrow> False) then
           (Inl (Errorf tarMissing_msg (case tar of Inl e \<Rightarrow> [FErr e] | Inr _ \<Rightarrow> [])), w3)
         else
      (case mg_Open os dbTarPath w3 of
         (Inl e, w4) \<Rightarrow> (Inl (Errorf ''failed to open gz file: %w'' [FErr e]), w4)
       | (Inr gzFile, w4) \<Rightarrow>
      (case mg_Untar os gzFile of
         Inl e \<Rightarrow> (Inl (Errorf ''failed to create gzip reader: %w'' [FErr e]), w4)
       | Inr items \<Rightarrow>
      (case extract_loop os networkLogsPath items w4 of
         (Some e, w5) \<Rightarrow> (Inl e, w5)
       | (None, w5) \<Rightarrow> (Inr dbPath, w5)))))))"

definition extractOvnDatabases :: "'w mg_os \<Rightarrow> string \<Rightarrow> ('w, string) effect" where
  "extractOvnDatabases os mustgatherPath w =
     (case getNetworkLogsDirectory os mustgatherPath w of
        (Inl e, w1) \<Rightarrow> (Inl (Errorf nlGet_msg [FErr e]), w1)
      | (Inr networkLogsPath, w1) \<Rightarrow>
     (case isWritable os networkLogsPath w1 of
        (Inl e, w2) \<Rightarrow> (Inl (Errorf nlWritable_msg [FErr e]), w2)
      | (Inr writable, w2) \<Rightarrow>
          if \<not> writable then (Inl (Errorf notWritable_msg []), w2)
          else extract_into os networkLogsPath w2))"

section \<open>Queries\<close>

definition ovnTableNamesPattern :: pat where
  "ovnTableNamesPattern = Pat True (RSeq (RCls [(CHR ''A'', CHR ''Z'')]) (RStar (RCls alnum_us))) True"

definition validateOVNTableName :: "string \<Rightarrow> validation" where
  "validateOVNTableName table =
     (if table = [] then Some (Errorf ''table name is required'' [])
      else if \<not> MatchString ovnTableNamesPattern table then
        Some (Errorf ''invalid OVN table name: %s'' [FStr table])
      else ok)"

definition OVN_Northbound :: string where "OVN_Northbound = ''OVN_Northbound''"
definition OVN_Southbound :: string where "OVN_Southbound = ''OVN_Southbound''"

definition schema_msg :: string where
  "schema_msg = ''schema name must be either \"OVN_Northbound\" or \"OVN_Southbound\": %s''"
definition condition_msg :: string where "condition_msg = ''failed to parse condition %q: %w''"

fun parse_conditions :: "json_lib \<Rightarrow> strs \<Rightarrow> json list result" where
  "parse_conditions lib [] = Inr []"
| "parse_conditions lib (condStr # conditions) =
     (case json_Unmarshal lib condStr of
        Inl e \<Rightarrow> Inl (Errorf condition_msg [FStr condStr, FErr e])
      | Inr cond \<Rightarrow> (case parse_conditions lib conditions of
            Inl e \<Rightarrow> Inl e
          | Inr conds \<Rightarrow> Inr (cond # conds)))"

definition select_query :: "string \<Rightarrow> string \<Rightarrow> json list \<Rightarrow> strs \<Rightarrow> json" where
  "select_query schemaName table parsedConditions columns =
     JArr [JStr schemaName,
       JObj ((if length columns > 0 then [(''columns'', JArr (map JStr columns))] else []) @
         [(''op'', JStr ''select''), (''table'', JStr table), (''where'', JArr parsedConditions)])]"

definition buildQueryString :: "json_lib \<Rightarrow> string \<Rightarrow> string \<Rightarrow> strs \<Rightarrow> strs \<Rightarrow> string result" where
  "buildQueryString lib schemaName table conditions columns =
     (if schemaName \<noteq> OVN_Northbound \<and> schemaName \<noteq> OVN_Southbound then
        Inl (Errorf schema_msg [FStr schemaName])
      else if table = [] then Inl (Errorf ''table must not be empty'' [])
      else (case parse_conditions lib conditions of
          Inl e \<Rightarrow> Inl e
        | Inr parsedConditions \<Rightarrow>
            (case json_Marshal lib (select_query schemaName table parsedConditions columns) of
               Inl e \<Rightarrow> Inl (Errorf ''failed to marshal query to JSON: %w'' [FErr e])
             | Inr bytes \<Rightarrow> Inr bytes)))"

section \<open>The tool\<close>

record 'w OvsdbTool =
  ot_commandPath :: string
  ot_omcClient :: "'w OmcClient"
  ot_json :: json_lib

definition getOvsdbToolCommandPath :: "(string \<Rightarrow> string result) \<Rightarrow> string result" where
  "getOvsdbToolCommandPath LookPath = (case LookPath ''ovsdb-tool'' of
       Inl e \<Rightarrow> Inl (Errorf ''failed to look path for ovsdb-tool: %w'' [FErr e])
     | Inr path \<Rightarrow> Inr path)"

text \<open>\<^verbatim>\<open>NewOvsdbTool\<close>; a nil client is \<open>None\<close>.\<close>

definition NewOvsdbTool ::
  "(string \<Rightarrow> string result) \<Rightarrow> json_lib \<Rightarrow> 'w OmcClient option \<Rightarrow> 'w OvsdbTool result" where
  "NewOvsdbTool LookPath lib omcClient = (case omcClient of
       None \<Rightarrow> Inl (Errorf ''omcClient is required'' [])
     | Some c \<Rightarrow> (case getOvsdbToolCommandPath LookPath of
           Inl e \<Rightarrow> Inl (Errorf ''failed to get ovsdb tool command path: %w'' [FErr e])
         | Inr commandPath \<Rightarrow> Inr \<lparr>ot_commandPath = commandPath, ot_omcClient = c, ot_json = lib\<rparr>))"

abbreviation ot_os :: "'w OvsdbTool \<Rightarrow> 'w mg_os" where
  "ot_os s \<equiv> omc_os (ot_omcClient s)"

definition dbName_msg :: string where
  "dbName_msg = ''database name is required and must end with _nbdb or _sbdb: %s''"
definition dbTraversal_msg :: string where
  "dbTraversal_msg = ''database name %s contains path traversal characters''"
definition dbMissing_msg :: string where "dbMissing_msg = ''database file %s not found: %w''"
definition dbStat_msg :: string where "dbStat_msg = ''failed to stat database file %s: %w''"
definition query_msg :: string where "query_msg = ''failed to query database. output: %s, error: %w''"

definition QueryDatabase ::
  "'w OvsdbTool \<Rightarrow> Context \<Rightarrow> string \<Rightarrow> string \<Rightarrow> string \<Rightarrow> strs \<Rightarrow> strs \<Rightarrow> ('w, string) effect" where
  "QueryDatabase s ctx mustGatherPath dbName table conditions columns w =
     (if dbName = [] \<or> (\<not> HasSuffix dbName ''_nbdb'' \<and> \<not> HasSuffix dbName ''_sbdb'') then
        (Inl (Errorf dbName_msg [FStr dbName]), w)
      else if Base dbName \<noteq> dbName then (Inl (Errorf dbTraversal_msg [FStr dbName]), w)
      else (case validateOVNTableName table of
        Some e \<Rightarrow> (Inl (Errorf ''failed to validate table: %w'' [FErr e]), w)
      | None \<Rightarrow>
     (let schemaName = (if HasSuffix dbName ''_nbdb'' then OVN_Northbound else OVN_Southbound) in
      case buildQueryString (ot_json s) schemaName table conditions columns of
        Inl e \<Rightarrow> (Inl (Errorf ''failed to build query string: %w'' [FErr e]), w)
      | Inr queryString \<Rightarrow>
     (case getNetworkLogsDirectory (ot_os s) mustGatherPath w of
        (Inl e, w1) \<Rightarrow> (Inl (Errorf nlGet_msg [FErr e]), w1)
      | (Inr networkLogsPath, w1) \<Rightarrow>
     (let dbPath = JoinPath [networkLogsPath, ovnkDatabaseStore, dbName] in
      case mg_Stat (ot_os s) dbPath w1 of
        (Inl e, w2) \<Rightarrow>
          (Inl (Errorf (if mg_IsNotExist (ot_os s) e then dbMissing_msg else dbStat_msg)
             [FStr dbPath, FErr e]), w2)
      | (Inr _, w2) \<Rightarrow>
     (case mg_Command (ot_os s) ctx (ot_commandPath s) [''query'', dbPath, queryString] w2 of
        ((output, Some e), w3) \<Rightarrow> (Inl (Errorf query_msg [FStr output, FErr e]), w3)
      | ((output, None), w3) \<Rightarrow> (Inr output, w3)))))))"

section \<open>Listing\<close>

text \<open>One directory entry added to the map from pod names to file names, an association list.\<close>

definition add_dbFile :: "bool \<Rightarrow> (string \<times> string) list \<Rightarrow> string \<times> bool \<Rightarrow> (string \<times> string) list" where
  "add_dbFile isNorthbound dbFileNames dbFile =
     (case dbFile of (name, isDir) \<Rightarrow>
       if isDir then dbFileNames
       else (let lastIndex = LastIndex name CHR ''_'' in
         if lastIndex = -1 \<or> lastIndex = 0 then dbFileNames
         else (let podName = take (nat lastIndex) name in
           if isNorthbound then
             (if HasSuffix name ''_nbdb'' then AList.update podName name dbFileNames else dbFileNames)
           else
             (if HasSuffix name ''_sbdb'' then AList.update podName name dbFileNames else dbFileNames))))"

definition listOvnDatabases :: "'w mg_os \<Rightarrow> string \<Rightarrow> bool \<Rightarrow> ('w, (string \<times> string) list) effect" where
  "listOvnDatabases os mustgatherPath isNorthbound w =
     (case extractOvnDatabases os mustgatherPath w of
        (Inl e, w1) \<Rightarrow> (Inl (Errorf ''failed to extract ovn databases: %w'' [FErr e]), w1)
      | (Inr dbPath, w1) \<Rightarrow>
     (case mg_ReadDir os dbPath w1 of
        (Inl e, w2) \<Rightarrow> (Inl (Errorf ''failed to read ovn databases: %w'' [FErr e]), w2)
      | (Inr dbFiles, w2) \<Rightarrow> (Inr (foldl (add_dbFile isNorthbound) [] dbFiles), w2)))"

record dbInfo =
  Database :: string
  Node :: string

text \<open>The loop over the pods, given as name and node name.\<close>

fun node_loop :: "(string \<times> string) list \<Rightarrow> (string \<times> string) list \<Rightarrow> dbInfo list" where
  "node_loop [] dbFiles = []"
| "node_loop ((podName, nodeName) # pods) dbFiles =
     (if length dbFiles = 0 then []
      else (case map_of dbFiles podName of
          None \<Rightarrow> node_loop pods dbFiles
        | Some dbFile \<Rightarrow>
            if nodeName = [] then node_loop pods dbFiles
            else \<lparr>Database = dbFile, Node = nodeName\<rparr> # node_loop pods (AList.delete podName dbFiles)))"

definition dbInfo_json :: "dbInfo \<Rightarrow> json" where
  "dbInfo_json d = JObj [(''database'', JStr (Database d)), (''node'', JStr (Node d))]"

definition podUnmarshal_msg :: string where
  "podUnmarshal_msg = ''failed to unmarshal ovnkube-node pods data: %w''"
definition dbMarshal_msg :: string where
  "dbMarshal_msg = ''failed to marshal database to node data: %w''"

definition getDatabaseToNodeMapping :: "'w OvsdbTool \<Rightarrow> Context \<Rightarrow> string \<Rightarrow> bool \<Rightarrow> ('w, string) effect" where
  "getDatabaseToNodeMapping s ctx mustGatherPath isNorthbound w =
     (case listOvnDatabases (ot_os s) mustGatherPath isNorthbound w of
        (Inl e, w1) \<Rightarrow> (Inl (Errorf ''failed to list ovn databases: %w'' [FErr e]), w1)
      | (Inr dbFiles, w1) \<Rightarrow>
          if length dbFiles = 0 then (Inl (Errorf ''no ovn databases found'' []), w1)
          else
     (case omc_ListResources (ot_omcClient s) ctx mustGatherPath ''pod'' [] ovnkubeNodeLabelSelector
             \<lparr>OutputType = JSONOutputType\<rparr> w1 of
        (Inl e, w2) \<Rightarrow> (Inl (Errorf ''failed to list pods: %w'' [FErr e]), w2)
      | (Inr data, w2) \<Rightarrow>
     (case json_PodList (ot_json s) data of
        Inl e \<Rightarrow> (Inl (Errorf podUnmarshal_msg [FErr e]), w2)
      | Inr pods \<Rightarrow>
     (case json_Marshal (ot_json s) (JArr (map dbInfo_json (node_loop pods dbFiles))) of
        Inl e \<Rightarrow> (Inl (Errorf dbMarshal_msg [FErr e]), w2)
      | Inr dbToNode \<Rightarrow> (Inr dbToNode, w2)))))"

definition mapping_msg :: string where "mapping_msg = ''failed to get database to node mapping: %w''"

definition ot_ListNorthboundDatabases :: "'w OvsdbTool \<Rightarrow> Context \<Rightarrow> string \<Rightarrow> ('w, string) effect" where
  "ot_ListNorthboundDatabases s ctx mustGatherPath w =
     (case getDatabaseToNodeMapping s ctx mustGatherPath True w of
        (Inl e, w1) \<Rightarrow> (Inl (Errorf mapping_msg [FErr e]), w1)
      | (Inr dbToNode, w1) \<Rightarrow> (Inr dbToNode, w1))"

definition ot_ListSouthboundDatabases :: "'w OvsdbTool \<Rightarrow> Context \<Rightarrow> string \<Rightarrow> ('w, string) effect" where
  "ot_ListSouthboundDatabases s ctx mustGatherPath w =
     (case getDatabaseToNodeMapping s ctx mustGatherPath False w of
        (Inl e, w1) \<Rightarrow> (Inl (Errorf mapping_msg [FErr e]), w1)
      | (Inr dbToNode, w1) \<Rightarrow> (Inr dbToNode, w1))"

section \<open>The database file map\<close>

definition db_suffix :: "bool \<Rightarrow> string" where
  "db_suffix isNorthbound = (if isNorthbound then ''_nbdb'' else ''_sbdb'')"

lemma db_suffix_LastIndex: "LastIndex (p @ db_suffix nb) CHR ''_'' = int (length p)"
  using LastIndex_append [of "CHR ''_''" "''nbdb''" p] LastIndex_append [of "CHR ''_''" "''sbdb''" p]
  by (simp add: db_suffix_def)

text \<open>An entry is added exactly when it is a file named after a pod and the wanted suffix.\<close>

lemma add_dbFile_suffix:
  "add_dbFile nb m (name, isDir) =
     (if \<not> isDir \<and> LastIndex name CHR ''_'' \<notin> {-1, 0} \<and> HasSuffix name (db_suffix nb)
      then AList.update (take (nat (LastIndex name CHR ''_'')) name) name m else m)"
  by (cases nb) (auto simp: add_dbFile_def Let_def db_suffix_def)

lemma add_dbFile_eq:
  "add_dbFile nb m (name, isDir) =
     (if \<not> isDir \<and> (\<exists>p. p \<noteq> [] \<and> name = p @ db_suffix nb)
      then AList.update (take (length name - 5) name) name m else m)"
proof (cases "\<exists>p. name = p @ db_suffix nb")
  case True
  then obtain p where p: "name = p @ db_suffix nb" by blast
  then have "HasSuffix name (db_suffix nb)" by (simp add: HasSuffix_iff suffix_def)
  moreover have "length (db_suffix nb) = 5" by (simp add: db_suffix_def)
  ultimately show ?thesis
    using db_suffix_LastIndex [of p nb] by (simp add: add_dbFile_suffix p)
next
  case False
  then have "\<not> HasSuffix name (db_suffix nb)" by (auto simp: HasSuffix_iff suffix_def)
  with False show ?thesis by (auto simp: add_dbFile_suffix)
qed

lemma dbFiles_map:
  "map_of (foldl (add_dbFile nb) m entries) p =
     (if p \<noteq> [] \<and> (p @ db_suffix nb, False) \<in> set entries then Some (p @ db_suffix nb) else map_of m p)"
proof (induction entries arbitrary: m)
  case (Cons a entries)
  obtain name d where a: "a = (name, d)" by (cases a)
  have len: "length (db_suffix nb) = 5" by (simp add: db_suffix_def)
  have "map_of (add_dbFile nb m a) p =
      (if p \<noteq> [] \<and> a = (p @ db_suffix nb, False) then Some (p @ db_suffix nb) else map_of m p)"
    using len by (auto simp: a add_dbFile_eq update_conv')
  with Cons show ?case by auto
qed simp

lemma dbFiles_distinct: "distinct (map fst m) \<Longrightarrow> distinct (map fst (foldl (add_dbFile nb) m entries))"
proof (induction entries arbitrary: m)
  case (Cons a entries)
  obtain name d where a: "a = (name, d)" by (cases a)
  have "distinct (map fst (add_dbFile nb m a))"
    using Cons.prems by (simp add: a add_dbFile_eq distinct_update)
  with Cons.IH show ?case by simp
qed simp

section \<open>The node of each database\<close>

definition node_of :: "(string \<times> string) list \<Rightarrow> string \<Rightarrow> string option" where
  \<comment> \<open>the node of the first pod of that name that is scheduled\<close>
  "node_of pods p = map_option snd (find (\<lambda>(q, n). q = p \<and> n \<noteq> []) pods)"

lemma node_of_Cons:
  "node_of ((q, n) # pods) p = (if q = p \<and> n \<noteq> [] then Some n else node_of pods p)"
  by (simp add: node_of_def)

lemma node_loop_set:
  "\<lparr>Database = f, Node = n\<rparr> \<in> set (node_loop pods files) \<longleftrightarrow>
     (\<exists>p. map_of files p = Some f \<and> node_of pods p = Some n)"
proof (induction pods arbitrary: files)
  case Nil
  show ?case by (simp add: node_of_def)
next
  case (Cons a pods)
  obtain q m where a: "a = (q, m)" by (cases a)
  show ?case
  proof (cases "map_of files q = None \<or> m = []")
    case True
    then have "node_loop (a # pods) files = (if files = [] then [] else node_loop pods files)"
      by (auto simp: a split: option.splits)
    moreover have "node_of (a # pods) p = node_of pods p" if "map_of files p = Some f" for p
      using True that by (auto simp: a node_of_Cons)
    ultimately show ?thesis using Cons.IH [of files] by auto
  next
    case False
    then obtain g where g: "map_of files q = Some g" "m \<noteq> []" by auto
    then have "files \<noteq> []" by auto
    with g have "node_loop (a # pods) files = \<lparr>Database = g, Node = m\<rparr> # node_loop pods (AList.delete q files)"
      by (simp add: a)
    moreover have "(\<exists>p. map_of files p = Some f \<and> node_of (a # pods) p = Some n) \<longleftrightarrow>
        g = f \<and> m = n \<or> (\<exists>p. p \<noteq> q \<and> map_of files p = Some f \<and> node_of pods p = Some n)"
    proof -
      have "(\<exists>p. P p) \<longleftrightarrow> P q \<or> (\<exists>p. p \<noteq> q \<and> P p)" for P by auto
      from this [of "\<lambda>p. map_of files p = Some f \<and> node_of (a # pods) p = Some n"] g show ?thesis
        by (simp add: a node_of_Cons cong: conj_cong)
    qed
    moreover have "(\<exists>p. map_of (AList.delete q files) p = Some f \<and> node_of pods p = Some n) \<longleftrightarrow>
        (\<exists>p. p \<noteq> q \<and> map_of files p = Some f \<and> node_of pods p = Some n)"
      by (intro ex_cong1) (simp add: delete_conv')
    ultimately show ?thesis using Cons.IH [of "AList.delete q files"] by auto
  qed
qed

lemma node_loop_distinct:
  "inj_on (map_of files) (dom (map_of files)) \<Longrightarrow> distinct (map Database (node_loop pods files))"
proof (induction pods files rule: node_loop.induct)
  case (2 q m pods files)
  show ?case
  proof (cases "files = [] \<or> map_of files q = None \<or> m = []")
    case True
    then show ?thesis using "2.IH"(1,2) "2.prems" by (auto split: option.splits)
  next
    case False
    then obtain g where g: "map_of files q = Some g" "m \<noteq> []" "files \<noteq> []" by auto
    let ?rest = "node_loop pods (AList.delete q files)"
    have "inj_on (map_of (AList.delete q files)) (dom (map_of (AList.delete q files)))"
      using "2.prems" by (auto simp: inj_on_def delete_conv' split: if_splits)
    then have "distinct (map Database ?rest)" using "2.IH"(3) g by auto
    moreover have "g \<notin> set (map Database ?rest)"
    proof
      assume "g \<in> set (map Database ?rest)"
      then obtain d where d: "d \<in> set ?rest" "Database d = g" by auto
      then have "\<lparr>Database = g, Node = Node d\<rparr> \<in> set ?rest" by (metis dbInfo.surjective old.unit.exhaust)
      then obtain p where "map_of (AList.delete q files) p = Some g"
        unfolding node_loop_set by blast
      then have "p \<noteq> q" "map_of files p = Some g" by (auto simp: delete_conv' split: if_splits)
      with "2.prems" g(1) show False by (auto simp: inj_on_def dom_def)
    qed
    ultimately show ?thesis using g by simp
  qed
qed simp

section \<open>Where the paths of the tool lie\<close>

lemma JoinPath3_elems:
  assumes "IsAbs a" "\<not> IsAbs r" "''..'' \<notin> set (clean_elems r)"
  shows "clean_elems (JoinPath [a, b, r]) = clean_elems (a @ slash # b) @ clean_elems r \<and> IsAbs (JoinPath [a, b, r])"
proof -
  have a: "a \<noteq> []" using assms(1) by (auto simp: IsAbs_def HasPrefix_iff)
  then have j: "JoinPath [a, b, r] = Clean ((a @ slash # b) @ slash # r)" by (simp add: JoinPath_def)
  have "clean_elems ((a @ slash # b) @ slash # r) = clean_elems (a @ slash # b) @ clean_elems r"
    using a assms(2,3) by (intro clean_elems_join_rel) auto
  moreover have "IsAbs ((a @ slash # b) @ slash # r)" using a assms(1) by (metis IsAbs_append Nil_is_append_conv)
  ultimately show ?thesis using j by simp
qed

lemma rel_names [simp]:
  "clean_elems networkLogsDirectory = [networkLogsDirectory]" "\<not> IsAbs networkLogsDirectory"
  "clean_elems ovnkDatabaseStore = [ovnkDatabaseStore]" "\<not> IsAbs ovnkDatabaseStore"
  "clean_elems (ovnkDatabaseStore @ ''.tar.gz'') = [ovnkDatabaseStore @ ''.tar.gz'']"
  "\<not> IsAbs (ovnkDatabaseStore @ ''.tar.gz'')"
  "''..'' \<noteq> networkLogsDirectory" "''..'' \<noteq> ovnkDatabaseStore" "''..'' \<noteq> ovnkDatabaseStore @ ''.tar.gz''"
  by code_simp+

text \<open>The network logs directory the tool finds in a valid must-gather path.\<close>

definition logs_dir :: "'w mg_os \<Rightarrow> string \<Rightarrow> string \<Rightarrow> bool" where
  "logs_dir os path nl \<longleftrightarrow> ValidatePath path ''must gather path'' False = ok \<and>
     (\<exists>entries d w w'. mg_ReadDir os path w = (Inr entries, w') \<and> (d, True) \<in> set entries \<and>
        nl = JoinPath [path, d, networkLogsDirectory])"

lemma valid_path_abs: "ValidatePath path ty False = ok \<Longrightarrow> IsAbs path"
  by (auto simp: ValidatePath_ok split: if_splits)

lemma logs_dir_elems:
  assumes "logs_dir os path nl"
  shows "IsAbs nl \<and> clean_elems nl \<noteq> []"
proof -
  obtain d where "IsAbs path" "nl = JoinPath [path, d, networkLogsDirectory]"
    using assms valid_path_abs by (auto simp: logs_dir_def)
  then show ?thesis using JoinPath3_elems [of path networkLogsDirectory d] by simp
qed

text \<open>The check on destinations is exactly containment.\<close>

lemma inside_below:
  assumes "logs_dir os path nl"
  shows "inside nl (JoinPath [nl, name]) \<longleftrightarrow> below nl (JoinPath [nl, name])"
proof -
  have nl: "IsAbs nl" "clean_elems nl \<noteq> []" using logs_dir_elems [OF assms] by auto
  then have "nl \<noteq> []" by (auto simp: IsAbs_def HasPrefix_iff)
  then have "IsAbs (JoinPath [nl, name])" using nl by (simp add: JoinPath2)
  from prefix_check_below [OF nl(1) this nl(2)] show ?thesis by (simp add: inside_def)
qed

lemma store_below:
  "below nl (JoinPath [nl, ovnkDatabaseStore])" "below nl (JoinPath [nl, ovnkDatabaseStore @ ''.tar.gz''])"
  by (rule below_JoinPath; simp)+

lemma logs_JoinPath: "logs_dir os path nl \<Longrightarrow> Clean (JoinPath [nl, name]) = JoinPath [nl, name]"
proof -
  assume "logs_dir os path nl"
  then have "nl \<noteq> []" using logs_dir_elems [of os path nl] by (auto simp: IsAbs_def HasPrefix_iff)
  then show ?thesis by (simp add: JoinPath2)
qed

section \<open>The calls the tool may make\<close>

definition db_name :: "string \<Rightarrow> bool" where
  "db_name n \<longleftrightarrow> slash \<notin> set n \<and> (suffix ''_nbdb'' n \<or> suffix ''_sbdb'' n)"

definition db_schema :: "string \<Rightarrow> string" where
  "db_schema n = (if suffix ''_nbdb'' n then ''OVN_Northbound'' else ''OVN_Southbound'')"

inductive db_op :: "'w OvsdbTool \<Rightarrow> Context \<Rightarrow> string \<Rightarrow> mg_op \<Rightarrow> bool" for s ctx path where
  omc: "omc_op (omc_commandPath (ot_omcClient s)) ctx path a \<Longrightarrow> db_op s ctx path a"
| list: "ValidatePath path ''must gather path'' False = ok \<Longrightarrow> db_op s ctx path (OReadDir path)"
| read: "logs_dir (ot_os s) path nl \<Longrightarrow> below nl p \<Longrightarrow> a \<in> {OStat p, OReadDir p, OOpen p} \<Longrightarrow> db_op s ctx path a"
| temp: "logs_dir (ot_os s) path nl \<Longrightarrow> db_op s ctx path (OCreateTemp nl ''tmpfile'')"
| untemp: "logs_dir (ot_os s) path nl \<Longrightarrow> mg_CreateTemp (ot_os s) nl ''tmpfile'' w = (Inr f, w') \<Longrightarrow>
    db_op s ctx path (ORemove f)"
| modify: "logs_dir (ot_os s) path nl \<Longrightarrow> below nl p \<Longrightarrow> Clean p = p \<Longrightarrow>
    a \<in> {ORemoveAll p, OMkdirAll p, OMkdirAll (Dir p), OOpenFile p, OWrite p t} \<Longrightarrow> db_op s ctx path a"
| query: "logs_dir (ot_os s) path nl \<Longrightarrow> db_name n \<Longrightarrow>
    json_Marshal (ot_json s) (select_query (db_schema n) table conds columns) = Inr q \<Longrightarrow>
    p = JoinPath [nl, ovnkDatabaseStore, n] \<Longrightarrow>
    db_op s ctx path (OCommand ctx (ot_commandPath s) [''query'', p, q])"

lemma dir_loop_in:
  "dir_loop dirs d0 k = Some (d, n) \<Longrightarrow> n = k \<and> d = d0 \<or> (d, True) \<in> set dirs"
proof (induction dirs arbitrary: d0 k)
  case (Cons a dirs)
  obtain name isDir where a: "a = (name, isDir)" by (cases a)
  show ?case
  proof (cases isDir)
    case True
    then have "dir_loop dirs name (k + 1) = Some (d, n)" using Cons.prems by (simp add: a split: if_splits)
    from Cons.IH [OF this] show ?thesis using True a by auto
  next
    case False
    then show ?thesis using Cons.IH [of d0 k] Cons.prems a by auto
  qed
qed simp

text \<open>With one directory among the entries, and only then, the loop finds it.\<close>

lemma dir_loop_only:
  "dir_loop dirs d0 0 = Some (d, 1) \<longleftrightarrow> map fst (filter snd dirs) = [d]"
proof (induction dirs arbitrary: d0)
  case (Cons a dirs)
  obtain name isDir where a: "a = (name, isDir)" by (cases a)
  have one: "dir_loop dirs name 1 = (if filter snd dirs = [] then Some (name, 1) else None)"
    by (induction dirs) auto
  show ?case using Cons.IH [of d0] by (auto simp: a one [unfolded One_nat_def])
qed simp

abbreviation (input) db_calls :: "'w OvsdbTool \<Rightarrow> Context \<Rightarrow> string \<Rightarrow> 'w \<Rightarrow> 'w \<Rightarrow> bool" where
  "db_calls s ctx path \<equiv> calls (mg_step (ot_os s)) (db_op s ctx path)"

lemma calls_getNetworkLogsDirectory:
  "db_calls s ctx path w (snd (getNetworkLogsDirectory (ot_os s) path w))"
proof -
  let ?os = "ot_os s"
  have v: "db_calls s ctx path w (snd (ValidateMustGatherPath ?os path w))"
    using calls_ValidateMustGatherPath [of ?os "omc_commandPath (ot_omcClient s)" ctx path w]
    by (rule calls_mono) (rule db_op.omc)
  have l: "logs_dir ?os path (JoinPath [path, d, networkLogsDirectory])"
    if "ValidateMustGatherPath ?os path w = (None, w1)" "mg_ReadDir ?os path w1 = (Inr dirs, w2)"
      "dir_loop dirs [] 0 = Some (d, n)" "n \<noteq> 0" for w1 dirs w2 d n
    using ValidateMustGatherPath_valid [OF that(1)] that(2) dir_loop_in [OF that(3)] that(4)
    by (auto simp: logs_dir_def)
  have r: "logs_dir ?os path nl \<Longrightarrow> db_op s ctx path (OStat nl)" for nl
    by (rule db_op.read [OF _ below_refl]) auto
  show ?thesis
    unfolding getNetworkLogsDirectory_def Let_def
    by (intro calls_seq_eq v calls_branches calls_case_pure_pair calls_mg_one)
      (auto intro: db_op.list r [OF l] ValidateMustGatherPath_valid)
qed

lemma getNetworkLogsDirectory_logs:
  "getNetworkLogsDirectory os path w = (Inr nl, w') \<Longrightarrow> logs_dir os path nl"
proof -
  assume "getNetworkLogsDirectory os path w = (Inr nl, w')"
  then obtain w1 dirs w2 d n where
    "ValidateMustGatherPath os path w = (None, w1)" "mg_ReadDir os path w1 = (Inr dirs, w2)"
    "dir_loop dirs [] 0 = Some (d, n)" "n \<noteq> 0" "nl = JoinPath [path, d, networkLogsDirectory]"
    by (auto simp: getNetworkLogsDirectory_def Let_def split: prod.splits option.splits sum.splits if_splits)
  then show ?thesis
    using ValidateMustGatherPath_valid [of os path w w1] dir_loop_in [of dirs "[]" 0 d n]
    by (auto simp: logs_dir_def)
qed

lemma calls_isWritable:
  "logs_dir (ot_os s) path nl \<Longrightarrow> db_calls s ctx path w (snd (isWritable (ot_os s) nl w))"
proof -
  assume l: "logs_dir (ot_os s) path nl"
  obtain r w1 where c: "mg_CreateTemp (ot_os s) nl ''tmpfile'' w = (r, w1)"
    by (cases "mg_CreateTemp (ot_os s) nl ''tmpfile'' w")
  have 1: "db_calls s ctx path w w1"
    using calls_mg_one(3) [of "db_op s ctx path" nl "''tmpfile''" "ot_os s" w] db_op.temp [OF l] c by simp
  have "db_calls s ctx path w1 (snd (mg_Remove (ot_os s) f w1))" if "r = Inr f" for f
    using db_op.untemp [OF l c [unfolded that]] by (rule calls_mg_one)
  with 1 show ?thesis by (auto simp: isWritable_def c split: sum.splits intro: calls_trans)
qed

lemma calls_extract_file:
  assumes "logs_dir (ot_os s) path nl"
  shows "db_calls s ctx path w (snd (extract_file (ot_os s) nl h t rd w))"
  unfolding extract_file_def Let_def
  by (intro calls_seq calls_branches calls_mg_one db_op.modify [OF assms])
    (auto simp: inside_below [OF assms] logs_JoinPath [OF assms])

lemma calls_extract_loop:
  assumes "logs_dir (ot_os s) path nl"
  shows "db_calls s ctx path w (snd (extract_loop (ot_os s) nl items w))"
proof (induction items arbitrary: w)
  case (Cons i items)
  show ?case
  proof (cases i)
    case (TarEntry h t rd)
    show ?thesis
      unfolding TarEntry extract_loop.simps Let_def
      by (intro calls_seq calls_branches calls_mg_one db_op.modify [OF assms] calls_extract_file [OF assms] Cons.IH)
        (auto simp: inside_below [OF assms] logs_JoinPath [OF assms])
  qed (simp add: calls.none)
qed (simp add: calls.none)

lemma calls_extract_into:
  assumes "logs_dir (ot_os s) path nl"
  shows "db_calls s ctx path w (snd (extract_into (ot_os s) nl w))"
proof -
  have r: "db_op s ctx path a" if "below nl p" "a \<in> {OStat p, OReadDir p, OOpen p}" for a p
    using db_op.read [OF assms that] .
  have m: "db_op s ctx path (ORemoveAll (JoinPath [nl, ovnkDatabaseStore]))"
    using db_op.modify [OF assms store_below(1) logs_JoinPath [OF assms]] by simp
  show ?thesis
    unfolding extract_into_def Let_def
    by (intro calls_seq calls_branches calls_mg_one calls_extract_loop [OF assms])
      (auto intro: r store_below m)
qed

lemma calls_extractOvnDatabases:
  "db_calls s ctx path w (snd (extractOvnDatabases (ot_os s) path w))"
  unfolding extractOvnDatabases_def
  by (intro calls_seq_eq calls_branches calls_getNetworkLogsDirectory calls_isWritable calls_extract_into
      getNetworkLogsDirectory_logs) auto

lemma extract_into_path:
  "extract_into os nl w = (Inr p, w') \<Longrightarrow> p = JoinPath [nl, ovnkDatabaseStore]"
  by (auto simp: extract_into_def Let_def split: prod.splits option.splits sum.splits if_splits)

lemma extractOvnDatabases_path:
  assumes "extractOvnDatabases os path w = (Inr p, w')"
  shows "\<exists>nl. logs_dir os path nl \<and> p = JoinPath [nl, ovnkDatabaseStore]"
proof -
  obtain nl w1 w2 where "getNetworkLogsDirectory os path w = (Inr nl, w1)" "extract_into os nl w2 = (Inr p, w')"
    using assms by (auto simp: extractOvnDatabases_def split: prod.splits sum.splits if_splits)
  from getNetworkLogsDirectory_logs [OF this(1)] extract_into_path [OF this(2)] show ?thesis by blast
qed

lemma extracted_readable:
  assumes "extractOvnDatabases (ot_os s) path w = (Inr p, w')"
  shows "db_op s ctx path (OReadDir p)"
proof -
  obtain nl where "logs_dir (ot_os s) path nl" "p = JoinPath [nl, ovnkDatabaseStore]"
    using extractOvnDatabases_path [OF assms] by blast
  then show ?thesis using db_op.read [OF _ store_below(1), of s path nl] by auto
qed

lemma calls_listOvnDatabases:
  "db_calls s ctx path w (snd (listOvnDatabases (ot_os s) path nb w))"
  unfolding listOvnDatabases_def
  by (intro calls_seq_eq calls_branches calls_extractOvnDatabases calls_mg_one) (auto intro: extracted_readable)

lemma calls_getDatabaseToNodeMapping:
  "db_calls s ctx path w (snd (getDatabaseToNodeMapping s ctx path nb w))"
proof -
  have l: "db_calls s ctx path w1 (snd (omc_ListResources (ot_omcClient s) ctx path kind ns sel p w1))"
    for w1 kind ns sel p
    by (rule calls_mono [OF calls_omc_client(4)]) (rule db_op.omc)
  show ?thesis
    unfolding getDatabaseToNodeMapping_def
    by (intro calls_seq calls_branches calls_listOvnDatabases l)
qed

lemma buildQueryString_ok:
  "buildQueryString lib schema table conds cols = Inr q \<longleftrightarrow>
     (schema = OVN_Northbound \<or> schema = OVN_Southbound) \<and> table \<noteq> [] \<and>
     (\<exists>cs. parse_conditions lib conds = Inr cs \<and> json_Marshal lib (select_query schema table cs cols) = Inr q)"
  unfolding buildQueryString_def by (simp split: sum.splits)

lemma db_name_Base:
  assumes "HasSuffix n ''_nbdb'' \<or> HasSuffix n ''_sbdb''" "Base n = n"
  shows "db_name n"
proof -
  have "n \<noteq> ''/''" using assms(1) by (auto simp: HasSuffix_iff suffix_def Cons_eq_append_conv)
  then have "slash \<notin> set n" using Base_no_slash [of n] assms(2) by simp
  with assms(1) show ?thesis by (simp add: db_name_def HasSuffix_iff)
qed

lemma db_name_elems: "db_name n \<Longrightarrow> elem_ok n \<and> n \<noteq> ''..''"
  by (auto simp: db_name_def elem_ok_def suffix_def)

lemma below_db_file: "db_name n \<Longrightarrow> below nl (JoinPath [nl, ovnkDatabaseStore, n])"
proof -
  assume "db_name n"
  then have n: "clean_elems n = [n]" "\<not> IsAbs n" "n \<noteq> ''..''"
    using db_name_elems [of n] clean_elems_single [of n] by auto
  have s: "ovnkDatabaseStore \<noteq> []" by code_simp
  have "clean_elems (ovnkDatabaseStore @ slash # n) = [ovnkDatabaseStore, n]"
    using clean_elems_join_rel [OF s n(2)] n(1,3) by auto
  moreover have "\<not> IsAbs (ovnkDatabaseStore @ slash # n)" using s by simp
  ultimately show ?thesis
    unfolding JoinPath3 [OF s] using n(3) by (intro below_JoinPath) auto
qed

lemma calls_QueryDatabase:
  "db_calls s ctx path w (snd (QueryDatabase s ctx path n table conds cols w))"
proof (cases "HasSuffix n ''_nbdb'' \<or> HasSuffix n ''_sbdb''")
  case suf: True
  let ?schema = "if HasSuffix n ''_nbdb'' then OVN_Northbound else OVN_Southbound"
  have sch: "?schema = db_schema n"
    by (simp add: db_schema_def OVN_Northbound_def OVN_Southbound_def HasSuffix_iff)
  have q: "db_op s ctx path (OCommand ctx (ot_commandPath s) [''query'', JoinPath [nl, ovnkDatabaseStore, n], q])"
    if "Base n = n" "buildQueryString (ot_json s) ?schema table conds cols = Inr q"
      "getNetworkLogsDirectory (ot_os s) path w0 = (Inr nl, w1)" for q nl w0 w1
    using that suf db_name_Base [of n] db_op.query [OF getNetworkLogsDirectory_logs [OF that(3)]]
    unfolding sch buildQueryString_ok by blast
  have st: "db_op s ctx path (OStat (JoinPath [nl, ovnkDatabaseStore, n]))"
    if "Base n = n" "getNetworkLogsDirectory (ot_os s) path w0 = (Inr nl, w1)" for nl w0 w1
    using db_op.read [OF getNetworkLogsDirectory_logs [OF that(2)] below_db_file] db_name_Base [OF suf that(1)]
    by blast
  show ?thesis
    unfolding QueryDatabase_def Let_def
    by (intro calls_guard calls_seq_eq calls_branches calls_getNetworkLogsDirectory calls_mg_one)
      (auto intro: q st calls.none split: prod.splits option.splits)
next
  case False
  then show ?thesis by (simp add: QueryDatabase_def calls.none)
qed

section \<open>Confinement\<close>

text \<open>What the package documentation of \<^verbatim>\<open>os\<close> says of the two calls that return names: \<^verbatim>\<open>ReadDir\<close> gives
  base names, never \<^verbatim>\<open>.\<close> or \<^verbatim>\<open>..\<close>, and \<^verbatim>\<open>CreateTemp\<close> creates its file in the directory.\<close>

definition os_names :: "'w mg_os \<Rightarrow> bool" where
  "os_names os \<longleftrightarrow>
     (\<forall>p w es w'. mg_ReadDir os p w = (Inr es, w') \<longrightarrow> (\<forall>(n, d) \<in> set es. elem_ok n \<and> n \<noteq> ''..'')) \<and>
     (\<forall>d p w f w'. mg_CreateTemp os d p w = (Inr f, w') \<longrightarrow> below d f)"

text \<open>The paths a call may create, change or remove.\<close>

fun op_writes :: "mg_op \<Rightarrow> strs" where
  "op_writes (OCreateTemp d _) = [d]"
| "op_writes (ORemove p) = [p]"
| "op_writes (ORemoveAll p) = [p]"
| "op_writes (OMkdirAll p) = [p]"
| "op_writes (OOpenFile p) = [p]"
| "op_writes (OWrite p _) = [p]"
| "op_writes _ = []"

text \<open>The paths a call may read.\<close>

fun op_reads :: "mg_op \<Rightarrow> strs" where
  "op_reads (OStat p) = [p]"
| "op_reads (OReadDir p) = [p]"
| "op_reads (OOpen p) = [p]"
| "op_reads _ = []"

lemma logs_dir_below:
  assumes "os_names os" "logs_dir os path nl"
  shows "below path nl \<and> (\<exists>d. clean_elems nl = clean_elems path @ [d, networkLogsDirectory]) \<and> IsAbs path"
proof -
  obtain es d w w' where d: "mg_ReadDir os path w = (Inr es, w')" "(d, True) \<in> set es"
    "nl = JoinPath [path, d, networkLogsDirectory]" and p: "IsAbs path"
    using assms(2) valid_path_abs by (auto simp: logs_dir_def)
  have e: "elem_ok d" "d \<noteq> ''..''" using assms(1) d(1,2) unfolding os_names_def by fastforce+
  have "path \<noteq> []" using p by (auto simp: IsAbs_def HasPrefix_iff)
  then have "clean_elems (path @ slash # d) = clean_elems path @ [d]"
    using clean_elems_join_rel [of path d] clean_elems_single [OF e] e(2) by auto
  then have "clean_elems nl = clean_elems path @ [d, networkLogsDirectory] \<and> IsAbs nl"
    using JoinPath3_elems [OF p, of networkLogsDirectory d] d(3) by simp
  with p show ?thesis by (simp add: below_abs)
qed

lemma db_op_confined:
  assumes os: "os_names (ot_os s)" and a: "db_op s ctx path a"
  shows "list_all (below path) (op_writes a)"
  using a
proof cases
  case omc
  then show ?thesis by (cases rule: omc_op.cases) auto
next
  case (temp nl)
  then show ?thesis using logs_dir_below [OF os] by simp
next
  case (untemp nl w f w')
  then have "below nl f" using os unfolding os_names_def by blast
  then show ?thesis using logs_dir_below [OF os untemp(2)] below_trans untemp(1) by auto
next
  case (modify nl p t)
  note l = logs_dir_below [OF os modify(1)]
  obtain d where d: "clean_elems nl = clean_elems path @ [d, networkLogsDirectory]" "IsAbs path" using l by blast
  have p: "below path p" using l modify(2) below_trans by blast
  have "IsAbs p" using p d(2) by (simp add: below_def)
  then have "clean_elems (Dir p) = butlast (clean_elems p)" "IsAbs (Dir p)"
    using clean_elems_Dir [of p] modify(3) by auto
  moreover obtain x where "clean_elems p = clean_elems nl @ x" using modify(2) by (auto simp: below_def prefix_def)
  ultimately have "below path (Dir p)" using d by (simp add: below_abs butlast_append)
  with p show ?thesis using modify(4) by auto
qed auto

lemma omc_op_reads:
  assumes "omc_op cmd ctx path a"
  shows "list_all (below path) (op_reads a)"
  using assms
proof cases
  case (stat p)
  have "below path (Clean path)" by (simp add: below_def)
  moreover have "below (Clean path) (JoinPath [Clean path, ''must-gather.logs''])"
  proof (rule below_JoinPath)
    show "\<not> IsAbs ''must-gather.logs''" "''..'' \<notin> set (clean_elems ''must-gather.logs'')" by code_simp+
  qed
  ultimately show ?thesis using stat below_trans by auto
qed simp_all

lemma db_op_reads:
  assumes os: "os_names (ot_os s)" and a: "db_op s ctx path a"
  shows "list_all (below path) (op_reads a)"
  using a
proof cases
  case omc
  then show ?thesis by (rule omc_op_reads)
next
  case (read nl p)
  then show ?thesis using logs_dir_below [OF os read(1)] below_trans [of path nl p] by auto
next
  case list
  then show ?thesis by simp
qed auto

section \<open>A small file system\<close>

text \<open>An executable instance of \<open>mg_os\<close>: a list of paths, each a directory (\<open>None\<close>) or a file with its
  content; a file with the content \<^verbatim>\<open>gz\<close> is an archive with the given entries; commands print a fixed text.\<close>

type_synonym fs = "(string \<times> string option) list"

definition enoent :: err where "enoent = ExtErr ''ENOENT''"
definition eexist :: err where "eexist = ExtErr ''EEXIST''"
definition enotdir :: err where "enotdir = ExtErr ''ENOTDIR''"
definition eisdir :: err where "eisdir = ExtErr ''EISDIR''"

definition fs_entries :: "string \<Rightarrow> fs \<Rightarrow> (string \<times> bool) list" where
  "fs_entries p w = concat (map (\<lambda>(q, x). case CutPrefix q (p @ ''/'') of
       Some n \<Rightarrow> if elem_ok n \<and> n \<noteq> ''..'' then [(n, x = None)] else []
     | None \<Rightarrow> []) w)"

definition fs_os :: "tar_item list \<Rightarrow> string \<Rightarrow> fs mg_os" where
  "fs_os items out = \<lparr>
     mg_Stat = \<lambda>p w. (case map_of w p of None \<Rightarrow> Inl enoent | Some x \<Rightarrow> Inr (x = None), w),
     mg_IsNotExist = \<lambda>e. e = enoent,
     mg_ReadDir = \<lambda>p w. (Inr (fs_entries p w), w),
     mg_CreateTemp = \<lambda>d p w. let f = JoinPath [d, ''tmpfile1''] in
       if map_of w f = None then (Inr f, (f, Some []) # w) else (Inl eexist, w),
     mg_Remove = \<lambda>p w. (None, filter (\<lambda>(q, x). q \<noteq> p) w),
     mg_RemoveAll = \<lambda>p w. (None, filter (\<lambda>(q, x). q \<noteq> p \<and> \<not> HasPrefix q (p @ ''/'')) w),
     mg_Open = \<lambda>p w. (case map_of w p of Some (Some t) \<Rightarrow> Inr t | _ \<Rightarrow> Inl enoent, w),
     mg_Untar = \<lambda>t. if t = ''gz'' then Inr items else Inl (ExtErr ''gzip: invalid header''),
     mg_MkdirAll = \<lambda>p w. (case map_of w p of
         None \<Rightarrow> (None, (p, None) # w) | Some None \<Rightarrow> (None, w) | Some (Some _) \<Rightarrow> (Some enotdir, w)),
     mg_OpenFile = \<lambda>p w. if map_of w p = Some None then (Some eisdir, w) else (None, (p, Some []) # w),
     mg_Write = \<lambda>p t w. if map_of w p = Some None then (Some eisdir, w)
       else (None, (p, Some t) # filter (\<lambda>(q, x). q \<noteq> p) w),
     mg_Command = \<lambda>_ _ _ w. ((out, None), w)\<rparr>"

lemma fs_os_names: "os_names (fs_os items out)"
proof -
  have "below d (JoinPath [d, ''tmpfile1''])" for d
  proof (rule below_JoinPath)
    show "\<not> IsAbs ''tmpfile1''" "''..'' \<notin> set (clean_elems ''tmpfile1'')" by code_simp+
  qed
  moreover have "elem_ok n \<and> n \<noteq> ''..''" if "(n, b) \<in> set (fs_entries p w)" for n b p w
    using that by (auto simp: fs_entries_def split: option.splits if_splits)
  ultimately show ?thesis by (simp add: os_names_def fs_os_def Let_def) blast
qed

definition demo_fs :: fs where
  "demo_fs = [(''/mg'', None), (''/mg/must-gather.logs'', Some []), (''/mg/d'', None),
     (''/mg/d/network_logs'', None), (''/mg/d/network_logs/ovnk_database_store.tar.gz'', Some ''gz'')]"

definition demo_entry :: "char \<Rightarrow> string \<Rightarrow> tar_item" where
  "demo_entry ty name = TarEntry \<lparr>th_Name = name, th_Typeflag = ty\<rparr> ''db'' None"

definition cut_archive :: "tar_item list" where
  "cut_archive = [demo_entry TypeDir ''ovnk_database_store/'',
     demo_entry TypeReg ''ovnk_database_store/a_nbdb'', TarError (ExtErr ''unexpected EOF'')]"

section \<open>Directories stay\<close>

text \<open>What the package documentation of \<^verbatim>\<open>os\<close> says of directories: \<^verbatim>\<open>MkdirAll\<close> makes one unless it fails,
  \<^verbatim>\<open>CreateTemp\<close> makes a new file, and no call but the removal of a directory takes it away.\<close>

definition is_dir :: "'w mg_os \<Rightarrow> string \<Rightarrow> 'w \<Rightarrow> bool" where
  "is_dir os p w \<longleftrightarrow> fst (mg_Stat os p w) = Inr True"

definition removes :: "string \<Rightarrow> mg_op \<Rightarrow> bool" where
  "removes p a = (case a of ORemove q \<Rightarrow> q = p | ORemoveAll _ \<Rightarrow> True | OCommand _ _ _ \<Rightarrow> True | _ \<Rightarrow> False)"

definition os_dirs :: "'w mg_os \<Rightarrow> bool" where
  "os_dirs os \<longleftrightarrow>
     (\<forall>p w w'. mg_MkdirAll os p w = (None, w') \<longrightarrow> is_dir os p w') \<and>
     (\<forall>p w d x f w'. is_dir os p w \<longrightarrow> mg_CreateTemp os d x w = (Inr f, w') \<longrightarrow> f \<noteq> p) \<and>
     (\<forall>p w a. is_dir os p w \<longrightarrow> \<not> removes p a \<longrightarrow> is_dir os p (mg_step os a w))"

lemma os_dirs_keep:
  "os_dirs os \<Longrightarrow> calls (mg_step os) (\<lambda>a. \<not> removes p a) w w' \<Longrightarrow> is_dir os p w \<Longrightarrow> is_dir os p w'"
  by (rotate_tac, induction rule: calls.induct) (auto simp: os_dirs_def)

lemma keeps_getNetworkLogsDirectory:
  "calls (mg_step os) (\<lambda>a. \<not> removes p a) w (snd (getNetworkLogsDirectory os path w))"
  unfolding getNetworkLogsDirectory_def ValidateMustGatherPath_def Let_def
  by (intro calls_seq calls_guard calls_branches calls_case_pure_pair calls_mg_one) (simp_all add: removes_def)

lemma keeps_extract_loop:
  "calls (mg_step os) (\<lambda>a. \<not> removes p a) w (snd (extract_loop os nl items w))"
proof (induction items arbitrary: w)
  case (Cons i items)
  show ?case
  proof (cases i)
    case (TarEntry h t rd)
    show ?thesis
      unfolding TarEntry extract_loop.simps extract_file_def Let_def
      by (intro calls_seq calls_branches calls_mg_one Cons.IH) (simp_all add: removes_def)
  qed (simp add: calls.none)
qed (simp add: calls.none)

lemma isWritable_dir:
  assumes "os_dirs os" "is_dir os p w"
  shows "is_dir os p (snd (isWritable os nl w))"
proof -
  obtain r w1 where c: "mg_CreateTemp os nl ''tmpfile'' w = (r, w1)" by (cases "mg_CreateTemp os nl ''tmpfile'' w")
  have t: "is_dir os p w1"
    using os_dirs_keep [OF assms(1) calls_mg_one(3) assms(2), of nl "''tmpfile''"] by (simp add: removes_def c)
  show ?thesis
  proof (cases r)
    case (Inr f)
    then have "f \<noteq> p" using assms c unfolding os_dirs_def by blast
    then show ?thesis
      using os_dirs_keep [OF assms(1) calls_mg_one(4) t, of f] by (simp add: isWritable_def c Inr removes_def)
  qed (simp add: isWritable_def c t)
qed

lemma extract_into_dir:
  "is_dir os (JoinPath [nl, ovnkDatabaseStore]) w \<Longrightarrow> fst (extract_into os nl w) = Inr (JoinPath [nl, ovnkDatabaseStore])"
  by (cases "mg_Stat os (JoinPath [nl, ovnkDatabaseStore]) w") (simp add: extract_into_def is_dir_def Let_def)

text \<open>Claim C36: an extraction that fails part-way is taken for a complete one. Whenever the archive starts
  with the directory of the databases and that directory can be made, then in whatever way the
  extraction fails afterwards, a later request whose checks of the must-gather and of write access
  succeed returns that directory as the extracted databases, whatever is in it.\<close>

theorem partial_extraction_accepted:
  assumes "os_dirs os"
    and "extract_loop os nl (TarEntry h data rd # items) w = (Some e, w')"
    and "th_Typeflag h = TypeDir" "JoinPath [nl, th_Name h] = JoinPath [nl, ovnkDatabaseStore]"
    and "inside nl (JoinPath [nl, ovnkDatabaseStore])" "fst (mg_MkdirAll os (JoinPath [nl, ovnkDatabaseStore]) w) = ok"
    and "getNetworkLogsDirectory os path w' = (Inr nl, w1)" "isWritable os nl w1 = (Inr True, w2)"
  shows "fst (extractOvnDatabases os path w') = Inr (JoinPath [nl, ovnkDatabaseStore])"
proof -
  let ?db = "JoinPath [nl, ovnkDatabaseStore]"
  obtain v where v: "mg_MkdirAll os ?db w = (None, v)" using assms(6) by (cases "mg_MkdirAll os ?db w") simp
  then have "is_dir os ?db v" using assms(1) unfolding os_dirs_def by blast
  moreover have "extract_loop os nl items v = (Some e, w')" using assms(2-5) v by (simp add: Let_def)
  ultimately have "is_dir os ?db w'" using os_dirs_keep [OF assms(1) keeps_extract_loop] by (metis snd_conv)
  then have "is_dir os ?db w1"
    using os_dirs_keep [OF assms(1) keeps_getNetworkLogsDirectory] assms(7) by (metis snd_conv)
  then have "is_dir os ?db w2" using isWritable_dir [OF assms(1)] assms(8) by (metis snd_conv)
  then show ?thesis using assms(7,8) by (simp add: extractOvnDatabases_def extract_into_dir)
qed

lemma map_of_filter_other: "q \<noteq> p \<Longrightarrow> map_of (filter (\<lambda>(r, x). r \<noteq> q) w) p = map_of w p"
  by (induction w) auto

lemma fs_os_dirs: "os_dirs (fs_os items out)"
proof -
  have d: "is_dir (fs_os items out) p w \<longleftrightarrow> map_of w p = Some None" for p w
    by (simp add: is_dir_def fs_os_def split: option.splits)
  have "map_of (mg_step (fs_os items out) a w) p = Some None" if "map_of w p = Some None" "\<not> removes p a" for p w a
    using that by (cases a) (auto simp: fs_os_def removes_def map_of_filter_other Let_def split: option.splits)
  moreover have "mg_MkdirAll (fs_os items out) p w = (None, w') \<Longrightarrow> map_of w' p = Some None" for p w w'
    by (auto simp: fs_os_def split: option.splits)
  moreover have "map_of w p = Some None \<Longrightarrow> mg_CreateTemp (fs_os items out) d x w = (Inr f, w') \<Longrightarrow> f \<noteq> p" for p w d x f w'
    by (auto simp: fs_os_def Let_def split: if_splits)
  ultimately show ?thesis unfolding os_dirs_def d by blast
qed

definition cut_fs :: fs where
  "cut_fs = snd (extractOvnDatabases (fs_os cut_archive []) ''/mg'' demo_fs)"

theorem partial_extraction_accepted_witness:
  "fst (extractOvnDatabases (fs_os cut_archive []) ''/mg'' demo_fs) =
     Inl (Errorf ''failed to read tar header: %w'' [FErr (ExtErr ''unexpected EOF'')]) \<and>
   fst (extractOvnDatabases (fs_os cut_archive []) ''/mg'' cut_fs) =
     Inr (JoinPath [''/mg/d/network_logs'', ovnkDatabaseStore])"
proof -
  let ?os = "fs_os cut_archive []" and ?nl = "''/mg/d/network_logs''"
  let ?w = "snd (isWritable ?os ?nl demo_fs)"
  have l: "extract_loop ?os ?nl (TarEntry \<lparr>th_Name = ''ovnk_database_store/'', th_Typeflag = TypeDir\<rparr> ''db'' None # tl cut_archive) ?w =
      (Some (Errorf ''failed to read tar header: %w'' [FErr (ExtErr ''unexpected EOF'')]), cut_fs)"
    unfolding cut_fs_def by code_simp
  have g: "getNetworkLogsDirectory ?os ''/mg'' cut_fs = (Inr ?nl, cut_fs)" unfolding cut_fs_def by code_simp
  have i: "isWritable ?os ?nl cut_fs = (Inr True, snd (isWritable ?os ?nl cut_fs))" unfolding cut_fs_def by code_simp
  have j: "JoinPath [?nl, ''ovnk_database_store/''] = JoinPath [?nl, ovnkDatabaseStore]"
    "inside ?nl (JoinPath [?nl, ovnkDatabaseStore])" "fst (mg_MkdirAll ?os (JoinPath [?nl, ovnkDatabaseStore]) ?w) = ok"
    by code_simp+
  have "fst (extractOvnDatabases ?os ''/mg'' cut_fs) = Inr (JoinPath [?nl, ovnkDatabaseStore])"
    by (rule partial_extraction_accepted [OF fs_os_dirs l _ _ j(2,3) g i]) (simp_all add: j(1))
  moreover have "fst (extractOvnDatabases ?os ''/mg'' demo_fs) =
      Inl (Errorf ''failed to read tar header: %w'' [FErr (ExtErr ''unexpected EOF'')])" by code_simp
  ultimately show ?thesis by blast
qed

end
