(* ===== verification/KubeClient.thy ===== *)
theory KubeClient
  imports Exec "HOL-Library.Multiset"
begin

text \<open>
  The Kubernetes client and the part of its tool server that other tools build on:
  \<^verbatim>\<open>pkg/kubernetes/client/nodes.go\<close>, \<^verbatim>\<open>pkg/kubernetes/client/pods.go\<close>, \<^verbatim>\<open>pkg/kubernetes/mcp/nodes.go\<close> and
  \<^verbatim>\<open>pkg/kubernetes/mcp/pods.go\<close>.

  The Kubernetes API is code outside the repository: the record \<open>kube_api\<close> holds the calls the
  client makes as functions over an arbitrary world, together with the clock and the number of
  timer ticks a poll sees before its context ends. \<open>traced\<close> wraps any such API with a record of
  its calls, and the debug-pod properties are stated over that record.
\<close>

section \<open>The API the client calls\<close>

record EnvVar =
  ev_Name :: string
  ev_Value :: string

record VolumeMount =
  vm_Name :: string
  vm_MountPath :: string

record Volume =
  vol_Name :: string
  vol_Path :: string
  vol_Type :: string

record Container =
  c_Name :: string
  c_Image :: string
  c_Command :: strs
  c_Privileged :: bool
  c_RunAsUser :: int
  c_VolumeMounts :: "VolumeMount list"
  c_Env :: "EnvVar list"

record Pod =
  pod_GenerateName :: string
  pod_Namespace :: string
  pod_NodeName :: string
  pod_RestartPolicy :: string
  pod_Tolerations :: strs
  pod_HostNetwork :: bool
  pod_HostPID :: bool
  pod_HostIPC :: bool
  pod_Volumes :: "Volume list"
  pod_Containers :: "Container list"

text \<open>What the client reads of a fetched pod: its phase and the names of its containers.\<close>

record PodInfo =
  pi_Phase :: string
  pi_Containers :: strs

record 'w kube_api =
  api_now :: "'w \<Rightarrow> int"
  api_ticks :: "'w \<Rightarrow> nat"
  api_Create :: "Context \<Rightarrow> string \<Rightarrow> Pod \<Rightarrow> ('w, string) effect"
  api_Get :: "Context \<Rightarrow> string \<Rightarrow> string \<Rightarrow> ('w, PodInfo) effect"
  api_Delete :: "Context \<Rightarrow> string \<Rightarrow> string \<Rightarrow> 'w \<Rightarrow> err option \<times> 'w"
  api_GetLogs :: "Context \<Rightarrow> string \<Rightarrow> string \<Rightarrow> string \<Rightarrow> bool \<Rightarrow> ('w, string) effect"
  api_Exec :: "Context \<Rightarrow> string \<Rightarrow> string \<Rightarrow> string \<Rightarrow> strs \<Rightarrow> ('w, string \<times> string) effect"

definition PodRunning :: string where
  "PodRunning = ''Running''"

definition NamespaceDefault :: string where
  "NamespaceDefault = ''default''"

text \<open>\<^verbatim>\<open>wait.PollUntilContextTimeout\<close> with an immediate first check: the condition runs at least once,
  then once per tick; an error or \<^verbatim>\<open>true\<close> ends the poll, and so does the context when no tick is left.\<close>

definition deadline_exceeded :: err where
  "deadline_exceeded = ExtErr ''context deadline exceeded''"

fun poll_until :: "nat \<Rightarrow> ('w, bool) effect \<Rightarrow> 'w \<Rightarrow> err option \<times> 'w" where
  "poll_until ticks cond w = (case cond w of
       (Inl e, w') \<Rightarrow> (Some e, w')
     | (Inr True, w') \<Rightarrow> (None, w')
     | (Inr False, w') \<Rightarrow> (case ticks of
          0 \<Rightarrow> (Some deadline_exceeded, w')
        | Suc n \<Rightarrow> poll_until n cond w'))"

declare poll_until.simps [simp del]

section \<open>Pods\<close>

definition podLogs_msg :: string where
  "podLogs_msg = ''failed to fetch pod logs: %w''"

definition client_GetPodLogs ::
  "'w kube_api \<Rightarrow> Context \<Rightarrow> string \<Rightarrow> string \<Rightarrow> string \<Rightarrow> bool \<Rightarrow> ('w, strs) effect" where
  "client_GetPodLogs api ctx namespace name container previous w =
     (case api_GetLogs api ctx namespace name container previous w of
        (Inl e, w') \<Rightarrow> (Inl (Errorf podLogs_msg [FErr e]), w')
      | (Inr logs, w') \<Rightarrow> (Inr (Split newline logs), w'))"

definition execFetch_msg :: string where
  "execFetch_msg = ''failed to fetch pod: %w''"

definition execPhase_msg :: string where
  "execPhase_msg = ''cannot exec and run command %v in a container in a pod that is not running; current phase is %s''"

definition execRun_msg :: string where
  "execRun_msg = ''failed to execute command %v in pod: %w''"

definition index_panic :: err where
  "index_panic = ExtErr ''panic: runtime error: index out of range [0] with length 0''"

definition client_ExecPod ::
  "'w kube_api \<Rightarrow> Context \<Rightarrow> string \<Rightarrow> string \<Rightarrow> string \<Rightarrow> strs \<Rightarrow> ('w, string \<times> string) effect" where
  "client_ExecPod api ctx name namespace container command w =
     (case api_Get api ctx namespace name w of
        (Inl e, w1) \<Rightarrow> (Inl (Errorf execFetch_msg [FErr e]), w1)
      | (Inr pod, w1) \<Rightarrow>
          if pi_Phase pod \<noteq> PodRunning then
            (Inl (Errorf execPhase_msg [FStrs command, FStr (pi_Phase pod)]), w1)
          else if container = [] \<and> pi_Containers pod = [] then (Inl index_panic, w1)
          else
            (let container = (if container = [] then pi_Containers pod ! 0 else container) in
             case api_Exec api ctx namespace name container command w1 of
               (Inl e, w2) \<Rightarrow> (Inl (Errorf execRun_msg [FStrs command, FErr e]), w2)
             | (Inr (stdout, stderr), w2) \<Rightarrow> (Inr (stdout, stderr), w2)))"

section \<open>Debug pods\<close>

definition debugPod :: "string \<Rightarrow> string \<Rightarrow> string \<Rightarrow> string \<Rightarrow> string \<Rightarrow> Pod" where
  "debugPod node namespace img hostPath mountPath =
     (let envVars = (if hostPath = ''/'' then [\<lparr>ev_Name = ''HOST'', ev_Value = mountPath\<rparr>] else []) in
      \<lparr>pod_GenerateName = ''debug-node-'' @ node @ ''-'', pod_Namespace = namespace, pod_NodeName = node,
       pod_RestartPolicy = ''Never'', pod_Tolerations = [''Exists''],
       pod_HostNetwork = True, pod_HostPID = True, pod_HostIPC = True,
       pod_Volumes = [\<lparr>vol_Name = ''host'', vol_Path = hostPath, vol_Type = ''Directory''\<rparr>],
       pod_Containers = [\<lparr>c_Name = ''debug-container'', c_Image = img, c_Command = [''sleep'', ''infinity''],
         c_Privileged = True, c_RunAsUser = 0,
         c_VolumeMounts = [\<lparr>vm_Name = ''host'', vm_MountPath = mountPath\<rparr>], c_Env = envVars\<rparr>]\<rparr>)"

definition createPod_msg :: string where
  "createPod_msg = ''failed to create debug pod: %w''"

definition notRunning_msg :: string where
  "notRunning_msg = ''debug pod did not reach running state within timeout of 1 minute: %w''"

text \<open>\<^verbatim>\<open>cleanupPod\<close> deletes under a fresh ten-second context; its error is only logged.\<close>

definition cleanupPod :: "'w kube_api \<Rightarrow> string \<Rightarrow> string \<Rightarrow> 'w \<Rightarrow> 'w" where
  "cleanupPod api namespace created w =
     (let cleanupCtx = context_WithTimeout (api_now api w) context_Background (10 * Second) in
      snd (api_Delete api cleanupCtx namespace created w))"

text \<open>\<^verbatim>\<open>createPod\<close> returns the pod's name; its cleanup function is \<open>cleanupPod\<close> on that name.\<close>

definition createPod ::
  "'w kube_api \<Rightarrow> Context \<Rightarrow> string \<Rightarrow> string \<Rightarrow> string \<Rightarrow> string \<Rightarrow> string \<Rightarrow> ('w, string) effect" where
  "createPod api ctx node namespace img hostPath0 mountPath0 w =
     (let hostPath = (if hostPath0 = [] then ''/'' else hostPath0);
          mountPath = (if mountPath0 = [] then ''/host'' else mountPath0) in
      case api_Create api ctx namespace (debugPod node namespace img hostPath mountPath) w of
        (Inl e, w1) \<Rightarrow> (Inl (Errorf createPod_msg [FErr e]), w1)
      | (Inr created, w1) \<Rightarrow>
          (let pollCtx = context_WithTimeout (api_now api w1) ctx (60 * Second);
               cond = (\<lambda>v. case api_Get api pollCtx namespace created v of
                 (Inl e, v') \<Rightarrow> (Inl e, v')
               | (Inr pod, v') \<Rightarrow> (Inr (pi_Phase pod = PodRunning), v')) in
           case poll_until (api_ticks api w1) cond w1 of
             (Some e, w2) \<Rightarrow> (Inl (Errorf notRunning_msg [FErr e]), cleanupPod api namespace created w2)
           | (None, w2) \<Rightarrow> (Inr created, w2)))"

definition debugExec_msg :: string where
  "debugExec_msg = ''failed to execute command in debug pod: %w''"

definition client_DebugNode ::
  "'w kube_api \<Rightarrow> Context \<Rightarrow> string \<Rightarrow> string \<Rightarrow> string \<Rightarrow> strs \<Rightarrow> string \<Rightarrow> string \<Rightarrow> duration \<Rightarrow>
   ('w, string \<times> string) effect" where
  "client_DebugNode api ctx0 namespace0 name img command hostPath mountPath timeout w =
     (if name = [] then (Inl (Errorf ''node name is required'' []), w)
      else (case ValidatePath hostPath ''hostPath'' True of
        Some e \<Rightarrow> (Inl e, w)
      | None \<Rightarrow>
      (case ValidatePath mountPath ''mountPath'' True of
        Some e \<Rightarrow> (Inl e, w)
      | None \<Rightarrow>
          (let namespace = (if namespace0 = [] then NamespaceDefault else namespace0);
               ctx = (if timeout \<noteq> 0 then context_WithTimeout (api_now api w) ctx0 timeout else ctx0) in
           case createPod api ctx name namespace img hostPath mountPath w of
             (Inl e, w1) \<Rightarrow> (Inl e, w1)
           | (Inr debugPodName, w1) \<Rightarrow>
               (case client_ExecPod api ctx debugPodName namespace ''debug-container'' command w1 of
                  (Inl e, w2) \<Rightarrow>
                    (Inl (Errorf debugExec_msg [FErr e]), cleanupPod api namespace debugPodName w2)
                | (Inr (stdout, stderr), w2) \<Rightarrow>
                    (Inr (stdout, stderr), cleanupPod api namespace debugPodName w2))))))"

section \<open>The tool server\<close>

record 'w kube_MCPServer =
  clientSet :: "'w kube_api"

record DebugNodeParams =
  dn_Name :: string
  dn_Namespace :: string
  dn_Image :: string
  dn_Command :: strs
  dn_HostPath :: string
  dn_MountPath :: string
  dn_Timeout :: TimeoutParams

record DebugNodeResult =
  dn_Stdout :: string
  dn_Stderr :: string

record ExecPodParams =
  ep_Name :: string
  ep_Namespace :: string
  ep_Container :: string
  ep_Command :: strs

record ExecPodResult =
  ep_Stdout :: string
  ep_Stderr :: string

record GetPodLogsParams =
  pl_Name :: string
  pl_Namespace :: string
  pl_Container :: string
  pl_Previous :: bool
  pl_Pattern :: PatternParams
  pl_HeadTail :: HeadTailParams

record GetPodLogsResult =
  Logs :: strs

definition kube_defaultMaxLines :: int where
  "kube_defaultMaxLines = 100"

definition DebugNode ::
  "'w kube_MCPServer \<Rightarrow> Context \<Rightarrow> DebugNodeParams \<Rightarrow> 'w \<Rightarrow> DebugNodeResult handler_ret \<times> 'w" where
  "DebugNode s ctx inp w =
     (let timeout = ToDuration (dn_Timeout inp) in
      case client_DebugNode (clientSet s) ctx (dn_Namespace inp) (dn_Name inp) (dn_Image inp)
          (dn_Command inp) (dn_HostPath inp) (dn_MountPath inp) timeout w of
        (Inl e, w') \<Rightarrow> ((\<lparr>dn_Stdout = [], dn_Stderr = []\<rparr>, Some e), w')
      | (Inr (stdout, stderr), w') \<Rightarrow> ((\<lparr>dn_Stdout = stdout, dn_Stderr = stderr\<rparr>, None), w'))"

definition RunDebugNode :: "'w kube_MCPServer \<Rightarrow> 'w node_exec" where
  "RunDebugNode s ctx namespace nodeName img command hostPath mountPath timeout =
     client_DebugNode (clientSet s) ctx namespace nodeName img command hostPath mountPath timeout"

definition ExecPod ::
  "'w kube_MCPServer \<Rightarrow> Context \<Rightarrow> ExecPodParams \<Rightarrow> 'w \<Rightarrow> ExecPodResult handler_ret \<times> 'w" where
  "ExecPod s ctx inp w =
     (case client_ExecPod (clientSet s) ctx (ep_Name inp) (ep_Namespace inp) (ep_Container inp)
          (ep_Command inp) w of
        (Inl e, w') \<Rightarrow> ((\<lparr>ep_Stdout = [], ep_Stderr = []\<rparr>, Some e), w')
      | (Inr (stdout, stderr), w') \<Rightarrow> ((\<lparr>ep_Stdout = stdout, ep_Stderr = stderr\<rparr>, None), w'))"

definition RunPodExecCommand :: "'w kube_MCPServer \<Rightarrow> 'w pod_exec" where
  "RunPodExecCommand s ctx namespace name container command w =
     (case ExecPod s ctx \<lparr>ep_Name = name, ep_Namespace = namespace, ep_Container = container,
          ep_Command = command\<rparr> w of
        ((result, Some e), w') \<Rightarrow> (Inl e, w')
      | ((result, None), w') \<Rightarrow> (Inr (ep_Stdout result, ep_Stderr result), w'))"

definition GetPodLogs ::
  "compiler \<Rightarrow> 'w kube_MCPServer \<Rightarrow> Context \<Rightarrow> GetPodLogsParams \<Rightarrow> 'w \<Rightarrow>
   GetPodLogsResult handler_ret \<times> 'w" where
  "GetPodLogs compile s ctx inp w =
     (case ExecuteWithMatch compile (pl_Pattern inp)
         (\<lambda>v. case client_GetPodLogs (clientSet s) ctx (pl_Namespace inp) (pl_Name inp)
             (pl_Container inp) (pl_Previous inp) v of
            (Inl e, v') \<Rightarrow> (Inl e, v')
          | (Inr lines, v') \<Rightarrow> (Inr (StripEmptyLines lines), v')) True w of
        (Inl e, w') \<Rightarrow> ((\<lparr>Logs = []\<rparr>, Some e), w')
      | (Inr lines, w') \<Rightarrow> ((\<lparr>Logs = Apply (pl_HeadTail inp) lines kube_defaultMaxLines\<rparr>, None), w'))"

section \<open>Recording the calls of an API\<close>

text \<open>A deletion is recorded with its context, the time it is called at and the API's answer.\<close>

datatype event =
    Created string string Pod
  | Ran string string string strs
  | Delete string string Context int "err option"

definition traced :: "'w kube_api \<Rightarrow> ('w \<times> event list) kube_api" where
  "traced api = \<lparr>api_now = api_now api \<circ> fst, api_ticks = api_ticks api \<circ> fst,
     api_Create = (\<lambda>ctx ns pod (w, l). case api_Create api ctx ns pod w of
        (Inl e, w') \<Rightarrow> (Inl e, (w', l)) | (Inr n, w') \<Rightarrow> (Inr n, (w', l @ [Created ns n pod]))),
     api_Get = (\<lambda>ctx ns n (w, l). case api_Get api ctx ns n w of (r, w') \<Rightarrow> (r, (w', l))),
     api_Delete = (\<lambda>ctx ns n (w, l). case api_Delete api ctx ns n w of 
        (r, w') \<Rightarrow> (r, (w', l @ [Delete ns n ctx (api_now api w) r]))),
     api_GetLogs = (\<lambda>ctx ns n c p (w, l). case api_GetLogs api ctx ns n c p w of (r, w') \<Rightarrow> (r, (w', l))),
     api_Exec = (\<lambda>ctx ns n c cmd (w, l). case api_Exec api ctx ns n c cmd w of
        (r, w') \<Rightarrow> (r, (w', l @ [Ran ns n c cmd])))\<rparr>"

text \<open>The pods whose deletion was not called, the pods that were created and not deleted, and those whose
  deletion the API refused.\<close>

fun abandoned :: "event list \<Rightarrow> (string \<times> string) list \<Rightarrow> (string \<times> string) list" where
  "abandoned [] ps = ps"
| "abandoned (Created ns n _ # es) ps = abandoned es ((ns, n) # ps)"
| "abandoned (Delete ns n _ _ _ # es) ps = abandoned es (remove1 (ns, n) ps)"
| "abandoned (Ran _ _ _ _ # es) ps = abandoned es ps"

fun leaked :: "event list \<Rightarrow> (string \<times> string) list \<Rightarrow> (string \<times> string) list" where
  "leaked [] ps = ps"
| "leaked (Created ns n _ # es) ps = leaked es ((ns, n) # ps)"
| "leaked (Delete ns n _ _ None # es) ps = leaked es (remove1 (ns, n) ps)"
| "leaked (Delete _ _ _ _ (Some _) # es) ps = leaked es ps"
| "leaked (Ran _ _ _ _ # es) ps = leaked es ps"

fun refused :: "event list \<Rightarrow> (string \<times> string) multiset" where
  "refused [] = {#}"
| "refused (Delete ns n _ _ (Some _) # es) = add_mset (ns, n) (refused es)"
| "refused (_ # es) = refused es"

lemma abandoned_append: "abandoned (es @ fs) ps = abandoned fs (abandoned es ps)"
  by (induction es ps rule: abandoned.induct) auto

lemma mset_remove1_le:
  assumes "mset ps \<subseteq># mset qs + R"
  shows "mset (remove1 x ps) \<subseteq># mset (remove1 x qs) + R" "mset ps \<subseteq># mset (remove1 x qs) + add_mset x R"
proof -
  have c: "count (mset ps) y \<le> count (mset qs) y + count R y" for y
    using mset_subset_eq_count [OF assms, of y] by simp
  have "count (mset (remove1 x ps)) y \<le> count (mset (remove1 x qs) + R) y"
    "count (mset ps) y \<le> count (mset (remove1 x qs) + add_mset x R) y" for y
    using c [of y] by (cases "y = x"; simp)+
  then show "mset (remove1 x ps) \<subseteq># mset (remove1 x qs) + R" "mset ps \<subseteq># mset (remove1 x qs) + add_mset x R"
    unfolding subseteq_mset_def by blast+
qed

text \<open>A pod that was not deleted was abandoned, or its deletion was refused.\<close>

lemma leaked_refused:
  "mset ps \<subseteq># mset qs + R \<Longrightarrow> mset (leaked es ps) \<subseteq># mset (abandoned es qs) + (R + refused es)"
proof (induction es arbitrary: ps qs R)
  case (Cons e es)
  show ?case
  proof (cases e)
    case (Created ns n pod)
    then show ?thesis using Cons.IH [of "(ns, n) # ps" "(ns, n) # qs" R] Cons.prems by simp
  next
    case (Ran ns n c cmd)
    then show ?thesis using Cons by simp
  next
    case (Delete ns n ctx now r)
    note IH = Cons.IH [OF mset_remove1_le(1) [OF Cons.prems, of "(ns, n)"]]
      Cons.IH [OF mset_remove1_le(2) [OF Cons.prems, of "(ns, n)"]]
    show ?thesis using IH Delete by (cases r) simp_all
  qed
qed simp

lemma poll_until_log:
  "(\<And>v. snd (snd (cond v)) = snd v) \<Longrightarrow> snd (snd (poll_until n cond w)) = snd w"
proof (induction n cond w rule: poll_until.induct)
  case (1 n cond w)
  obtain r w' where c: "cond w = (r, w')" by (cases "cond w")
  have w': "snd w' = snd w" using 1(2) [of w] c by simp
  show ?case
    using c w' 1 by (auto simp: poll_until.simps [of n] split: sum.splits bool.splits nat.splits)
qed

lemma traced_Get_log: "snd (snd (api_Get (traced api) ctx ns n v)) = snd v"
  by (auto simp: traced_def split: prod.splits)

lemma snd_map_result:
  "snd (case x of (Inl e, u) \<Rightarrow> (Inl e, u) | (Inr y, u) \<Rightarrow> (Inr (f y), u)) = snd x"
  by (auto split: prod.splits sum.splits)

lemma traced_Create:
  "api_Create (traced api) ctx ns pod v = (Inr n, v') \<Longrightarrow> snd v' = snd v @ [Created ns n pod]"
  "api_Create (traced api) ctx ns pod v = (Inl e, v') \<Longrightarrow> snd v' = snd v"
  by (auto simp: traced_def split: prod.splits sum.splits)

lemma traced_Exec_log:
  "api_Exec (traced api) ctx ns n c cmd v = (r, v') \<Longrightarrow> snd v' = snd v @ [Ran ns n c cmd]"
  by (auto simp: traced_def split: prod.splits)

text \<open>A deletion under a context that was made for it: derived from no other, it ends ten seconds after the
  time of the call.\<close>

definition fresh_delete :: "string \<Rightarrow> string \<Rightarrow> event \<Rightarrow> bool" where
  "fresh_delete ns n e \<longleftrightarrow> (\<exists>now r. e = Delete ns n (context_WithTimeout now context_Background (10 * Second)) now r)"

lemma cleanupPod_log:
  "\<exists>d. fresh_delete ns n d \<and> snd (cleanupPod (traced api) ns n v) = snd v @ [d]"
  by (cases v) (auto simp: cleanupPod_def traced_def Let_def fresh_delete_def split: prod.splits)

lemma createPod_log:
  assumes "createPod (traced api) ctx node ns img hp mp v = (r, v')"
  obtains (failed) e where "r = Inl e" "snd v' = snd v"
  | (gone) e n d where "r = Inl e" "fresh_delete ns n d"
      "snd v' = snd v @ [Created ns n (debugPod node ns img (if hp = [] then ''/'' else hp)
         (if mp = [] then ''/host'' else mp)), d]"
  | (running) n where "r = Inr n"
      "snd v' = snd v @ [Created ns n (debugPod node ns img (if hp = [] then ''/'' else hp)
         (if mp = [] then ''/host'' else mp))]"
proof -
  let ?pod = "debugPod node ns img (if hp = [] then ''/'' else hp) (if mp = [] then ''/host'' else mp)"
  obtain cr v1 where c: "api_Create (traced api) ctx ns ?pod v = (cr, v1)"
    by (cases "api_Create (traced api) ctx ns ?pod v")
  show thesis
  proof (cases cr)
    case (Inl e)
    have "r = Inl (Errorf createPod_msg [FErr e])" "v' = v1"
      using assms c Inl by (auto simp: createPod_def Let_def)
    then show thesis using failed traced_Create(2) c Inl by metis
  next
    case (Inr n)
    let ?cond = "\<lambda>u. case api_Get (traced api) (context_WithTimeout (api_now (traced api) v1) ctx (60 * Second)) ns n u of
       (Inl e, u') \<Rightarrow> (Inl e, u') | (Inr pod, u') \<Rightarrow> (Inr (pi_Phase pod = PodRunning), u')"
    obtain pr v2 where p: "poll_until (api_ticks (traced api) v1) ?cond v1 = (pr, v2)"
      by (cases "poll_until (api_ticks (traced api) v1) ?cond v1")
    have "snd (snd (?cond u)) = snd u" for u
      by (simp only: snd_map_result traced_Get_log)
    from poll_until_log [of ?cond, OF this, of "api_ticks (traced api) v1" v1]
    have "snd v2 = snd v1" unfolding p by simp
    also have "\<dots> = snd v @ [Created ns n ?pod]"
      using traced_Create(1) [OF c [unfolded Inr]] .
    finally have l2: "snd v2 = snd v @ [Created ns n ?pod]" .
    show thesis
    proof (cases pr)
      case None
      then have "r = Inr n" "v' = v2" using assms c p Inr by (auto simp: createPod_def Let_def)
      then show thesis using running l2 by blast
    next
      case (Some e)
      then have r: "r = Inl (Errorf notRunning_msg [FErr e])" "v' = cleanupPod (traced api) ns n v2"
        using assms c p Inr by (auto simp: createPod_def Let_def)
      obtain d where "fresh_delete ns n d" "snd (cleanupPod (traced api) ns n v2) = snd v2 @ [d]"
        using cleanupPod_log by blast
      then show thesis using gone r l2 by simp
    qed
  qed
qed

lemma ExecPod_log:
  assumes "client_ExecPod (traced api) ctx n ns c cmd v = (r, v')" "c \<noteq> []"
  shows "(\<exists>e. r = Inl e) \<and> snd v' = snd v \<or> snd v' = snd v @ [Ran ns n c cmd]"
proof -
  obtain g v1 where g: "api_Get (traced api) ctx ns n v = (g, v1)"
    by (cases "api_Get (traced api) ctx ns n v")
  then have "snd v1 = snd v" using traced_Get_log by (metis snd_conv)
  then show ?thesis
    using assms g traced_Exec_log [of api ctx ns n c cmd v1]
    by (auto simp: client_ExecPod_def Let_def split: sum.splits prod.splits if_splits)
qed

section \<open>The calls of one debug command\<close>

definition debug_events :: "string \<Rightarrow> string \<Rightarrow> strs \<Rightarrow> Pod \<Rightarrow> event list set" where
  "debug_events ns n cmd pod =
     {[Created ns n pod, d] | d. fresh_delete ns n d} \<union>
     {[Created ns n pod, Ran ns n ''debug-container'' cmd, d] | d. fresh_delete ns n d}"

lemma DebugNode_rejects:
  assumes "node = [] \<or> ValidatePath hp ''hostPath'' True \<noteq> ok \<or> ValidatePath mp ''mountPath'' True \<noteq> ok"
  shows "\<exists>e. client_DebugNode api ctx ns node img cmd hp mp t v = (Inl e, v)"
  using assms unfolding client_DebugNode_def
  by (cases "node = []"; cases "ValidatePath hp ''hostPath'' True"; cases "ValidatePath mp ''mountPath'' True")
    simp_all

lemma DebugNode_accepts:
  assumes "node \<noteq> []" "ValidatePath hp ''hostPath'' True = ok" "ValidatePath mp ''mountPath'' True = ok"
  shows "client_DebugNode api ctx ns node img cmd hp mp t v =
    (let ns' = (if ns = [] then ''default'' else ns);
         ctx' = (if t \<noteq> 0 then context_WithTimeout (api_now api v) ctx t else ctx) in
     case createPod api ctx' node ns' img hp mp v of
       (Inl e, w1) \<Rightarrow> (Inl e, w1)
     | (Inr n, w1) \<Rightarrow> (case client_ExecPod api ctx' n ns' ''debug-container'' cmd w1 of
          (Inl e, w2) \<Rightarrow> (Inl (Errorf debugExec_msg [FErr e]), cleanupPod api ns' n w2)
        | (Inr (out, er), w2) \<Rightarrow> (Inr (out, er), cleanupPod api ns' n w2)))"
  using assms by (simp only: client_DebugNode_def NamespaceDefault_def Let_def option.case if_False)

lemma debug_events_intros:
  "fresh_delete ns n d \<Longrightarrow> [Created ns n pod, d] \<in> debug_events ns n cmd pod"
  "fresh_delete ns n d \<Longrightarrow> [Created ns n pod, Ran ns n ''debug-container'' cmd, d] \<in> debug_events ns n cmd pod"
  unfolding debug_events_def by blast+

text \<open>Running the command in a debug pod that runs, and deleting the pod.\<close>

lemma exec_cleanup_log:
  assumes "(r, v') = (case client_ExecPod (traced api) ctx n ns ''debug-container'' cmd v1 of
       (Inl e, w2) \<Rightarrow> (Inl (Errorf debugExec_msg [FErr e]), cleanupPod (traced api) ns n w2)
     | (Inr (out, er), w2) \<Rightarrow> (Inr (out, er), cleanupPod (traced api) ns n w2))"
    and "snd v1 = l @ [Created ns n pod]"
  shows "\<exists>es. snd v' = l @ es \<and> es \<in> debug_events ns n cmd pod \<and> ((\<exists>x. r = Inr x) \<longrightarrow> length es = 3)"
proof -
  obtain x v2 where x: "client_ExecPod (traced api) ctx n ns ''debug-container'' cmd v1 = (x, v2)"
    by (cases "client_ExecPod (traced api) ctx n ns ''debug-container'' cmd v1")
  from cleanupPod_log [of ns n api v2] obtain d where c: "fresh_delete ns n d"
    "snd (cleanupPod (traced api) ns n v2) = snd v2 @ [d]" by blast
  have v': "v' = cleanupPod (traced api) ns n v2" "(\<exists>y. r = Inr y) \<longleftrightarrow> (\<exists>y. x = Inr y)"
    using assms(1) x by (auto split: sum.splits prod.splits)
  from ExecPod_log [OF x] consider (no) "\<exists>e. x = Inl e" "snd v2 = snd v1"
    | (ran) "snd v2 = snd v1 @ [Ran ns n ''debug-container'' cmd]" by auto
  then show ?thesis
  proof cases
    case no
    have "snd v' = l @ [Created ns n pod, d]" unfolding v'(1) c(2) no(2) assms(2) by simp
    moreover have "\<not> (\<exists>y. r = Inr y)" using v'(2) no(1) by auto
    ultimately show ?thesis using debug_events_intros(1) [OF c(1)] by blast
  next
    case ran
    have "snd v' = l @ [Created ns n pod, Ran ns n ''debug-container'' cmd, d]"
      unfolding v'(1) c(2) ran assms(2) by simp
    then show ?thesis using debug_events_intros(2) [OF c(1)] by fastforce
  qed
qed

lemma DebugNode_events:
  assumes "client_DebugNode (traced api) ctx ns node img cmd hp mp t v = (r, v')"
  shows "(\<exists>e. r = Inl e) \<and> snd v' = snd v \<or>
     (\<exists>n es pod. snd v' = snd v @ es \<and> es \<in> debug_events (if ns = [] then ''default'' else ns) n cmd pod \<and>
        pod = debugPod node (if ns = [] then ''default'' else ns) img
          (if hp = [] then ''/'' else hp) (if mp = [] then ''/host'' else mp) \<and>
        ValidatePath hp ''hostPath'' True = ok \<and> ValidatePath mp ''mountPath'' True = ok \<and> node \<noteq> [] \<and>
        ((\<exists>x. r = Inr x) \<longrightarrow> length es = 3))"
proof -
  let ?ns = "if ns = [] then ''default'' else ns"
  let ?ctx = "if t \<noteq> 0 then context_WithTimeout (api_now (traced api) v) ctx t else ctx"
  let ?pod = "debugPod node ?ns img (if hp = [] then ''/'' else hp) (if mp = [] then ''/host'' else mp)"
  show ?thesis
  proof (cases "node = [] \<or> ValidatePath hp ''hostPath'' True \<noteq> ok \<or> ValidatePath mp ''mountPath'' True \<noteq> ok")
    case True
    then have "(\<exists>e. r = Inl e) \<and> v' = v"
      using assms DebugNode_rejects by (metis prod.inject)
    then show ?thesis by blast
  next
    case False
    obtain q v1 where q: "createPod (traced api) ?ctx node ?ns img hp mp v = (q, v1)"
      by (cases "createPod (traced api) ?ctx node ?ns img hp mp v")
    have d: "(r, v') = (case q of Inl e \<Rightarrow> (Inl e, v1)
        | Inr n \<Rightarrow> (case client_ExecPod (traced api) ?ctx n ?ns ''debug-container'' cmd v1 of
            (Inl e, w2) \<Rightarrow> (Inl (Errorf debugExec_msg [FErr e]), cleanupPod (traced api) ?ns n w2)
          | (Inr (out, er), w2) \<Rightarrow> (Inr (out, er), cleanupPod (traced api) ?ns n w2)))"
      using DebugNode_accepts [of node hp mp "traced api" ctx ns img cmd t v] False assms q
      by (cases q) (simp_all add: Let_def)
    have fin: ?thesis if "snd v' = snd v @ es" "es \<in> debug_events ?ns n cmd ?pod"
      "(\<exists>x. r = Inr x) \<longrightarrow> length es = 3" for n es
      by (intro disjI2 exI [of _ n] exI [of _ es] exI [of _ ?pod] conjI that refl)
        (use False in simp_all)
    from q show ?thesis
    proof (cases rule: createPod_log)
      case (running n)
      have "(r, v') = (case client_ExecPod (traced api) ?ctx n ?ns ''debug-container'' cmd v1 of
          (Inl e, w2) \<Rightarrow> (Inl (Errorf debugExec_msg [FErr e]), cleanupPod (traced api) ?ns n w2)
        | (Inr (out, er), w2) \<Rightarrow> (Inr (out, er), cleanupPod (traced api) ?ns n w2))"
        using d running(1) by simp
      from exec_cleanup_log [OF this running(2)] fin show ?thesis by blast
    next
      case (gone e n d)
      have r: "r = Inl e" "v' = v1" using d gone(1) by auto
      have e: "snd v' = snd v @ [Created ?ns n ?pod, d]" unfolding r(2) gone(3) ..
      show ?thesis by (rule fin [OF e debug_events_intros(1) [OF gone(2)]]) (simp add: r(1))
    next
      case (failed e)
      then show ?thesis using d by simp
    qed
  qed
qed

lemma debug_events_abandon: "es \<in> debug_events ns n cmd pod \<Longrightarrow> abandoned es ps = ps"
  by (auto simp: debug_events_def fresh_delete_def)

definition ran_ok :: "(strs \<Rightarrow> bool) \<Rightarrow> event \<Rightarrow> bool" where
  "ran_ok P ev = (case ev of Ran _ _ _ cmd \<Rightarrow> P cmd | _ \<Rightarrow> True)"

lemma debug_events_ran: "es \<in> debug_events ns n cmd pod \<Longrightarrow> P cmd \<Longrightarrow> list_all (ran_ok P) es"
  by (auto simp: debug_events_def fresh_delete_def ran_ok_def)

lemma DebugNode_log_cases:
  obtains (none) "snd (snd (client_DebugNode (traced api) ctx ns node img cmd hp mp t v)) = snd v"
  | (some) n es pod where
      "snd (snd (client_DebugNode (traced api) ctx ns node img cmd hp mp t v)) = snd v @ es"
      "es \<in> debug_events (if ns = [] then ''default'' else ns) n cmd pod"
proof -
  obtain r v' where p: "client_DebugNode (traced api) ctx ns node img cmd hp mp t v = (r, v')"
    by (cases "client_DebugNode (traced api) ctx ns node img cmd hp mp t v")
  from DebugNode_events [OF p] show thesis
    by (elim disjE exE conjE) (use p none some in auto)
qed

lemma node_step_RunDebugNode:
  "node_step (RunDebugNode \<lparr>clientSet = api\<rparr>) c v =
     snd (client_DebugNode api (nc_ctx c) (nc_namespace c) (nc_node c) (nc_image c) (nc_command c)
       (nc_hostPath c) (nc_mountPath c) (nc_timeout c) v)"
  by (simp add: node_step_def RunDebugNode_def)

lemma RunPodExecCommand_eq:
  "RunPodExecCommand \<lparr>clientSet = api\<rparr> ctx ns name c cmd v = client_ExecPod api ctx name ns c cmd v"
  by (auto simp: RunPodExecCommand_def ExecPod_def split: sum.splits prod.splits)

lemma pod_step_RunPodExecCommand:
  "pod_step (RunPodExecCommand \<lparr>clientSet = api\<rparr>) c v =
     snd (client_ExecPod api (pc_ctx c) (pc_name c) (pc_namespace c) (pc_container c) (pc_command c) v)"
  by (simp add: pod_step_def RunPodExecCommand_eq)

lemma snd_ExecPod:
  "snd (client_ExecPod api ctx n ns c cmd v) = (case api_Get api ctx ns n v of
     (Inl e, w1) \<Rightarrow> w1
   | (Inr pod, w1) \<Rightarrow>
       if pi_Phase pod \<noteq> PodRunning \<or> c = [] \<and> pi_Containers pod = [] then w1
       else snd (api_Exec api ctx ns n (if c = [] then pi_Containers pod ! 0 else c) cmd w1))"
  by (simp add: client_ExecPod_def Let_def split: sum.splits prod.splits)

lemma ExecPod_log_cases:
  obtains (none) "snd (snd (client_ExecPod (traced api) ctx n ns c cmd v)) = snd v"
  | (ran) c' where "snd (snd (client_ExecPod (traced api) ctx n ns c cmd v)) = snd v @ [Ran ns n c' cmd]"
proof -
  obtain g v1 where g: "api_Get (traced api) ctx ns n v = (g, v1)"
    by (cases "api_Get (traced api) ctx ns n v")
  have v1: "snd v1 = snd v" using traced_Get_log [of api ctx ns n v] g by simp
  have e: "snd (snd (api_Exec (traced api) ctx ns n k cmd v1)) = snd v @ [Ran ns n k cmd]" for k
    using traced_Exec_log [of api ctx ns n k cmd v1] v1 by (metis prod.collapse)
  have "snd (client_ExecPod (traced api) ctx n ns c cmd v) = v1 \<or>
      (\<exists>k. snd (client_ExecPod (traced api) ctx n ns c cmd v) = snd (api_Exec (traced api) ctx ns n k cmd v1))"
    unfolding snd_ExecPod g by (auto split: sum.splits)
  then show thesis using none ran e v1 by metis
qed

section \<open>The client as the executors' provider\<close>

text \<open>What the client promises the tools that run commands through it: a command on a node calls
  the deletion of its debug pod, a command in a pod creates none, and only the tool's own command is run.\<close>

interpretation debug_pods: exec_invariant
  "node_step (RunDebugNode \<lparr>clientSet = traced api\<rparr>)" "\<lambda>_. True" "\<lambda>v. abandoned (snd v) [] = ps"
proof
  fix a and v :: "'a \<times> event list"
  assume "abandoned (snd v) [] = ps"
  then show "abandoned (snd (node_step (RunDebugNode \<lparr>clientSet = traced api\<rparr>) a v)) [] = ps"
    unfolding node_step_RunDebugNode
    by (cases rule: DebugNode_log_cases [of api "nc_ctx a" "nc_namespace a" "nc_node a" "nc_image a"
          "nc_command a" "nc_hostPath a" "nc_mountPath a" "nc_timeout a" v])
      (simp_all add: abandoned_append debug_events_abandon)
qed

interpretation debug_commands: exec_invariant
  "node_step (RunDebugNode \<lparr>clientSet = traced api\<rparr>)" "\<lambda>c. P (nc_command c)"
  "\<lambda>v. list_all (ran_ok P) (snd v)"
proof
  fix a :: node_call and v :: "'a \<times> event list"
  assume "P (nc_command a)" "list_all (ran_ok P) (snd v)"
  then show "list_all (ran_ok P) (snd (node_step (RunDebugNode \<lparr>clientSet = traced api\<rparr>) a v))"
    unfolding node_step_RunDebugNode
    by (cases rule: DebugNode_log_cases [of api "nc_ctx a" "nc_namespace a" "nc_node a" "nc_image a"
          "nc_command a" "nc_hostPath a" "nc_mountPath a" "nc_timeout a" v])
      (simp_all add: debug_events_ran)
qed

interpretation pod_commands: exec_invariant
  "pod_step (RunPodExecCommand \<lparr>clientSet = traced api\<rparr>)" "\<lambda>c. P (pc_command c)"
  "\<lambda>v. list_all (ran_ok P) (snd v) \<and> abandoned (snd v) [] = ps"
proof
  fix a :: pod_call and v :: "'a \<times> event list"
  assume "P (pc_command a)" "list_all (ran_ok P) (snd v) \<and> abandoned (snd v) [] = ps"
  then show "list_all (ran_ok P) (snd (pod_step (RunPodExecCommand \<lparr>clientSet = traced api\<rparr>) a v)) \<and>
      abandoned (snd (pod_step (RunPodExecCommand \<lparr>clientSet = traced api\<rparr>) a v)) [] = ps"
    unfolding pod_step_RunPodExecCommand
    by (cases rule: ExecPod_log_cases [of api "pc_ctx a" "pc_name a" "pc_namespace a" "pc_container a"
          "pc_command a" v])
      (simp_all add: abandoned_append ran_ok_def)
qed

section \<open>Properties\<close>

text \<open>Claim C4: a debug command either creates no pod and runs nothing, or creates exactly one privileged
  pod on the named node with validated mount paths, runs at most the given command in it, and as
  its last call asks the API to delete that pod, whatever failed in between, under a context that is not
  the request's and ends ten seconds after that call; the pod is left behind only when the API refuses
  the deletion. When the command succeeds it has run.\<close>

theorem debug_pod_lifecycle:
  "case client_DebugNode (traced api) ctx ns node img cmd hp mp t (w, l) of (r, (w', l')) \<Rightarrow>
     (\<exists>e. r = Inl e) \<and> l' = l \<or>
     (\<exists>n es pod. l' = l @ es \<and> es \<in> debug_events (if ns = [] then ''default'' else ns) n cmd pod \<and>
        abandoned es [] = [] \<and> mset (leaked es []) \<subseteq># refused es \<and>
        pod = debugPod node (if ns = [] then ''default'' else ns) img
          (if hp = [] then ''/'' else hp) (if mp = [] then ''/host'' else mp) \<and>
        ValidatePath hp ''hostPath'' True = ok \<and> ValidatePath mp ''mountPath'' True = ok \<and> node \<noteq> [] \<and>
        (case r of Inl _ \<Rightarrow> True | Inr _ \<Rightarrow> length es = 3))"
proof -
  obtain r v' where Pair: "client_DebugNode (traced api) ctx ns node img cmd hp mp t (w, l) = (r, v')"
    by (cases "client_DebugNode (traced api) ctx ns node img cmd hp mp t (w, l)")
  obtain w' l' where v': "v' = (w', l')" by (cases v')
  from DebugNode_events [OF Pair] consider (none) "(\<exists>e. r = Inl e) \<and> l' = l"
    | (some) n es where "l' = l @ es"
      "es \<in> debug_events (if ns = [] then ''default'' else ns) n cmd
         (debugPod node (if ns = [] then ''default'' else ns) img
          (if hp = [] then ''/'' else hp) (if mp = [] then ''/host'' else mp))"
      "ValidatePath hp ''hostPath'' True = ok" "ValidatePath mp ''mountPath'' True = ok" "node \<noteq> []"
      "(\<exists>x. r = Inr x) \<longrightarrow> length es = 3"
    unfolding v' snd_conv by blast
  then show ?thesis
  proof cases
    case (some n es)
    have "case r of Inl _ \<Rightarrow> True | Inr _ \<Rightarrow> length es = 3" using some(6) by (cases r) auto
    moreover have "mset (leaked es []) \<subseteq># refused es"
      using leaked_refused [of "[]" "[]" "{#}" es] debug_events_abandon [OF some(2), of "[]"] by simp
    ultimately show ?thesis using some(1-5) debug_events_abandon [OF some(2), of "[]"]
      unfolding Pair v' prod.case by (intro disjI2 exI conjI) (assumption | rule refl)+
  qed (simp add: Pair v')
qed

text \<open>running a command in a pod succeeds exactly when the pod can be fetched and is running,
  it has a container when none is named (the first is then used), and the exec call succeeds.\<close>

theorem RunPodExecCommand_ok_iff:
  "RunPodExecCommand \<lparr>clientSet = api\<rparr> ctx ns name c cmd w = (Inr (out, er), w') \<longleftrightarrow>
     (\<exists>pod w1. api_Get api ctx ns name w = (Inr pod, w1) \<and> pi_Phase pod = ''Running'' \<and>
        (c \<noteq> [] \<or> pi_Containers pod \<noteq> []) \<and>
        api_Exec api ctx ns name (if c = [] then hd (pi_Containers pod) else c) cmd w1 = (Inr (out, er), w'))"
  unfolding RunPodExecCommand_eq
  by (auto simp: client_ExecPod_def PodRunning_def Let_def hd_conv_nth split: sum.splits prod.splits if_splits)

text \<open>\<^verbatim>\<open>pod-logs\<close> succeeds exactly when the pattern compiles and the logs can be fetched, and
  returns the non-blank matching lines cut by head and tail.\<close>

theorem GetPodLogs_ok_iff:
  "GetPodLogs compile s ctx i w = ((r, None), w') \<longleftrightarrow>
     pattern_ok compile (pl_Pattern i) \<and>
     (\<exists>logs. api_GetLogs (clientSet s) ctx (pl_Namespace i) (pl_Name i) (pl_Container i) (pl_Previous i) w =
         (Inr logs, w') \<and>
       r = \<lparr>Logs = Apply (pl_HeadTail i)
          (filter (output_line compile (pl_Pattern i)) (Split newline logs)) 100\<rparr>)"
proof -
  let ?run = "\<lambda>v. case api_GetLogs (clientSet s) ctx (pl_Namespace i) (pl_Name i) (pl_Container i) (pl_Previous i) v
     of (Inl e, v') \<Rightarrow> (Inl e, v') | (Inr logs, v') \<Rightarrow> (Inr (logs, []), v')"
  have f: "(\<lambda>v. case client_GetPodLogs (clientSet s) ctx (pl_Namespace i) (pl_Name i)
             (pl_Container i) (pl_Previous i) v of
            (Inl e, v') \<Rightarrow> (Inl e, v')
          | (Inr lines, v') \<Rightarrow> (Inr (StripEmptyLines lines), v')) =
      exec_lines ?run (\<lambda>e. Errorf podLogs_msg [FErr e]) (\<lambda>_. deadline_exceeded)"
    by (auto simp: fun_eq_iff exec_lines_def client_GetPodLogs_def split: prod.splits sum.splits)
  have g: "?run w = (Inr (out, []), w') \<longleftrightarrow>
      api_GetLogs (clientSet s) ctx (pl_Namespace i) (pl_Name i) (pl_Container i) (pl_Previous i) w =
        (Inr out, w')" for out
    by (auto split: prod.splits sum.splits)
  show ?thesis
    unfolding GetPodLogs_def f handler_case_ok matched_exec_iff g kube_defaultMaxLines_def by auto
qed

end
