(* ===== verification/MustGather.thy ===== *)
theory MustGather
  imports OvsdbTool KubeClient
begin

text \<open>
  The must-gather tools, \<^verbatim>\<open>pkg/must-gather/mcp\<close>: the handlers over the omc client and the ovsdb tool,
  and the properties of the must-gather side as a whole: which system calls the tools make, that all
  they write lies below the must-gather, and what each of them returns. The JSONPath parser is the
  parameter \<open>parse\<close>, the compiler of client patterns the parameter \<open>compile\<close>.
\<close>

section \<open>Server and parameters\<close>

record 'w MustGatherMCPServer =
  mgs_omcClient :: "'w OmcClient"
  mgs_ovsdbTool :: "'w OvsdbTool option"

definition mg_NewMCPServer ::
  "'w mg_os \<Rightarrow> (string \<Rightarrow> string result) \<Rightarrow> json_lib \<Rightarrow> 'w MustGatherMCPServer result" where
  "mg_NewMCPServer os LookPath lib = (case NewOmcClient os LookPath of
       Inl e \<Rightarrow> Inl e
     | Inr omcClient \<Rightarrow> Inr \<lparr>mgs_omcClient = omcClient,
         mgs_ovsdbTool = (case NewOvsdbTool LookPath lib (Some omcClient) of Inl _ \<Rightarrow> None | Inr t \<Rightarrow> Some t)\<rparr>)"

definition mg_DefaultMaxLines :: int where "mg_DefaultMaxLines = 100"

record mg_GetResourceParams =
  gr_MustGatherPath :: string
  gr_Kind :: string
  gr_GetParams :: GetParams

record mg_ListResourcesParams =
  lr_MustGatherPath :: string
  lr_Kind :: string
  lr_ListParams :: ListParams

record mg_GetPodLogsParams =
  ml_MustGatherPath :: string
  ml_Params :: GetPodLogsParams
  ml_Rotated :: bool

record GetOvnKInfoParams =
  oi_MustGatherPath :: string
  oi_InfoType :: string

record ListDatabasesParams =
  ld_MustGatherPath :: string

record QueryDatabaseParams =
  qd_MustGatherPath :: string
  qd_DatabaseName :: string
  qd_Table :: string
  qd_Conditions :: strs
  qd_Columns :: strs

record DataResult =
  Data :: string

record mg_GetPodLogsResult =
  mg_Logs :: strs

abbreviation no_data :: DataResult where
  "no_data \<equiv> \<lparr>Data = []\<rparr>"

section \<open>Handlers\<close>

definition data_result :: "string result \<times> 'w \<Rightarrow> DataResult handler_ret \<times> 'w" where
  "data_result x = (case x of
       (Inl e, w) \<Rightarrow> ((no_data, Some e), w)
     | (Inr output, w) \<Rightarrow> ((\<lparr>Data = output\<rparr>, None), w))"

text \<open>The checks before a request, each error joined to those before it.\<close>

definition join_if :: "bool \<Rightarrow> err \<Rightarrow> err option \<Rightarrow> err option" where
  "join_if b e acc = (if b then Some (errors_Join acc e) else acc)"

definition join_opt :: "err option \<Rightarrow> err option \<Rightarrow> err option" where
  "join_opt v acc = (case v of None \<Rightarrow> acc | Some e \<Rightarrow> Some (errors_Join acc e))"

definition mg_GetResource ::
  "(string \<Rightarrow> err option) \<Rightarrow> 'w MustGatherMCPServer \<Rightarrow> Context \<Rightarrow> mg_GetResourceParams \<Rightarrow> 'w \<Rightarrow>
   DataResult handler_ret \<times> 'w" where
  "mg_GetResource parse s ctx i w =
     (let g = gr_GetParams i;
          err0 = (if gr_Kind i = [] then Some (Errorf ''kind is required'' []) else None);
          err1 = join_if (gp_Name g = []) (Errorf ''name is required'' []) err0;
          err2 = join_opt (ValidateOutputParams parse (gp_OutputParams g)) err1
      in case err2 of
           Some e \<Rightarrow> ((no_data, Some e), w)
         | None \<Rightarrow> data_result (omc_GetResource (mgs_omcClient s) ctx (gr_MustGatherPath i) (gr_Kind i)
             (gp_Namespace g) (gp_Name g) (gp_OutputParams g) w))"

definition mg_ListResources ::
  "(string \<Rightarrow> err option) \<Rightarrow> 'w MustGatherMCPServer \<Rightarrow> Context \<Rightarrow> mg_ListResourcesParams \<Rightarrow> 'w \<Rightarrow>
   DataResult handler_ret \<times> 'w" where
  "mg_ListResources parse s ctx i w =
     (let l = lr_ListParams i;
          err0 = (if lr_Kind i = [] then Some (Errorf ''kind is required'' []) else None);
          err1 = join_opt (ValidateOutputParams parse (lp_OutputParams l)) err0
      in case err1 of
           Some e \<Rightarrow> ((no_data, Some e), w)
         | None \<Rightarrow> data_result (omc_ListResources (mgs_omcClient s) ctx (lr_MustGatherPath i) (lr_Kind i)
             (lp_Namespace l) (lp_LabelSelector l) (lp_OutputParams l) w))"

definition mg_GetPodLogs ::
  "compiler \<Rightarrow> 'w MustGatherMCPServer \<Rightarrow> Context \<Rightarrow> mg_GetPodLogsParams \<Rightarrow> 'w \<Rightarrow>
   mg_GetPodLogsResult handler_ret \<times> 'w" where
  "mg_GetPodLogs compile s ctx i w =
     (let p = ml_Params i in
      if pl_Name p = [] then ((\<lparr>mg_Logs = []\<rparr>, Some (Errorf ''name is required'' [])), w)
      else (case ExecuteWithMatch compile (pl_Pattern p)
          (\<lambda>v. case omc_GetPodLogs (mgs_omcClient s) ctx (ml_MustGatherPath i) (pl_Namespace p) (pl_Name p)
                 (pl_Container p) (pl_Previous p) (ml_Rotated i) v of
               (Inl e, v') \<Rightarrow> (Inl e, v')
             | (Inr output, v') \<Rightarrow> (Inr (StripEmptyLines (Split newline output)), v')) True w of
          (Inl e, w') \<Rightarrow> ((\<lparr>mg_Logs = []\<rparr>, Some e), w')
        | (Inr lines, w') \<Rightarrow> ((\<lparr>mg_Logs = Apply (pl_HeadTail p) lines mg_DefaultMaxLines\<rparr>, None), w')))"

definition mg_GetOvnKInfo ::
  "'w MustGatherMCPServer \<Rightarrow> Context \<Rightarrow> GetOvnKInfoParams \<Rightarrow> 'w \<Rightarrow> DataResult handler_ret \<times> 'w" where
  "mg_GetOvnKInfo s ctx i w =
     data_result (omc_GetOvnKInfo (mgs_omcClient s) ctx (oi_MustGatherPath i) (oi_InfoType i) w)"

definition noOvsdbTool :: err where
  "noOvsdbTool = Errorf ''ovsdb-tool is not available; ensure ovsdb-tool binary is in PATH'' []"

definition mg_ListNorthboundDatabases ::
  "'w MustGatherMCPServer \<Rightarrow> Context \<Rightarrow> ListDatabasesParams \<Rightarrow> 'w \<Rightarrow> DataResult handler_ret \<times> 'w" where
  "mg_ListNorthboundDatabases s ctx i w = (case mgs_ovsdbTool s of
       None \<Rightarrow> ((no_data, Some noOvsdbTool), w)
     | Some t \<Rightarrow> data_result (ot_ListNorthboundDatabases t ctx (ld_MustGatherPath i) w))"

definition mg_ListSouthboundDatabases ::
  "'w MustGatherMCPServer \<Rightarrow> Context \<Rightarrow> ListDatabasesParams \<Rightarrow> 'w \<Rightarrow> DataResult handler_ret \<times> 'w" where
  "mg_ListSouthboundDatabases s ctx i w = (case mgs_ovsdbTool s of
       None \<Rightarrow> ((no_data, Some noOvsdbTool), w)
     | Some t \<Rightarrow> data_result (ot_ListSouthboundDatabases t ctx (ld_MustGatherPath i) w))"

definition mg_QueryDatabase ::
  "'w MustGatherMCPServer \<Rightarrow> Context \<Rightarrow> QueryDatabaseParams \<Rightarrow> 'w \<Rightarrow> DataResult handler_ret \<times> 'w" where
  "mg_QueryDatabase s ctx i w = (case mgs_ovsdbTool s of
       None \<Rightarrow> ((no_data, Some noOvsdbTool), w)
     | Some t \<Rightarrow> data_result (QueryDatabase t ctx (qd_MustGatherPath i) (qd_DatabaseName i) (qd_Table i)
         (qd_Conditions i) (qd_Columns i) w))"

section \<open>Calls of the handlers\<close>

lemma snd_data_result [simp]: "snd (data_result x) = snd x"
  by (auto simp: data_result_def split: prod.splits sum.splits)

lemma data_result_ok: "data_result x = ((r, None), w) \<longleftrightarrow> (\<exists>out. x = (Inr out, w) \<and> r = \<lparr>Data = out\<rparr>)"
  by (auto simp: data_result_def split: prod.splits sum.splits)

lemma join_ok: "join_if b e acc = None \<longleftrightarrow> \<not> b \<and> acc = None" "join_opt v acc = None \<longleftrightarrow> v = None \<and> acc = None"
  by (auto simp: join_if_def join_opt_def split: option.splits)

abbreviation (input) mg_calls :: "'w MustGatherMCPServer \<Rightarrow> Context \<Rightarrow> string \<Rightarrow> 'w \<Rightarrow> 'w \<Rightarrow> bool" where
  "mg_calls s ctx path \<equiv> calls (mg_step (omc_os (mgs_omcClient s)))
     (omc_op (omc_commandPath (mgs_omcClient s)) ctx path)"

lemma calls_omc_tools:
  "mg_calls s ctx (gr_MustGatherPath gr) w (snd (mg_GetResource parse s ctx gr w))"
  "mg_calls s ctx (lr_MustGatherPath lr) w (snd (mg_ListResources parse s ctx lr w))"
  "mg_calls s ctx (ml_MustGatherPath ml) w (snd (mg_GetPodLogs compile s ctx ml w))"
  "mg_calls s ctx (oi_MustGatherPath oi) w (snd (mg_GetOvnKInfo s ctx oi w))"
proof -
  show "mg_calls s ctx (gr_MustGatherPath gr) w (snd (mg_GetResource parse s ctx gr w))"
    unfolding mg_GetResource_def Let_def by (intro calls_guard) (simp add: calls_omc_client)
  show "mg_calls s ctx (lr_MustGatherPath lr) w (snd (mg_ListResources parse s ctx lr w))"
    unfolding mg_ListResources_def Let_def by (intro calls_guard) (simp add: calls_omc_client)
  show "mg_calls s ctx (ml_MustGatherPath ml) w (snd (mg_GetPodLogs compile s ctx ml w))"
    unfolding mg_GetPodLogs_def Let_def
    by (intro calls_if calls_pair calls_case_result calls_ExecuteWithMatch calls_omc_client)
  show "mg_calls s ctx (oi_MustGatherPath oi) w (snd (mg_GetOvnKInfo s ctx oi w))"
    unfolding mg_GetOvnKInfo_def by (simp add: calls_omc_client)
qed

text \<open>the must-gather tools that read resources, logs and OVN information make no system call but
  checks of the must-gather path, \<^verbatim>\<open>omc use\<close> on that path, and an omc query whose arguments are one
  of four fixed shapes with validated names, selectors and output types; and nothing at all when the
  must-gather path is not an absolute path free of parent references and unsafe characters.\<close>

theorem mg_omc_tools_read_only:
  "calls (mg_step (omc_os (mgs_omcClient s))) (omc_op (omc_commandPath (mgs_omcClient s)) ctx (gr_MustGatherPath gr))
     w (snd (mg_GetResource parse s ctx gr w)) \<and>
   calls (mg_step (omc_os (mgs_omcClient s))) (omc_op (omc_commandPath (mgs_omcClient s)) ctx (lr_MustGatherPath lr))
     w (snd (mg_ListResources parse s ctx lr w)) \<and>
   calls (mg_step (omc_os (mgs_omcClient s))) (omc_op (omc_commandPath (mgs_omcClient s)) ctx (ml_MustGatherPath ml))
     w (snd (mg_GetPodLogs compile s ctx ml w)) \<and>
   calls (mg_step (omc_os (mgs_omcClient s))) (omc_op (omc_commandPath (mgs_omcClient s)) ctx (oi_MustGatherPath oi))
     w (snd (mg_GetOvnKInfo s ctx oi w))"
  by (intro conjI calls_omc_tools)

section \<open>The database tools\<close>

abbreviation with_tool :: "'w OmcClient \<Rightarrow> 'w OvsdbTool \<Rightarrow> 'w MustGatherMCPServer" where
  "with_tool c t \<equiv> \<lparr>mgs_omcClient = c, mgs_ovsdbTool = Some t\<rparr>"

lemma calls_db_tools:
  "calls (mg_step (ot_os t)) (db_op t ctx (ld_MustGatherPath l)) w
     (snd (mg_ListNorthboundDatabases (with_tool c t) ctx l w))"
  "calls (mg_step (ot_os t)) (db_op t ctx (ld_MustGatherPath l)) w
     (snd (mg_ListSouthboundDatabases (with_tool c t) ctx l w))"
  "calls (mg_step (ot_os t)) (db_op t ctx (qd_MustGatherPath q)) w
     (snd (mg_QueryDatabase (with_tool c t) ctx q w))"
  unfolding mg_ListNorthboundDatabases_def mg_ListSouthboundDatabases_def mg_QueryDatabase_def
    ot_ListNorthboundDatabases_def ot_ListSouthboundDatabases_def
  by (simp_all only: MustGatherMCPServer.select_convs option.case snd_data_result)
    (intro calls_case_result calls_getDatabaseToNodeMapping calls_QueryDatabase)+

text \<open>Claim C5: the database tools write only below the must-gather path of the request, whatever the archive in it
  contains: every path they create, open for writing, write, or remove lies below that path. No entry
  of the archive, with parent references or an absolute name or otherwise, escapes.\<close>

theorem mg_writes_confined:
  assumes "os_names (ot_os t)"
  shows "calls (mg_step (ot_os t)) (\<lambda>a. list_all (below (ld_MustGatherPath l)) (op_writes a)) w
      (snd (mg_ListNorthboundDatabases \<lparr>mgs_omcClient = c, mgs_ovsdbTool = Some t\<rparr> ctx l w)) \<and>
    calls (mg_step (ot_os t)) (\<lambda>a. list_all (below (ld_MustGatherPath l)) (op_writes a)) w
      (snd (mg_ListSouthboundDatabases \<lparr>mgs_omcClient = c, mgs_ovsdbTool = Some t\<rparr> ctx l w)) \<and>
    calls (mg_step (ot_os t)) (\<lambda>a. list_all (below (qd_MustGatherPath q)) (op_writes a)) w
      (snd (mg_QueryDatabase \<lparr>mgs_omcClient = c, mgs_ovsdbTool = Some t\<rparr> ctx q w))"
  by (intro conjI; rule calls_mono [OF calls_db_tools(1)] calls_mono [OF calls_db_tools(2)]
      calls_mono [OF calls_db_tools(3)]; erule db_op_confined [OF assms])

definition demo_json :: json_lib where
  "demo_json = \<lparr>json_Unmarshal = \<lambda>s. Inr (JStr s), json_Marshal = \<lambda>_. Inr ''json'',
     json_PodList = \<lambda>_. Inr [(''a'', ''node-a''), (''b'', [])]\<rparr>"

definition demo_tool :: "tar_item list \<Rightarrow> fs OvsdbTool" where
  "demo_tool items = \<lparr>ot_commandPath = ''/usr/bin/ovsdb-tool'',
     ot_omcClient = \<lparr>omc_os = fs_os items ''pods'', omc_commandPath = ''/usr/bin/omc''\<rparr>, ot_json = demo_json\<rparr>"

theorem mg_writes_confined_witness:
  "calls (mg_step (ot_os (demo_tool cut_archive))) (\<lambda>a. list_all (below ''/mg'') (op_writes a)) demo_fs
      (snd (mg_ListNorthboundDatabases \<lparr>mgs_omcClient = ot_omcClient (demo_tool cut_archive),
         mgs_ovsdbTool = Some (demo_tool cut_archive)\<rparr> context_Background \<lparr>ld_MustGatherPath = ''/mg''\<rparr> demo_fs))"
proof -
  have "os_names (ot_os (demo_tool cut_archive))" by (simp add: demo_tool_def fs_os_names)
  from mg_writes_confined [OF this, of "\<lparr>ld_MustGatherPath = ''/mg''\<rparr>"] show ?thesis by simp
qed

section \<open>What the tools return\<close>

lemma required_kind_name:
  "validateKubernetesName n False = ok \<longleftrightarrow> n \<noteq> [] \<and> kube_name (ToLower n)"
  by (simp add: validateKubernetesName_ok)

lemma optional_name:
  "validateKubernetesName n True = ok \<longleftrightarrow> n = [] \<or> kube_name (ToLower n)"
  by (simp add: validateKubernetesName_ok)

definition no_resources :: "string \<Rightarrow> bool" where
  "no_resources out \<longleftrightarrow> Contains (ToLower out) ''no resources''"

text \<open>A checked request that succeeds.\<close>

lemma checked_data_ok:
  "(case v of Some e \<Rightarrow> ((no_data, Some e), w) | None \<Rightarrow> data_result x) = ((r, None), w') \<longleftrightarrow>
     v = None \<and> (\<exists>out. x = (Inr out, w') \<and> r = \<lparr>Data = out\<rparr>)"
  by (cases v) (simp_all add: data_result_ok)

lemma required_ok: "(if b then Some e else None) = None \<longleftrightarrow> \<not> b"
  by simp

text \<open>\<^verbatim>\<open>must-gather-get-resource\<close> succeeds exactly on a valid kind, name, namespace and output type, when
  the must-gather is valid, omc selects it and the query answers something other than that there are
  no resources, and returns that answer as it is.\<close>

theorem mg_GetResource_ok_iff:
  "mg_GetResource parse s ctx i w = ((r, None), w') \<longleftrightarrow>
     kube_name (ToLower (gr_Kind i)) \<and> kube_name (ToLower (gp_Name (gr_GetParams i))) \<and>
     (gp_Namespace (gr_GetParams i) = [] \<or> kube_name (ToLower (gp_Namespace (gr_GetParams i)))) \<and>
     output_ok parse (gp_OutputParams (gr_GetParams i)) \<and>
     (\<exists>out. omc_session (mgs_omcClient s) ctx (gr_MustGatherPath i)
         (getResource_args (gr_Kind i) (gp_Name (gr_GetParams i)) (gp_Namespace (gr_GetParams i))
            (gp_OutputParams (gr_GetParams i))) w out w' \<and>
       \<not> no_resources out \<and> r = \<lparr>Data = out\<rparr>)"
  unfolding mg_GetResource_def Let_def checked_data_ok join_ok required_ok omc_GetResource_ok_iff
    required_kind_name ValidateOutputParams_output_ok optional_name no_resources_def
  by (auto simp: kube_name_def)

text \<open>\<^verbatim>\<open>must-gather-list-resources\<close> succeeds exactly on a valid kind, namespace, selector and output type,
  when the must-gather is valid, omc selects it and the query answers; it returns that answer, or, when
  the answer is that there are no resources, the empty list of the requested format.\<close>

theorem mg_ListResources_ok_iff:
  "mg_ListResources parse s ctx i w = ((r, None), w') \<longleftrightarrow>
     kube_name (ToLower (lr_Kind i)) \<and>
     (lp_Namespace (lr_ListParams i) = [] \<or> kube_name (ToLower (lp_Namespace (lr_ListParams i)))) \<and>
     no_meta ShellMetaCharactersTypeAllowBrackets (lp_LabelSelector (lr_ListParams i)) \<and>
     output_ok parse (lp_OutputParams (lr_ListParams i)) \<and>
     (\<exists>out. omc_session (mgs_omcClient s) ctx (lr_MustGatherPath i)
         (listResources_args (lr_Kind i) (lp_Namespace (lr_ListParams i)) (lp_LabelSelector (lr_ListParams i))
            (lp_OutputParams (lr_ListParams i))) w out w' \<and>
       r = \<lparr>Data = if no_resources out then empty_list_output (OutputType (lp_OutputParams (lr_ListParams i)))
                   else out\<rparr>)"
proof -
  have sel: "validateLabelSelector l = None \<longleftrightarrow> no_meta ShellMetaCharactersTypeAllowBrackets l" for l
    by (cases l) (simp_all add: validateLabelSelector_def ValidateSafeString_ok known_type_def no_meta_def list_all_iff)
  show ?thesis
    unfolding mg_ListResources_def Let_def checked_data_ok join_ok required_ok omc_ListResources_ok_iff
      required_kind_name ValidateOutputParams_output_ok optional_name no_resources_def sel
    by (auto simp: kube_name_def)
qed

text \<open>\<^verbatim>\<open>must-gather-pod-logs\<close> succeeds exactly on a valid name, namespace and container and a pattern that
  compiles, when omc answers for the selected must-gather, and returns the non-blank matching lines of
  its output cut by head and tail.\<close>

theorem mg_GetPodLogs_ok_iff:
  "mg_GetPodLogs compile s ctx i w = ((r, None), w') \<longleftrightarrow>
     kube_name (ToLower (pl_Name (ml_Params i))) \<and>
     (pl_Namespace (ml_Params i) = [] \<or> kube_name (ToLower (pl_Namespace (ml_Params i)))) \<and>
     (pl_Container (ml_Params i) = [] \<or> kube_name (ToLower (pl_Container (ml_Params i)))) \<and>
     pattern_ok compile (pl_Pattern (ml_Params i)) \<and>
     (\<exists>out. omc_session (mgs_omcClient s) ctx (ml_MustGatherPath i)
         (podLogs_args (pl_Namespace (ml_Params i)) (pl_Name (ml_Params i)) (pl_Container (ml_Params i))
            (pl_Previous (ml_Params i)) (ml_Rotated i)) w out w' \<and>
       r = \<lparr>mg_Logs = Apply (pl_HeadTail (ml_Params i))
          (filter (output_line compile (pl_Pattern (ml_Params i))) (Split newline out)) 100\<rparr>)"
proof -
  let ?p = "ml_Params i"
  let ?omc = "omc_GetPodLogs (mgs_omcClient s) ctx (ml_MustGatherPath i) (pl_Namespace ?p) (pl_Name ?p)
      (pl_Container ?p) (pl_Previous ?p) (ml_Rotated i)"
  let ?run = "\<lambda>v. case ?omc v of (Inl e, v') \<Rightarrow> (Inl e, v') | (Inr out, v') \<Rightarrow> (Inr (out, []), v')"
  have f: "(\<lambda>v. case ?omc v of (Inl e, v') \<Rightarrow> (Inl e, v')
        | (Inr output, v') \<Rightarrow> (Inr (StripEmptyLines (Split newline output)), v')) =
      exec_lines ?run (\<lambda>e. e) (\<lambda>_. noOvsdbTool)"
    by (auto simp: fun_eq_iff exec_lines_def split: prod.splits sum.splits)
  have g: "?run w = (Inr (out, []), w') \<longleftrightarrow> ?omc w = (Inr out, w')" for out
    by (auto split: prod.splits sum.splits)
  have n: "(if pl_Name ?p = [] then ((z, Some e), w) else x) = ((r, None), w') \<longleftrightarrow>
      pl_Name ?p \<noteq> [] \<and> x = ((r, None), w')" for z e x by simp
  show ?thesis
    unfolding mg_GetPodLogs_def Let_def n f handler_case_ok matched_exec_iff g omc_GetPodLogs_ok_iff
      required_kind_name optional_name mg_DefaultMaxLines_def
    by (auto simp: kube_name_def)
qed

definition ovn_table :: "string \<Rightarrow> bool" where
  "ovn_table t \<longleftrightarrow> t \<noteq> [] \<and> in_class [(CHR ''A'', CHR ''Z'')] (hd t) \<and> list_all (in_class alnum_us) (tl t)"

lemma validateOVNTableName_ok: "validateOVNTableName t = None \<longleftrightarrow> ovn_table t"
  by (cases t) (auto simp: validateOVNTableName_def ovnTableNamesPattern_def MatchString_full rx_in_cls_seq
      ovn_table_def)

lemma db_name_iff:
  "db_name n \<longleftrightarrow> \<not> (n = [] \<or> \<not> HasSuffix n ''_nbdb'' \<and> \<not> HasSuffix n ''_sbdb'') \<and> Base n = n"
proof
  assume "db_name n"
  then show "\<not> (n = [] \<or> \<not> HasSuffix n ''_nbdb'' \<and> \<not> HasSuffix n ''_sbdb'') \<and> Base n = n"
    using Base_plain [of n] by (cases "n = []") (auto simp: db_name_def HasSuffix_iff)
qed (use db_name_Base in blast)

lemma query_guard_ok:
  "(if b then (Inl e, w) else if c then (Inl e', w) else x) = (Inr y, w') \<longleftrightarrow> \<not> b \<and> \<not> c \<and> x = (Inr y, w')"
  by simp

lemma QueryDatabase_ok_iff:
  "QueryDatabase s ctx path n tb conds cols w = (Inr out, w') \<longleftrightarrow>
     db_name n \<and> ovn_table tb \<and>
     (\<exists>cs q nl w1 b w2. parse_conditions (ot_json s) conds = Inr cs \<and>
        json_Marshal (ot_json s) (select_query (db_schema n) tb cs cols) = Inr q \<and>
        getNetworkLogsDirectory (ot_os s) path w = (Inr nl, w1) \<and>
        mg_Stat (ot_os s) (JoinPath [nl, ovnkDatabaseStore, n]) w1 = (Inr b, w2) \<and>
        mg_Command (ot_os s) ctx (ot_commandPath s) [''query'', JoinPath [nl, ovnkDatabaseStore, n], q] w2 =
          ((out, None), w'))"
proof -
  have sch: "(if HasSuffix n ''_nbdb'' then OVN_Northbound else OVN_Southbound) = db_schema n"
    by (simp add: db_schema_def OVN_Northbound_def OVN_Southbound_def HasSuffix_iff)
  have b: "buildQueryString (ot_json s) (db_schema n) tb conds cols = Inr q \<longleftrightarrow> tb \<noteq> [] \<and>
      (\<exists>cs. parse_conditions (ot_json s) conds = Inr cs \<and>
        json_Marshal (ot_json s) (select_query (db_schema n) tb cs cols) = Inr q)" for q
    unfolding buildQueryString_ok by (simp add: db_schema_def OVN_Northbound_def OVN_Southbound_def)
  have r: "(case v of Inl e \<Rightarrow> (Inl (f e), w) | Inr q \<Rightarrow> g q) = (Inr out, w') \<longleftrightarrow> (\<exists>q. v = Inr q \<and> g q = (Inr out, w'))"
    for v :: "string result" and f and g :: "string \<Rightarrow> string result \<times> 'a" by (cases v) auto
  have st: "(case y of (Inl e, u) \<Rightarrow> (Inl (f e), u) | (Inr z, u) \<Rightarrow> g z u) = (Inr out, w') \<longleftrightarrow>
      (\<exists>z u. y = (Inr z, u) \<and> g z u = (Inr out, w'))"
    for y :: "'z result \<times> 'a" and f and g :: "'z \<Rightarrow> 'a \<Rightarrow> string result \<times> 'a"
    by (auto split: prod.splits sum.splits)
  have cmd: "(case y of ((o', Some e), u) \<Rightarrow> (Inl (f o' e), u) | ((o', None), u) \<Rightarrow> (Inr o', u)) = (Inr out, w') \<longleftrightarrow>
      y = ((out, None), w')" for y :: "(string \<times> err option) \<times> 'a" and f
    by (auto split: prod.splits option.splits)
  have tb: "ovn_table tb \<Longrightarrow> tb \<noteq> []" by (simp add: ovn_table_def)
  show ?thesis
    unfolding QueryDatabase_def Let_def sch query_guard_ok guard_Inl_wrap r st cmd b validateOVNTableName_ok
      db_name_iff using tb by blast
qed

text \<open>Claim C30: \<^verbatim>\<open>must-gather-query-database\<close> succeeds exactly when the database is named by a plain file name with
  the suffix of a northbound or southbound database, the table name starts with a capital letter and has
  only letters, digits and underscores, every condition is JSON, the network logs directory and the
  database file exist, and ovsdb-tool answers the select built from the table, the conditions in
  their order and the columns; it returns that answer.\<close>

theorem mg_QueryDatabase_ok_iff:
  "mg_QueryDatabase \<lparr>mgs_omcClient = c, mgs_ovsdbTool = Some t\<rparr> ctx i w = ((r, None), w') \<longleftrightarrow>
     db_name (qd_DatabaseName i) \<and> ovn_table (qd_Table i) \<and>
     (\<exists>cs q nl w1 b w2. parse_conditions (ot_json t) (qd_Conditions i) = Inr cs \<and>
        json_Marshal (ot_json t) (select_query (db_schema (qd_DatabaseName i)) (qd_Table i) cs (qd_Columns i)) = Inr q \<and>
        getNetworkLogsDirectory (ot_os t) (qd_MustGatherPath i) w = (Inr nl, w1) \<and>
        mg_Stat (ot_os t) (JoinPath [nl, ''ovnk_database_store'', qd_DatabaseName i]) w1 = (Inr b, w2) \<and>
        mg_Command (ot_os t) ctx (ot_commandPath t)
          [''query'', JoinPath [nl, ''ovnk_database_store'', qd_DatabaseName i], q] w2 = ((Data r, None), w'))"
proof -
  have "mg_QueryDatabase \<lparr>mgs_omcClient = c, mgs_ovsdbTool = Some t\<rparr> ctx i w = ((r, None), w') \<longleftrightarrow>
      QueryDatabase t ctx (qd_MustGatherPath i) (qd_DatabaseName i) (qd_Table i) (qd_Conditions i) (qd_Columns i) w =
        (Inr (Data r), w')"
    by (auto simp: mg_QueryDatabase_def data_result_ok)
  then show ?thesis unfolding QueryDatabase_ok_iff ovnkDatabaseStore_def .
qed

lemma dbFiles_inj: "inj_on (map_of (foldl (add_dbFile nb) [] es)) (dom (map_of (foldl (add_dbFile nb) [] es)))"
  by (auto simp: inj_on_def dom_def dbFiles_map split: if_splits)

text \<open>Claim C19: the database listing is right. When a listing succeeds, the rows it encodes name each database file
  once; a file is listed with a node exactly when it is a plain file of the database directory named
  after a pod with the suffix asked for and the first scheduled pod of that name runs on that node.\<close>

theorem database_listing_correct:
  assumes "getDatabaseToNodeMapping t ctx path nb w = (Inr out, w')"
  shows "\<exists>p w1 entries w2 data pods infos.
    extractOvnDatabases (ot_os t) path w = (Inr p, w1) \<and> mg_ReadDir (ot_os t) p w1 = (Inr entries, w2) \<and>
    omc_ListResources (ot_omcClient t) ctx path ''pod'' [] ''app=ovnkube-node'' \<lparr>OutputType = ''json''\<rparr> w2 =
      (Inr data, w') \<and>
    json_PodList (ot_json t) data = Inr pods \<and> json_Marshal (ot_json t) (JArr (map dbInfo_json infos)) = Inr out \<and>
    distinct (map Database infos) \<and>
    (\<forall>f n. \<lparr>Database = f, Node = n\<rparr> \<in> set infos \<longleftrightarrow>
       (\<exists>pod. pod \<noteq> [] \<and> f = pod @ db_suffix nb \<and> (f, False) \<in> set entries \<and> node_of pods pod = Some n))"
proof -
  obtain p w1 entries w2 data pods where e:
    "extractOvnDatabases (ot_os t) path w = (Inr p, w1)" "mg_ReadDir (ot_os t) p w1 = (Inr entries, w2)"
    "omc_ListResources (ot_omcClient t) ctx path ''pod'' [] ''app=ovnkube-node'' \<lparr>OutputType = ''json''\<rparr> w2 =
      (Inr data, w')"
    "json_PodList (ot_json t) data = Inr pods"
    "json_Marshal (ot_json t) (JArr (map dbInfo_json (node_loop pods (foldl (add_dbFile nb) [] entries)))) = Inr out"
    using assms
    by (auto simp: getDatabaseToNodeMapping_def listOvnDatabases_def ovnkubeNodeLabelSelector_def
        JSONOutputType_def split: prod.splits sum.splits if_splits)
  let ?files = "foldl (add_dbFile nb) [] entries"
  have "\<lparr>Database = f, Node = n\<rparr> \<in> set (node_loop pods ?files) \<longleftrightarrow>
      (\<exists>pod. pod \<noteq> [] \<and> f = pod @ db_suffix nb \<and> (f, False) \<in> set entries \<and> node_of pods pod = Some n)" for f n
    unfolding node_loop_set dbFiles_map by auto
  then show ?thesis using e node_loop_distinct [OF dbFiles_inj] by blast
qed

definition whole_archive :: "tar_item list" where
  "whole_archive = [demo_entry TypeReg ''ovnk_database_store/a_nbdb'', demo_entry TypeReg ''ovnk_database_store/b_nbdb'']"

theorem database_listing_correct_witness:
  "\<exists>p w1 entries w2 data pods infos w'.
    extractOvnDatabases (ot_os (demo_tool whole_archive)) ''/mg'' demo_fs = (Inr p, w1) \<and>
    mg_ReadDir (ot_os (demo_tool whole_archive)) p w1 = (Inr entries, w2) \<and>
    omc_ListResources (ot_omcClient (demo_tool whole_archive)) context_Background ''/mg'' ''pod'' []
      ''app=ovnkube-node'' \<lparr>OutputType = ''json''\<rparr> w2 = (Inr data, w') \<and>
    json_PodList demo_json data = Inr pods \<and> json_Marshal demo_json (JArr (map dbInfo_json infos)) = Inr ''json'' \<and>
    distinct (map Database infos) \<and>
    (\<forall>f n. \<lparr>Database = f, Node = n\<rparr> \<in> set infos \<longleftrightarrow>
       (\<exists>pod. pod \<noteq> [] \<and> f = pod @ db_suffix True \<and> (f, False) \<in> set entries \<and> node_of pods pod = Some n))"
proof -
  let ?x = "getDatabaseToNodeMapping (demo_tool whole_archive) context_Background ''/mg'' True demo_fs"
  have "fst ?x = Inr ''json''" by code_simp
  then have "?x = (Inr ''json'', snd ?x)" by (simp add: prod_eq_iff)
  from database_listing_correct [OF this] show ?thesis unfolding demo_tool_def by auto
qed

end
