(* ===== verification/Descriptions.thy ===== *)
theory Descriptions
  imports Ovs Ovn Kernel NetworkTools SosReport MustGather
begin

text \<open>
  The descriptions of the tools, as the \<^verbatim>\<open>AddTools\<close> functions give them to the SDK: a raw string literal, or
  a raw format with the integers that replace its verbs. A literal is the list of its lines.
\<close>

section \<open>Literals\<close>

definition doc :: "strs \<Rightarrow> string" where
  "doc ls = Join ls [newline]"

definition tabs :: "nat \<Rightarrow> string" where
  "tabs n = replicate n (CHR 0x09)"

datatype desc =
    Raw string
  | Sprintf string "int list"

text \<open>\<^verbatim>\<open>fmt.Sprintf\<close> of a format whose only verbs are \<^verbatim>\<open>%d\<close>, one for each argument.\<close>

fun sprint_ints :: "string \<Rightarrow> int list \<Rightarrow> string" where
  "sprint_ints (c # d # s) (i # is) =
     (if c = CHR ''%'' \<and> d = CHR ''d'' then Itoa i @ sprint_ints s is else c # sprint_ints (d # s) (i # is))"
| "sprint_ints s is = s"

primrec desc_value :: "desc \<Rightarrow> string" where
  "desc_value (Raw s) = s"
| "desc_value (Sprintf f is) = sprint_ints f is"

text \<open>\<^verbatim>\<open>int(timeout.MaxTimeout.Seconds())\<close>: the maximum is a whole number of seconds.\<close>

definition MaxTimeout_seconds :: int where
  "MaxTimeout_seconds = sint MaxTimeout div 1000000000"

section \<open>\<^verbatim>\<open>pkg/kubernetes/mcp/mcp.go\<close>\<close>

definition pod_logs_desc :: desc where
  "pod_logs_desc = Sprintf
      (doc [''Get container logs from a pod in the Kubernetes cluster.'',
       [],
       ''Retrieves logs from a running or terminated pod. Supports filtering by pattern,'',
       ''limiting output with head/tail, and retrieving logs from previous container instances.'',
       [],
       ''Parameters:'',
       ''- name (required): Name of the pod'',
       ''- namespace (optional): Namespace of the pod (defaults to \"default\")'',
       ''- container (optional): Specific container name (required for multi-container pods)'',
       ''- previous (optional): If true, get logs from previous container instance (useful for crash analysis)'',
       ''- pattern (optional): Regex pattern to filter log lines (grep-style filtering)'',
       ''- head (optional): Return only first N lines. Default: %d lines if tail is not specified'',
       ''- tail (optional): Return only last N lines'',
       ''- apply_tail_first (optional): If both head and tail are set and apply_tail_first is true,'',
       ''apply tail before head. Default: false'',
       [],
       ''Returns log lines as an array. If neither head nor tail is specified, returns the first %d lines'',
       ''by default. If either of those are set, only the one that is set will be applied. If both are set,'',
       ''apply_tail_first will be used to determine the order. Use pattern matching to search for specific'',
       ''errors, warnings, or events in the logs.'',
       [],
       ''Examples:'',
       ''- Get pod logs (defaults to first %d lines): {\"name\": \"my-pod\", \"namespace\": \"default\"}'',
       ''- Get specific container logs (defaults to first %d lines): {\"name\": \"my-pod\", \"namespace\": \"default\", \"container\": \"my-container\"}'',
       ''- Get previous container logs (defaults to first %d lines): {\"name\": \"my-pod\", \"namespace\": \"default\", \"previous\": true}'',
       ''- Search for errors (defaults to first %d lines): {\"name\": \"my-pod\", \"namespace\": \"default\", \"pattern\": \"error|Error|ERROR\"}'',
       ''- Get last 50 lines: {\"name\": \"my-pod\", \"namespace\": \"default\", \"tail\": 50}'',
       ''- Get first 100 lines: {\"name\": \"my-pod\", \"namespace\": \"default\", \"head\": 100}'',
       ''- Get first 50 lines of the last 100 lines: {\"name\": \"my-pod\", \"namespace\": \"default\", \"head\": 50, \"tail\": 100, \"apply_tail_first\": true}'',
       ''- Get last 50 lines of the first 100 lines: {\"name\": \"my-pod\", \"namespace\": \"default\", \"head\": 100, \"tail\": 50, \"apply_tail_first\": false}''])
      [kube_defaultMaxLines, kube_defaultMaxLines, kube_defaultMaxLines, kube_defaultMaxLines, kube_defaultMaxLines, kube_defaultMaxLines]"

definition resource_get_desc :: desc where
  "resource_get_desc = Raw
      (doc [''Get a specific Kubernetes resource by name.'',
       [],
       ''Retrieves a single resource from the cluster using its group, version, kind, and name.'',
       ''Supports different output formats for viewing the resource data.'',
       [],
       ''Parameters:'',
       ''- group (optional): API group of the resource (e.g., \"apps\", \"networking.k8s.io\"). Empty for core resources'',
       ''- version (required): API version of the resource (e.g., \"v1\", \"v1beta1\")'',
       ''- kind (required): Kind of the resource (e.g., \"Pod\", \"Service\", \"Deployment\", \"ConfigMap\")'',
       ''- name (required): Name of the resource to retrieve'',
       ''- namespace (optional): Namespace of the resource. If omitted, defaults to \"default\" for namespaced resources and empty for cluster-scoped resources'',
       ''- output_type (optional): Output format - 'yaml', 'json', 'jsonpath', or 'wide' (default: table format with name, namespace, age. wide will include labels and annotations)'',
       [],
       ''Returns the resource definition in the requested format. Use this to inspect specific'',
       ''resource configurations, status, and metadata.'',
       [],
       ''Examples:'',
       ''- Get a pod (defaults to \"default\" namespace): {\"version\": \"v1\", \"kind\": \"Pod\", \"name\": \"my-pod\"}'',
       ''- Get a deployment as YAML: {\"group\": \"apps\", \"version\": \"v1\", \"kind\": \"Deployment\", \"name\": \"my-deployment\", \"namespace\": \"default\", \"output_type\": \"yaml\"}'',
       ''- Get a node (cluster-scoped): {\"version\": \"v1\", \"kind\": \"Node\", \"name\": \"worker-0\"}'',
       ''- Get a config map as JSON: {\"version\": \"v1\", \"kind\": \"ConfigMap\", \"name\": \"my-config\", \"namespace\": \"kube-system\", \"output_type\": \"json\"}'',
       ''- Get a pod name as JSONPath: {\"version\": \"v1\", \"kind\": \"Pod\", \"name\": \"my-pod\", \"namespace\": \"default\", \"output_type\": \"jsonpath='{.metadata.name}'\"}'',
       ''- Get detailed info: {\"version\": \"v1\", \"kind\": \"Pod\", \"name\": \"my-pod\", \"namespace\": \"default\", \"output_type\": \"wide\"}''])"

definition resource_list_desc :: desc where
  "resource_list_desc = Raw
      (doc [''List Kubernetes resources of a specific kind.'',
       [],
       ''Lists resources in a namespace or across all namespaces. Supports filtering by'',
       ''label selector and different output formats.'',
       [],
       ''Parameters:'',
       ''- group (optional): API group of the resource (e.g., \"apps\", \"networking.k8s.io\"). Empty for core resources'',
       ''- version (required): API version of the resource (e.g., \"v1\", \"v1beta1\")'',
       ''- kind (required): Kind of the resource (e.g., \"Pod\", \"Service\", \"Deployment\")'',
       ''- namespace (optional): Filter by namespace. If omitted, lists resources across all namespaces'',
       ''- label_selector (optional): Filter by label selector (e.g., \"app=my-app\", \"component=network\")'',
       ''- output_type (optional): Output format - 'yaml', 'json', 'jsonpath', or 'wide' (default: table format with name, namespace, age. wide will include labels and annotations)'',
       [],
       ''Returns a list of matching resources. Use this to discover what resources exist in the'',
       ''cluster before retrieving specific ones with resource-get.'',
       [],
       ''Examples:'',
       ''- List all pods in a namespace: {\"version\": \"v1\", \"kind\": \"Pod\", \"namespace\": \"default\"}'',
       ''- List all services across namespaces: {\"version\": \"v1\", \"kind\": \"Service\"}'',
       ''- List pods by label: {\"version\": \"v1\", \"kind\": \"Pod\", \"namespace\": \"default\", \"label_selector\": \"app=my-app\"}'',
       ''- List deployments as YAML: {\"group\": \"apps\", \"version\": \"v1\", \"kind\": \"Deployment\", \"namespace\": \"default\", \"output_type\": \"yaml\"}'',
       ''- List all nodes: {\"version\": \"v1\", \"kind\": \"Node\"}'',
       ''- List with detailed info: {\"version\": \"v1\", \"kind\": \"Pod\", \"namespace\": \"kube-system\", \"output_type\": \"wide\"}'',
       ''- List pod names as JSONPath: {\"version\": \"v1\", \"kind\": \"Pod\", \"namespace\": \"default\", \"output_type\": \"jsonpath='{.items[*].metadata.name}'\"}''])"


section \<open>\<^verbatim>\<open>pkg/ovn/mcp/mcp.go\<close>\<close>

definition ovn_show_desc :: desc where
  "ovn_show_desc = Sprintf
      (doc [''Display a comprehensive overview of OVN configuration from either the Northbound or Southbound database.'',
       [],
       ''For Northbound (nbdb): Runs 'ovn-nbctl show' and displays logical switches, logical routers, '',
       ''their ports, and connections between them.'',
       [],
       ''For Southbound (sbdb): Runs 'ovn-sbctl show' and displays chassis information, port bindings,'',
       ''and their relationships.'',
       [],
       ''Parameters:'',
       ''- namespace: Kubernetes namespace of the OVN pod (e.g., \"ovn-kubernetes\")'',
       ''- name: Name of the pod running OVN (e.g., \"ovnkube-node-xxxxx\")'',
       ''- database: OVN database to query - \"nbdb\" for Northbound or \"sbdb\" for Southbound'',
       ''- head (optional): Return only first N lines. Default: %d lines if tail is not specified'',
       ''- tail (optional): Return only last N lines'',
       ''- apply_tail_first (optional): If both head and tail are set and apply_tail_first is true,'',
       ''apply tail before head. Default: false'',
       [],
       ''Example output for nbdb:'',
       ''{'',
       ''  \"database\": \"nbdb\",'',
       ''  \"output\": \"switch 1234-5678 (node1)'' @ [CHR 0x5C] @ ''n    port node1-k8s'' @ [CHR 0x5C] @ ''n        addresses: ['' @ [CHR 0x5C] @ ''\"00:00:00:00:00:01'' @ [CHR 0x5C] @ ''\"]'' @ [CHR 0x5C] @ ''n...\"'',
       ''}''])
      [ovn_DefaultMaxLines]"

definition ovn_get_desc :: desc where
  "ovn_get_desc = Sprintf
      (doc [''Query records from an OVN database table with flexible filtering.'',
       [],
       ''This is a versatile command that can:'',
       ''1. List all records in a table (when no record specified)'',
       ''2. Get a specific record (when record specified)'',
       [],
       ''Common Northbound tables: Logical_Switch, Logical_Router, Logical_Switch_Port, '',
       ''Logical_Router_Port, ACL, Address_Set, Port_Group, Load_Balancer, NAT'',
       [],
       ''Common Southbound tables: Chassis, Port_Binding, Datapath_Binding, Logical_Flow,'',
       ''MAC_Binding, Multicast_Group, SB_Global'',
       [],
       ''Parameters:'',
       ''- namespace: Kubernetes namespace of the OVN pod'',
       ''- name: Name of the pod running OVN'',
       ''- database: OVN database to query - \"nbdb\" for Northbound or \"sbdb\" for Southbound'',
       ''- table: Name of the table (e.g., \"Logical_Switch\", \"Port_Binding\")'',
       ''- record (optional): Record identifier (UUID or name). If not specified, lists all records'',
       ''- columns (optional): Comma-separated list of columns to display (e.g., \"name,_uuid,ports\")'',
       ''- pattern (optional): Regex pattern to filter results. Only applies when listing all records.'',
       ''- head (optional): Return only first N lines. Default: %d lines if tail is not specified'',
       ''- tail (optional): Return only last N lines'',
       ''- apply_tail_first (optional): If both head and tail are set and apply_tail_first is true,'',
       ''apply tail before head. Default: false'',
       [],
       ''Example listing all records:'',
       ''{'',
       ''  \"database\": \"nbdb\",'',
       ''  \"table\": \"Port_Group\",'',
       ''  \"output\": \"_uuid: 1234-5678'' @ [CHR 0x5C] @ ''nname: '' @ [CHR 0x5C] @ ''\"pg_default'' @ [CHR 0x5C] @ ''\"'' @ [CHR 0x5C] @ ''nports: [...]'' @ [CHR 0x5C] @ ''n'' @ [CHR 0x5C] @ ''n_uuid: abcd-efgh'' @ [CHR 0x5C] @ ''n...\"'',
       ''}'',
       [],
       ''Example getting a specific record:'',
       ''{'',
       ''  \"database\": \"nbdb\",'',
       ''  \"table\": \"Logical_Router\",'',
       ''  \"record\": \"ovn_cluster_router\",'',
       ''  \"output\": \"_uuid: 4c4a0a35-348c-41cc-8417-53a618e0c383'' @ [CHR 0x5C] @ ''nname: ovn_cluster_router'' @ [CHR 0x5C] @ ''nports: [...]\"'',
       ''}'',
       [],
       ''Example getting specific columns:'',
       ''{'',
       ''  \"database\": \"nbdb\",'',
       ''  \"table\": \"Logical_Switch\",'',
       ''  \"columns\": \"name,ports\",'',
       ''  \"output\": \"name: ovn-worker'' @ [CHR 0x5C] @ ''nports: [uuid1, uuid2]'' @ [CHR 0x5C] @ ''n'' @ [CHR 0x5C] @ ''nname: join'' @ [CHR 0x5C] @ ''nports: [uuid3]\"'',
       ''}''])
      [ovn_DefaultMaxLines]"

definition ovn_lflow_list_desc :: desc where
  "ovn_lflow_list_desc = Sprintf
      (doc [''List logical flows from the OVN Southbound database.'',
       [],
       ''Runs 'ovn-sbctl lflow-list' to retrieve logical flows which represent the compiled '',
       ''logical network pipeline. This is essential for debugging packet forwarding.'',
       [],
       ''Parameters:'',
       ''- namespace: Kubernetes namespace of the OVN pod'',
       ''- name: Name of the pod running OVN'',
       ''- datapath (optional): Datapath name or UUID to filter flows for a specific logical switch/router'',
       ''- pattern (optional): Regex pattern to filter flows'',
       ''- head (optional): Return only first N lines. Default: %d lines if tail is not specified'',
       ''- tail (optional): Return only last N lines'',
       ''- apply_tail_first (optional): If both head and tail are set and apply_tail_first is true,'',
       ''apply tail before head. Default: false'',
       [],
       ''Example output:'',
       ''{'',
       ''  \"datapath\": \"node1\",'',
       ''  \"flows\": ['',
       ''    \"table=0 (ls_in_port_sec_l2), priority=100, match=(inport == '' @ [CHR 0x5C] @ ''\"pod1'' @ [CHR 0x5C] @ ''\"), action=(next;)\",'',
       ''    \"table=1 (ls_in_port_sec_ip), priority=90, match=(ip4), action=(next;)\"'',
       ''  ]'',
       ''}''])
      [ovn_DefaultMaxLines]"

definition ovn_trace_desc :: desc where
  "ovn_trace_desc = Sprintf
      (doc [''Trace a packet through the OVN logical network.'',
       [],
       ''Runs 'ovn-trace' to simulate packet processing through the logical network pipeline.'',
       ''This shows which logical flows match, what actions are taken, and the final disposition.'',
       [],
       ''The trace is essential for debugging connectivity issues and understanding how traffic'',
       ''flows through the OVN logical network.'',
       [],
       ''Parameters:'',
       ''- namespace: Kubernetes namespace of the OVN pod'',
       ''- name: Name of the pod running OVN'',
       ''- datapath: Name of the logical switch or router to start the trace'',
       ''- microflow: Microflow specification describing the packet (e.g., \"inport=='' @ [CHR 0x5C] @ ''\"pod1'' @ [CHR 0x5C] @ ''\" && eth.src==00:00:00:00:00:01 && ip4.src==10.244.0.5 && ip4.dst==10.244.1.5\")'',
       ''- mode (optional): Output verbosity mode - \"detailed\" (default), \"summary\", or \"minimal\"'',
       ''- pattern (optional): Regex pattern to filter trace output'',
       ''- head (optional): Return only first N lines. Default: %d lines if tail is not specified'',
       ''- tail (optional): Return only last N lines'',
       ''- apply_tail_first (optional): If both head and tail are set and apply_tail_first is true,'',
       ''apply tail before head. Default: false'',
       [],
       ''Microflow specification examples:'',
       ''- inport==\"pod1\" && eth.src==00:00:00:00:00:01 && ip4.src==10.244.0.5 && ip4.dst==10.244.1.5'',
       ''- inport==\"pod1\" && eth.src==00:00:00:00:00:01 && icmp && ip4.src==10.244.0.5 && ip4.dst==8.8.8.8'',
       [],
       ''Example output:'',
       ''{'',
       ''  \"datapath\": \"node1\",'',
       ''  \"microflow\": \"inport=='' @ [CHR 0x5C] @ ''\"pod1'' @ [CHR 0x5C] @ ''\" && ...\",'',
       ''  \"output\": \"ingress(dp='' @ [CHR 0x5C] @ ''\"node1'' @ [CHR 0x5C] @ ''\", inport='' @ [CHR 0x5C] @ ''\"pod1'' @ [CHR 0x5C] @ ''\")'' @ [CHR 0x5C] @ ''n  0. ls_in_port_sec_l2: inport == '' @ [CHR 0x5C] @ ''\"pod1'' @ [CHR 0x5C] @ ''\", priority 50, uuid 1234'' @ [CHR 0x5C] @ ''n     next;'' @ [CHR 0x5C] @ ''n...\"'',
       ''}''])
      [ovn_DefaultMaxLines]"


section \<open>\<^verbatim>\<open>pkg/ovs/mcp/mcp.go\<close>\<close>

definition ovs_vsctl_desc :: desc where
  "ovs_vsctl_desc = Sprintf
      (doc [''ovs-vsctl allows to run an ovs-vsctl command against an ovnkube-node pod to inspect the OVS switch configuration.'',
       ''Parameters:'',
       ''- namespace (required): Kubernetes namespace of the OVS pod'',
       ''- name (required): Name of the pod running OVS'',
       ''- action (required): The ovs-vsctl subcommand to run.'',
       ''                     show         : Display a comprehensive overview of OVS configuration in a hierarchical format (bridges, ports, interfaces, controllers).'',
       ''                     list-br      : List all OVS bridges on the pod.'',
       ''                     list-ports   : List all ports on a specific OVS bridge (requires bridge).'',
       ''                     list-ifaces  : List all interfaces on a specific OVS bridge (requires bridge).'',
       ''- bridge (required for \"list-ports\" and \"list-ifaces\"): Name of the OVS bridge (e.g., \"br-int\")'',
       ''- head (optional, only used when action is \"show\"): Return only first N lines. Default: %d lines if tail is not specified'',
       ''- tail (optional, only used when action is \"show\"): Return only last N lines'',
       ''- apply_tail_first (optional, only used when action is \"show\"): If both head and tail are set and apply_tail_first is true, apply tail before head. Default: false'',
       [],
       ''Example:'',
       ''- namespace='ovn-kubernetes', name='ovnkube-node-xxxxx', action='show'' @ [CHR 0x27],
       ''- namespace='ovn-kubernetes', name='ovnkube-node-xxxxx', action='list-br'' @ [CHR 0x27],
       ''- namespace='ovn-kubernetes', name='ovnkube-node-xxxxx', action='list-ports', bridge='br-int'' @ [CHR 0x27],
       ''- namespace='ovn-kubernetes', name='ovnkube-node-xxxxx', action='list-ifaces', bridge='br-int'' @ [CHR 0x27],
       [],
       ''Example output (action='show'):'',
       ''{'',
       ''  \"output\": \"a1b2c3d4-5678-90ab-cdef-1234567890ab'' @ [CHR 0x5C] @ ''n    Bridge br-int'' @ [CHR 0x5C] @ ''n        Port ovn-k8s-mp0'' @ [CHR 0x5C] @ ''n            Interface ovn-k8s-mp0'' @ [CHR 0x5C] @ ''n                type: internal'' @ [CHR 0x5C] @ ''n    ovs_version: '' @ [CHR 0x5C] @ ''\"2.17.0'' @ [CHR 0x5C] @ ''\"\"'',
       ''}'',
       [],
       ''Example output (action='list-br'):'',
       ''{'',
       ''  \"bridges\": [\"br-int\", \"br-ex\", \"br-local\"]'',
       ''}'',
       [],
       ''Example output (action='list-ports'):'',
       ''{'',
       ''  \"ports\": [\"patch-br-int-to-br-ex\", \"veth1234\", \"ovn-k8s-mp0\"]'',
       ''}'',
       [],
       ''Example output (action='list-ifaces'):'',
       ''{'',
       ''  \"interfaces\": [\"patch-br-int-to-br-ex\", \"veth1234\", \"ovn-k8s-mp0\"]'',
       ''}'',
       []])
      [ovs_DefaultMaxLines]"

definition ovs_ofctl_desc :: desc where
  "ovs_ofctl_desc = Sprintf
      (doc [''ovs-ofctl allows to run an ovs-ofctl command against an ovnkube-node pod to inspect the OpenFlow state of an OVS bridge.'',
       ''Parameters:'',
       ''- namespace (required): Kubernetes namespace of the OVS pod'',
       ''- name (required): Name of the pod running OVS'',
       ''- action (required): The ovs-ofctl subcommand to run.'',
       ''                     dump-flows : Dump the OpenFlow flow entries programmed on the specified bridge.'',
       ''- bridge (required): Name of the OVS bridge (e.g., \"br-int\")'',
       ''- pattern (optional): Regex pattern to filter output lines'',
       ''- head (optional): Return only first N lines. Default: %d lines if tail is not specified'',
       ''- tail (optional): Return only last N lines'',
       ''- apply_tail_first (optional): If both head and tail are set and apply_tail_first is true, apply tail before head. Default: false'',
       [],
       ''Example:'',
       ''- namespace='ovn-kubernetes', name='ovnkube-node-xxxxx', action='dump-flows', bridge='br-int'' @ [CHR 0x27],
       [],
       ''Example output:'',
       ''{'',
       ''  \"bridge\": \"br-int\",'',
       ''  \"flows\": ['',
       ''    \"cookie=0x0, duration=123.456s, table=0, n_packets=100, n_bytes=10000, priority=100,in_port=1 actions=output:2\",'',
       ''    \"cookie=0x0, duration=123.456s, table=0, n_packets=50, n_bytes=5000, priority=90,in_port=2 actions=output:1\"'',
       ''  ]'',
       ''}'',
       []])
      [ovs_DefaultMaxLines]"

definition ovs_appctl_desc :: desc where
  "ovs_appctl_desc = Sprintf
      (doc [''ovs-appctl allows to run an ovs-appctl command against an ovnkube-node pod to interact with the OVS daemons for datapath and OpenFlow debugging.'',
       ''Parameters:'',
       ''- namespace (required): Kubernetes namespace of the OVS pod'',
       ''- name (required): Name of the pod running OVS'',
       ''- action (required): The ovs-appctl subcommand to run.'',
       ''                     dpctl/dump-conntrack : Dump connection tracking entries from the OVS datapath.'',
       ''                     ofproto/trace        : Simulate packet processing through the OpenFlow pipeline (requires bridge and flow).'',
       ''- bridge (required for \"ofproto/trace\"): Name of the OVS bridge (e.g., \"br-int\")'',
       ''- flow (required for \"ofproto/trace\"): Flow specification describing the packet to trace (e.g., \"in_port=1,ip,nw_src=10.244.0.5,nw_dst=10.96.0.1\")'',
       ''- additional_params (optional, only used when action is \"dpctl/dump-conntrack\"): Additional CLI arguments to pass to dpctl/dump-conntrack (e.g., [\"zone=5\"])'',
       ''- pattern (optional): Regex pattern to filter output lines'',
       ''- head (optional): Return only first N lines. Default: %d lines if tail is not specified'',
       ''- tail (optional): Return only last N lines'',
       ''- apply_tail_first (optional): If both head and tail are set and apply_tail_first is true, apply tail before head. Default: false'',
       [],
       ''Example:'',
       ''- namespace='ovn-kubernetes', name='ovnkube-node-xxxxx', action='dpctl/dump-conntrack'' @ [CHR 0x27],
       ''- namespace='ovn-kubernetes', name='ovnkube-node-xxxxx', action='ofproto/trace', bridge='br-int', flow='in_port=1,ip,nw_src=10.244.0.5,nw_dst=10.96.0.1'' @ [CHR 0x27],
       [],
       ''Example output (action='dpctl/dump-conntrack'):'',
       ''{'',
       ''  \"entries\": ['',
       ''    \"tcp,orig=(src=10.244.0.5,dst=10.96.0.1,sport=45678,dport=443),reply=(src=10.96.0.1,dst=10.244.0.5,sport=443,dport=45678)\"'',
       ''  ]'',
       ''}'',
       [],
       ''Example output (action='ofproto/trace'):'',
       ''{'',
       ''  \"bridge\": \"br-int\",'',
       ''  \"flow\": \"in_port=1,ip,nw_src=10.244.0.5,nw_dst=10.96.0.1\",'',
       ''  \"output\": \"Flow: ip,in_port=1,nw_src=10.244.0.5,nw_dst=10.96.0.1'' @ [CHR 0x5C] @ ''n'' @ [CHR 0x5C] @ ''nbridge('' @ [CHR 0x5C] @ ''\"br-int'' @ [CHR 0x5C] @ ''\")'' @ [CHR 0x5C] @ ''n...'' @ [CHR 0x5C] @ ''nFinal flow: ...'' @ [CHR 0x5C] @ ''nDatapath actions: ...\"'',
       ''}'',
       []])
      [ovs_DefaultMaxLines]"


section \<open>\<^verbatim>\<open>pkg/kernel/mcp/mcp.go\<close>\<close>

definition get_conntrack_desc :: desc where
  "get_conntrack_desc = Sprintf
      (doc [''get-conntrack allows to interact with the connection tracking system of a Kubernetes node.'',
       tabs 3 @ ''              Use this command to discover a list of all (or a filtered selection of) currently tracked connections.'',
       ''Parameters:'',
       ''- node (required): Name of the node from where conntrack entries are expected to be extracted'',
       ''- namespace (optional): Namespace of the debug pod from where conntrack entries are expected to be extracted. Default: 'default'' @ [CHR 0x27],
       ''- command (optional): These options specify the particular operation to perform. These options can only be used if configured image has 'conntrack' utility available. If omitted or empty, defaults to -L. '',
       tabs 5 @ ''  -L, --dump : List connection tracking table.'',
       tabs 5 @ ''  -C, --count: Show the table counter.'',
       tabs 5 @ ''  -S, --stats: Show the in-kernel connection tracking system statistics.'',
       ''- filter_parameters (optional): These parameters are useful to filter certain entries from the whole table:'',
       ''                        -s, --src, --orig-src IP_ADDRESS : Match only entries whose source address in the original direction equals to mentioned IP.'',
       tabs 6 @ ''-d, --dst, --orig-dst IP_ADDRESS : Match only entries whose destination address in the original direction equals to mentioned IP.'',
       tabs 6 @ ''-p, --proto PROTO                : Specify layer four (TCP, UDP, ...) protocol.'',
       tabs 6 @ ''--sport, --orig-port-src PORT    : Source port in original direction.'',
       tabs 6 @ ''--dport, --orig-port-dst PORT    : Destination port in original direction.'',
       ''- head (optional): Return only first N lines. Default: %d lines if tail is not specified'',
       ''- tail (optional): Return only last N lines'',
       ''- apply_tail_first (optional): If both head and tail are set and apply_tail_first is true,'',
       ''apply tail before head. Default: false'',
       ''- timeout_seconds (optional): Timeout in seconds for the command execution. If not specified, server default timeout is used. The maximum value is %d seconds.'',
       [],
       ''Example:'',
       ''- node='ovn-control-plane', command='-L'' @ [CHR 0x27],
       ''- node='ovn-worker', namespace='ovn-kubernetes', command='-L'' @ [CHR 0x27],
       ''- node='ovn-worker', filter_parameters='-s 1.2.3.4 -d 5.6.7.8 -p tcp --sport 32000 --dport 10250'' @ [CHR 0x27],
       [],
       ''Example output:'',
       ''tcp 6 91 ESTABLISHED src=1.2.3.4 dst=5.6.7.8 sport=32000 dport=10250 src=5.6.7.8 dst=1.2.3.4  sport=10250 dport=32000 [ASSURED] mark=0 secctx=system_u:object_r:unlabeled_t:s0 use=2'',
       []])
      [DefaultMaxOutputLines, MaxTimeout_seconds]"

definition get_iptables_desc :: desc where
  "get_iptables_desc = Sprintf
      (doc [''get-iptables allows to interact with kernel to list packet filter rules.'',
       tabs 3 @ ''              Iptables and ip6tables are used to inspect the tables of IPv4 and IPv6 packet filter rules in the Linux kernel.'',
       ''Parameters:'',
       ''- node (required): Name of the node from where packet filter rules are expected to be extracted'',
       ''- namespace (optional): Namespace of the debug pod from where packet filter rules are expected to be extracted. Default: 'default'' @ [CHR 0x27],
       ''- table (optional): There are currently five independent tables (which tables are present at any time depends on the kernel configuration options and which modules are present).'',
       ''                    filter'' @ tabs 1 @ '': This is the default table'',
       tabs 5 @ ''nat   '' @ tabs 1 @ '': This  table is consulted when a packet that creates a new connection is encountered.'',
       tabs 5 @ ''mangle'' @ tabs 1 @ '': This table is used for specialized packet alteration.'',
       tabs 5 @ ''raw   '' @ tabs 1 @ '': This table is used mainly for configuring exemptions from connection tracking in combination with the NOTRACK target.'',
       tabs 5 @ ''security: This table is used for Mandatory Access Control (MAC) networking rules.'',
       ''- command (optional): These options specify the desired action to perform. Only one of them can be specified on the command line unless otherwise stated below. If omitted or empty, defaults to -L.'',
       tabs 5 @ ''  -L, --list [chain]       : List all rules in the selected chain. If no chain is selected, all chains are listed.'',
       tabs 5 @ ''  -S, --list-rules [chain] : Print all rules in the selected chain. If no chain is selected, all chains are printed like iptables-save.'',
       ''- filter_parameters (optional): These parameters are useful to filter certain entries from the whole table:'',
       ''                                -s, --source address[/mask]      : Source specification. Address can be either a network name, a hostname, a network IP address (with /mask), or a  plain  IP  address.'',
       tabs 8 @ ''-d, --destination address[/mask] : Destination  specification.'',
       tabs 8 @ ''-v, --verbose'' @ tabs 5 @ '' : Verbose output.'',
       tabs 8 @ ''-n, --numeric                    : Numeric  output.   IP  addresses  and port numbers will be printed in numeric format.'',
       tabs 8 @ ''-p, --protocol protocol          : The protocol of the rule or of the packet to check.'',
       tabs 8 @ ''-4, --ipv4                       : IPv4'',
       tabs 8 @ ''-6, --ipv6                       : IPv6'',
       ''- head (optional): Return only first N lines. Default: %d lines if tail is not specified'',
       ''- tail (optional): Return only last N lines'',
       ''- apply_tail_first (optional): If both head and tail are set and apply_tail_first is true,'',
       ''apply tail before head. Default: false'',
       ''- timeout_seconds (optional): Timeout in seconds for the command execution. If not specified, server default timeout is used. The maximum value is %d seconds.'',
       tabs 7,
       ''Example:'',
       ''- node='ovn-control-plane', table='nat', filter_parameters='-nv4'' @ [CHR 0x27],
       ''- node='ovn-control-plane', table='nat', command='-L'' @ [CHR 0x27],
       ''Example output:'',
       ''Chain POSTROUTING (policy ACCEPT 675K packets, 41M bytes)'',
       '' pkts bytes target     prot opt in     out     source               destination         '',
       '' 675K   41M OVN-KUBE-EGRESS-IP-MULTI-NIC  all  --  *      *       0.0.0.0/0            0.0.0.0/0     '' @ tabs 7,
       []])
      [DefaultMaxOutputLines, MaxTimeout_seconds]"

definition get_nft_desc :: desc where
  "get_nft_desc = Sprintf
      (doc [''get-nft allows to interact with kernel to list packet filtering and classification rules.'',
       ''Parameters:'',
       ''- node (required): Name of the node from where packet filtering and classification rules are expected to be extracted'',
       ''- namespace (optional): Namespace of the debug pod from where packet filtering and classification rules are expected to be extracted. Default: 'default'' @ [CHR 0x27],
       ''- command (required): These options specify the desired action to perform. Only one of them can be specified on the command line unless otherwise stated below.'',
       ''                    - list ruleset   : The ruleset keyword is used to identify the whole set of tables, chains, etc. Print the ruleset in human-readable format.'',
       tabs 5 @ ''- list tables    : List all chains and rules of the specified table.'',
       tabs 5 @ ''- list chains    : List all rules of the specified chain.'',
       tabs 5 @ ''- list sets      : Display the elements in the specified set.'',
       tabs 5 @ ''- list maps      : Display the elements in the specified map.'',
       tabs 5 @ ''- list flowtables: List all flowtables.'',
       ''- address_families (optional): Address families determine the type of packets which are processed. For each address family, the kernel contains so-called hooks at specific stages of'',
       ''       '' @ tabs 6 @ ''   the packet processing paths, which invoke nftables if rules for these hooks exist.'',
       tabs 7 @ ''   - ip       IPv4 address family.'',
       ''                               - ip6      IPv6 address family.'',
       ''                               - inet     Internet (IPv4/IPv6) address family.'',
       ''                               - arp      ARP address family, handling IPv4 ARP packets.'',
       ''                               - bridge   Bridge address family, handling packets which traverse a bridge device.'',
       ''                               - netdev   Netdev address family, handling packets on ingress and egress.'',
       ''- head (optional): Return only first N lines. Default: %d lines if tail is not specified'',
       ''- tail (optional): Return only last N lines'',
       ''- apply_tail_first (optional): If both head and tail are set and apply_tail_first is true,'',
       ''apply tail before head. Default: false'',
       ''- timeout_seconds (optional): Timeout in seconds for the command execution. If not specified, server default timeout is used. The maximum value is %d seconds.'',
       tabs 5,
       ''Example:'',
       ''- node='ovn-control-plane', command='list tables', address_families='inet'' @ [CHR 0x27],
       ''Example output:'',
       ''table inet ovn-kubernetes'',
       []])
      [DefaultMaxOutputLines, MaxTimeout_seconds]"

definition get_ip_desc :: desc where
  "get_ip_desc = Sprintf
      (doc [''get-ip allows to interact with kernel to list routing, network devices, interfaces.'',
       ''Parameters:'',
       ''- node (required): Name of the node on which ip command is expected to be executed'',
       ''- namespace (optional): Namespace of the debug pod on which ip command is expected to be executed. Default: 'default'' @ [CHR 0x27],
       ''- options (optional): These options helps in providing more details or formatting output data.'',
       ''                      -d, -details        : Output more detailed information.'',
       tabs 5 @ ''  -4                  : shortcut for -family inet.'',
       tabs 5 @ ''  -6                  : shortcut for -family inet6.'',
       tabs 5 @ ''  -r, -resolve        : use the system's name resolver to print DNS names instead of host addresses.'',
       tabs 5 @ ''  -n, -netns <NETNS>  : switches ip to the specified network namespace NETNS.'',
       tabs 5 @ ''  -a, -all            : executes specified command over all objects, it depends if command supports this option.'',
       ''- command (required): These options specify the desired action to perform. Only one of them can be specified on the command line unless otherwise stated below.'',
       ''                      - address show     : protocol (IP or IPv6) address on a device.'',
       tabs 5 @ ''  - link show        : network device.'',
       tabs 5 @ ''  - neighbour show   : manage ARP or NDISC cache entries.'',
       tabs 5 @ ''  - netns show       : manage network namespaces.'',
       tabs 5 @ ''  - route show       : routing table entry.'',
       tabs 5 @ ''  - rule show        : rule in routing policy database.'',
       tabs 5 @ ''  - vrf show         : manage virtual routing and forwarding devices. '',
       tabs 5 @ ''  - xfrm state list  : show Security Association Database.'',
       tabs 5 @ ''  - xfrm policy list : show Security Policy Database.'',
       ''- filter_parameters (optional): This allows to mention sub command to get more filtered data. Available sub command varies and supportability depends on what is '',
       ''                          already supported with 'ip' utility.'',
       ''- head (optional): Return only first N lines. Default: %d lines if tail is not specified'',
       ''- tail (optional): Return only last N lines'',
       ''- apply_tail_first (optional): If both head and tail are set and apply_tail_first is true,'',
       ''apply tail before head. Default: false'',
       ''- timeout_seconds (optional): Timeout in seconds for the command execution. If not specified, server default timeout is used. The maximum value is %d seconds.'',
       [],
       ''Example:'',
       ''- node='ovn-control-plane', options=\"-4\", command='route show', filter_parameters='table all'' @ [CHR 0x27],
       ''Example output:'',
       ''default via 10.0.0.254 dev br-ex proto dhcp src 10.0.0.10 metric 48'',
       []])
      [DefaultMaxOutputLines, MaxTimeout_seconds]"


section \<open>\<^verbatim>\<open>pkg/network-tools/mcp/mcp.go\<close>\<close>

definition tcpdump_desc :: desc where
  "tcpdump_desc = Sprintf
      (doc [''Capture network packets on a node or inside a pod with strict safety controls.'',
       [],
       ''Supports both node-level and pod-level packet capture with BPF filtering.'',
       [],
       ''This tool creates a specialized debug pod on the specified node for node-level captures.'',
       [],
       ''Parameters:'',
       ''- target_type: 'node' or 'pod' (required)'',
       ''- name: Name of the target (node or pod) (required)'',
       ''- namespace: Namespace of the target (node or pod). Required when target_type is 'pod'. Optional when target_type is 'node' and defaults to 'default'.'',
       ''- container_name: Name of the container in the pod when target_type is 'pod' (optional, uses default container if not specified)'',
       ''- interface: Network interface name or 'any' (optional, uses default if not specified)'',
       ''- packet_count: Number of packets to capture (default: 100, max: 1000)'',
       ''- bpf_filter: BPF filter expression to match packets (optional, e.g., \"tcp and dst port 8080\", \"host 10.0.0.1\")'',
       ''- snaplen: Snapshot length in bytes (default: 96, max: 1500)'',
       ''- timeout_seconds (optional): Timeout in seconds for the command execution. If not specified, server default timeout is used. The maximum value is %d seconds.'',
       [],
       ''Examples:'',
       ''- Capture on node: {\"target_type\": \"node\", \"name\": \"worker-1\", \"interface\": \"eth0\", \"packet_count\": 100, \"bpf_filter\": \"tcp port 80\"}'',
       ''- Capture in pod: {\"target_type\": \"pod\", \"name\": \"my-pod\", \"namespace\": \"default\", \"interface\": \"eth0\", \"packet_count\": 100, \"bpf_filter\": \"host 10.0.0.1\"}'',
       ''- Capture DNS: {\"target_type\": \"node\", \"name\": \"worker-1\", \"interface\": \"any\", \"packet_count\": 50, \"bpf_filter\": \"port 53\"}''])
      [MaxTimeout_seconds]"

definition pwru_desc :: desc where
  "pwru_desc = Sprintf
      (doc [''Trace packets through the Linux kernel networking stack using eBPF.'',
       [],
       ''pwru (packet, where are you?) shows which kernel functions process a packet, helping debug packet'',
       ''drops, routing issues, and understanding the kernel's packet processing path.'',
       [],
       ''This tool creates a specialized debug pod on the specified node with necessary eBPF capabilities'',
       ''to trace packets through kernel networking functions.'',
       [],
       ''Parameters:'',
       ''- node_name: Name of the node to run pwru on (required)'',
       ''- node_pod_namespace (optional): Namespace of the debug pod on which the command is expected to be executed. Default: 'default'' @ [CHR 0x27],
       ''- bpf_filter: BPF filter expression to match packets (optional, e.g., \"tcp and dst port 8080\", \"host 10.0.0.1\")'',
       ''- output_limit_lines: Maximum number of trace events to capture (default: 100, max: 1000)'',
       ''- timeout_seconds (optional): Timeout in seconds for the command execution. If not specified, server default timeout is used. The maximum value is %d seconds.'',
       [],
       ''Examples:'',
       ''- Basic trace: {\"node_name\": \"worker-1\", \"bpf_filter\": \"host 10.244.0.5\", \"output_limit_lines\": 100}'',
       ''- TCP traffic: {\"node_name\": \"worker-1\", \"bpf_filter\": \"tcp and dst port 8080\", \"output_limit_lines\": 50}'',
       ''- ICMP packets: {\"node_name\": \"worker-1\", \"bpf_filter\": \"icmp\", \"output_limit_lines\": 100}''])
      [MaxTimeout_seconds]"


section \<open>\<^verbatim>\<open>pkg/sosreport/mcp/mcp.go\<close>\<close>

definition sos_list_plugins_desc :: desc where
  "sos_list_plugins_desc = Raw
      (doc [''List enabled sosreport plugins with their command counts.'',
       ''Parameters:'',
       ''- sosreport_path (required): Path to extracted sosreport directory'',
       [],
       ''Returns a list of  plugins with the number of commands collected by each plugin.'',
       [],
       ''Use this to discover which plugins are available, then use sos-list-commands to see'',
       ''what commands are available within a specific plugin.'',
       [],
       ''Example output:'',
       ''{'',
       ''  \"plugins\": ['',
       ''    {\"name\": \"crio\", \"command_count\": 15},'',
       ''    {\"name\": \"openvswitch\", \"command_count\": 187},'',
       ''    {\"name\": \"networkmanager\", \"command_count\": 2}'',
       ''  ],'',
       ''  \"total_commands\": 204'',
       ''}''])"

definition sos_list_commands_desc :: desc where
  "sos_list_commands_desc = Raw
      (doc [''List all commands collected by a specific sosreport plugin.'',
       [],
       ''Parameters:'',
       ''- sosreport_path (required): Path to extracted sosreport directory'',
       ''- plugin (required): Plugin name (e.g. 'openvswitch', 'networking', 'kubernetes')'',
       [],
       ''Returns all commands executed by the plugin with their filepaths. Use the filepath'',
       ''with sos-get-command to retrieve the actual command output.'',
       [],
       ''Example:'',
       ''- plugin='openvswitch' returns ovs-vsctl, ovs-ofctl, ovs-appctl commands'',
       ''- plugin='networking' returns ip, ethtool, netstat commands''])"

definition sos_search_commands_desc :: desc where
  "sos_search_commands_desc = Sprintf
      (doc [''Search for commands across all plugins by pattern.'',
       [],
       ''Parameters:'',
       ''- sosreport_path (required): Path to extracted sosreport directory'',
       ''- pattern (required): Regex pattern to search in command exec and filepath'',
       ''- max_results (optional): Maximum results to return (default: %d)'',
       [],
       ''Searches command names and filepaths across all plugins. Returns matching commands'',
       ''with their plugin, exec string, and filepath. Does NOT return file contents.'',
       [],
       ''Examples:'',
       ''- pattern='iptables' finds all iptables-related commands'',
       ''- pattern='ovn.*show' finds OVN show commands'',
       ''- pattern='journalctl.*kubelet' finds kubelet journal logs''])
      [DefaultMaxResults]"

definition sos_get_command_desc :: desc where
  "sos_get_command_desc = Sprintf
      (doc [''Get command output using filepath from manifest.'',
       [],
       ''Parameters:'',
       ''- sosreport_path (required): Path to extracted sosreport directory'',
       ''- filepath (required): Relative filepath from sos-list-commands or sos-search-commands'',
       ''- pattern (optional): Regex pattern to filter output lines'',
       ''- head (optional): Return only first N lines. Default: %d lines if tail is not specified'',
       ''- tail (optional): Return only last N lines'',
       ''- apply_tail_first (optional): If both head and tail are set and apply_tail_first is true,'',
       ''apply tail before head. Default: false'',
       [],
       ''Use the filepath returned by sos-list-commands or sos-search-commands to retrieve'',
       ''the actual command output. Supports optional grep-style filtering.'',
       [],
       ''Example:'',
       ''- filepath='sos_commands/openvswitch/ovs-vsctl_-t_5_show'' @ [CHR 0x27],
       ''- filepath='sos_commands/firewall_tables/iptables_-vnxL', pattern='KUBE-'' @ [CHR 0x27]])
      [sos_DefaultMaxLines]"

definition sos_get_pod_logs_desc :: desc where
  "sos_get_pod_logs_desc = Sprintf
      (doc [''Get Kubernetes pod container logs from a sosreport.'',
       [],
       ''Parameters:'',
       ''- sosreport_path (required): Path to extracted sosreport directory'',
       ''- namespace (required): Pod namespace'',
       ''- name (required): Pod name'',
       ''- container (optional): Container name. If omitted, returns the first matching container log for the pod.'',
       ''- pattern (optional): Regex pattern to filter log lines (grep-style filtering)'',
       ''- head (optional): Return only first N lines. Default: %d lines if tail is not specified'',
       ''- tail (optional): Return only last N lines'',
       ''- apply_tail_first (optional): If both head and tail are set and apply_tail_first is true,'',
       ''apply tail before head. Default: false'',
       [],
       ''Reads container logs collected from the sosreport for the specified pod. Returns'',
       ''log lines.'',
       [],
       ''Examples:'',
       ''- namespace='openshift-ovn-kubernetes', name='ovnkube-node-abc'' @ [CHR 0x27],
       ''- namespace='openshift-ovn-kubernetes', name='ovnkube-node-abc', container='ovnkube-controller'' @ [CHR 0x27],
       ''- namespace='openshift-ovn-kubernetes', name='ovnkube-node-abc', pattern='ERROR.*'' @ [CHR 0x27]])
      [sos_DefaultMaxLines]"


section \<open>\<^verbatim>\<open>pkg/must-gather/mcp/mcp.go\<close>\<close>

definition must_gather_get_resource_desc :: desc where
  "must_gather_get_resource_desc = Raw
      (doc [''Get a specific Kubernetes resource from a must-gather archive.'',
       [],
       ''Parameters:'',
       ''- must_gather_path (required): Absolute path to extracted must-gather directory'',
       ''- kind (required): Kubernetes resource kind (e.g., Pod, Service, Node, Deployment, ConfigMap)'',
       ''- name (required): Name of the resource to retrieve'',
       ''- namespace (optional): Namespace of the resource (defaults to \"default\" for namespaced resources)'',
       ''- output_type (optional): Output format - 'yaml', 'json', 'wide', or 'jsonpath' (default: table format)'',
       [],
       ''Returns the resource definition in the requested format. Use this to inspect specific'',
       ''resource configurations, status, and metadata from the must-gather snapshot.'',
       [],
       ''Examples:'',
       ''- Get a pod: {\"must_gather_path\": \"/path/to/must-gather\", \"kind\": \"Pod\", \"namespace\": \"default\", \"name\": \"my-pod\"}'',
       ''- Get a node as YAML: {\"must_gather_path\": \"/path/to/must-gather\", \"kind\": \"Node\", \"name\": \"worker-0\", \"output_type\": \"yaml\"}'',
       ''- Get a config map: {\"must_gather_path\": \"/path/to/must-gather\", \"kind\": \"ConfigMap\", \"namespace\": \"kube-system\", \"name\": \"my-config\"}'',
       ''- Get a pod name as JSONPath: {\"must_gather_path\": \"/path/to/must-gather\", \"kind\": \"Pod\", \"namespace\": \"default\", \"name\": \"my-pod\", \"output_type\": \"jsonpath='{.metadata.name}'\"}''])"

definition must_gather_list_resources_desc :: desc where
  "must_gather_list_resources_desc = Raw
      (doc [''List Kubernetes resources of a specific kind from a must-gather archive.'',
       [],
       ''Parameters:'',
       ''- must_gather_path (required): Absolute path to extracted must-gather directory'',
       ''- kind (required): Kubernetes resource kind (e.g., Pod, Service, Node, Deployment)'',
       ''- namespace (optional): Filter by namespace. If omitted, lists resources across all namespaces'',
       ''- label_selector (optional): Filter by label selector (e.g., 'app=ovnkube-node', 'component=network')'',
       ''- output_type (optional): Output format - 'yaml', 'json', 'wide', or 'jsonpath' (default: table format)'',
       [],
       ''Returns a list of matching resources. Use this to discover what resources exist in the'',
       ''must-gather snapshot before retrieving specific ones with must-gather-get-resource.'',
       [],
       ''Examples:'',
       ''- List all pods in a namespace: {\"must_gather_path\": \"/path/to/must-gather\", \"kind\": \"Pod\", \"namespace\": \"default\"}'',
       ''- List all nodes: {\"must_gather_path\": \"/path/to/must-gather\", \"kind\": \"Node\"}'',
       ''- List pods by label: {\"must_gather_path\": \"/path/to/must-gather\", \"kind\": \"Pod\", \"label_selector\": \"app=my-app\"}'',
       ''- List services as JSON: {\"must_gather_path\": \"/path/to/must-gather\", \"kind\": \"Service\", \"namespace\": \"kube-system\", \"output_type\": \"json\"}'',
       ''- List pod names as JSONPath: {\"must_gather_path\": \"/path/to/must-gather\", \"kind\": \"Pod\", \"namespace\": \"default\", \"output_type\": \"jsonpath='{.items[*].metadata.name}'\"}''])"

definition must_gather_pod_logs_desc :: desc where
  "must_gather_pod_logs_desc = Sprintf
      (doc [''Get container logs from a pod in a must-gather archive.'',
       [],
       ''Parameters:'',
       ''- must_gather_path (required): Absolute path to extracted must-gather directory'',
       ''- name (required): Name of the pod'',
       ''- namespace (optional): Namespace of the pod (defaults to \"default\" namespace)'',
       ''- container (optional): Specific container name (required for multi-container pods)'',
       ''- previous (optional): If true, get logs from previous container instance (useful for crash analysis)'',
       ''- rotated (optional): If true, include rotated log files'',
       ''- pattern (optional): Regex pattern to filter log lines (grep-style filtering)'',
       ''- head (optional): Return only first N lines. Default: %d if tail is not specified'',
       ''- tail (optional): Return only last N lines.'',
       ''- apply_tail_first (optional): If both head and tail are set and apply_tail_first is true,'',
       ''apply tail before head. Default: false'',
       [],
       ''Returns log lines as an array. If neither head nor tail is specified, returns the first %d lines'',
       ''by default. Use pattern matching to search for specific errors, warnings, or events in the logs.'',
       [],
       ''Examples:'',
       ''- Get pod logs: {\"must_gather_path\": \"/path/to/must-gather\", \"namespace\": \"default\", \"name\": \"my-pod\"}'',
       ''- Get specific container logs: {\"must_gather_path\": \"/path/to/must-gather\", \"namespace\": \"default\", \"name\": \"my-pod\", \"container\": \"my-container\"}'',
       ''- Search for errors: {\"must_gather_path\": \"/path/to/must-gather\", \"namespace\": \"default\", \"name\": \"my-pod\", \"pattern\": \"error|Error|ERROR\"}'',
       ''- Get last 50 lines: {\"must_gather_path\": \"/path/to/must-gather\", \"namespace\": \"default\", \"name\": \"my-pod\", \"tail\": 50}'',
       ''- Get previous container logs: {\"must_gather_path\": \"/path/to/must-gather\", \"namespace\": \"default\", \"name\": \"my-pod\", \"previous\": true}''])
      [mg_DefaultMaxLines, mg_DefaultMaxLines]"

definition must_gather_ovnk_info_desc :: desc where
  "must_gather_ovnk_info_desc = Raw
      (doc [''Get OVN-Kubernetes networking information from a must-gather archive.'',
       [],
       ''Parameters:'',
       ''- must_gather_path (required): Absolute path to extracted must-gather directory'',
       ''- info_type (required): Type of OVN-K info to retrieve. Valid values:'',
       ''  - 'extrainfo': Get extra OVN-Kubernetes debugging information'',
       ''  - 'hostnetinfo': Get host networking configuration and status'',
       ''  - 'subnets': Get OVN subnet allocations and network topology'',
       [],
       ''Use this to retrieve high-level OVN-Kubernetes networking information that helps'',
       ''diagnose network configuration and connectivity issues.'',
       [],
       ''Examples:'',
       ''- Get subnet info: {\"must_gather_path\": \"/path/to/must-gather\", \"info_type\": \"subnets\"}'',
       ''- Get host network info: {\"must_gather_path\": \"/path/to/must-gather\", \"info_type\": \"hostnetinfo\"}'',
       ''- Get extra debugging info: {\"must_gather_path\": \"/path/to/must-gather\", \"info_type\": \"extrainfo\"}''])"

definition must_gather_list_northbound_databases_desc :: desc where
  "must_gather_list_northbound_databases_desc = Raw
      (doc [''List OVN Northbound database files available in a must-gather archive.'',
       [],
       ''Parameters:'',
       ''- must_gather_path (required): Absolute path to extracted must-gather directory'',
       [],
       ''Returns a mapping of database files to their source nodes. The Northbound database (nbdb)'',
       ''contains the logical network configuration: logical switches, routers, ports, ACLs, and'',
       ''load balancers.'',
       [],
       ''Use this to discover available database files before querying with must-gather-query-database.'',
       ''Each OVN controller node may have its own database snapshot.'',
       [],
       ''Example:'',
       ''- {\"must_gather_path\": \"/path/to/must-gather\"}'',
       [],
       ''Output format:'',
       ''Database        Node'',
       ''ovnkube-node-abc123_nbdb    worker-0'',
       ''ovnkube-node-def456_nbdb    worker-1''])"

definition must_gather_list_southbound_databases_desc :: desc where
  "must_gather_list_southbound_databases_desc = Raw
      (doc [''List OVN Southbound database files available in a must-gather archive.'',
       [],
       ''Parameters:'',
       ''- must_gather_path (required): Absolute path to extracted must-gather directory'',
       [],
       ''Returns a mapping of database files to their source nodes. The Southbound database (sbdb)'',
       ''contains the physical network bindings: chassis info, port bindings, MAC bindings, and'',
       ''datapath flows.'',
       [],
       ''Use this to discover available database files before querying with must-gather-query-database.'',
       ''Each OVN controller node may have its own database snapshot.'',
       [],
       ''Example:'',
       ''- {\"must_gather_path\": \"/path/to/must-gather\"}'',
       [],
       ''Output format:'',
       ''Database        Node'',
       ''ovnkube-node-abc123_sbdb    worker-0'',
       ''ovnkube-node-def456_sbdb    worker-1''])"

definition must_gather_query_database_desc :: desc where
  "must_gather_query_database_desc = Raw
      (doc [''Query an OVN database from a must-gather archive using ovsdb-tool.'',
       [],
       ''Parameters:'',
       ''- must_gather_path (required): Absolute path to extracted must-gather directory'',
       ''- database_name (required): Database file name from must-gather-list-northbound-databases or'',
       ''  must-gather-list-southbound-databases. Must end with '_nbdb' or '_sbdb'' @ [CHR 0x27],
       ''- table (required): OVN database table to query. Common tables:'',
       ''  - Northbound: Logical_Switch, Logical_Router, Logical_Switch_Port, ACL, Load_Balancer, NAT'',
       ''  - Southbound: Chassis, Port_Binding, MAC_Binding, Datapath_Binding, SB_Global'',
       ''- conditions (optional): Array of condition strings in OVSDB format: [\"column\",\"op\",\"value\"]. If omitted, returns all rows'',
       ''  Example: [\"['' @ [CHR 0x5C] @ ''\"hostname'' @ [CHR 0x5C] @ ''\",'' @ [CHR 0x5C] @ ''\"=='' @ [CHR 0x5C] @ ''\",'' @ [CHR 0x5C] @ ''\"worker-0'' @ [CHR 0x5C] @ ''\"]\"]'',
       ''- columns (optional): Array of column names to return. If omitted, returns all columns'',
       [],
       ''Returns query results in JSON format. Use this to inspect OVN database state for debugging'',
       ''network connectivity, policy enforcement, and load balancing issues.'',
       [],
       ''Examples:'',
       ''- List all chassis: {\"must_gather_path\": \"/path/to/must-gather\", \"database_name\": \"ovnkube-node-abc123_sbdb\", \"table\": \"Chassis\"}'',
       ''- Get specific chassis: {\"must_gather_path\": \"/path/to/must-gather\", \"database_name\": \"ovnkube-node-abc123_sbdb\", \"table\": \"Chassis\", \"conditions\": [\"['' @ [CHR 0x5C] @ ''\"hostname'' @ [CHR 0x5C] @ ''\",'' @ [CHR 0x5C] @ ''\"=='' @ [CHR 0x5C] @ ''\",'' @ [CHR 0x5C] @ ''\"worker-0'' @ [CHR 0x5C] @ ''\"]\"]}'',
       ''- List logical switches with specific columns: {\"must_gather_path\": \"/path/to/must-gather\", \"database_name\": \"ovnkube-node-abc123_nbdb\", \"table\": \"Logical_Switch\", \"columns\": [\"name\", \"ports\"]}'',
       ''- Query port bindings: {\"must_gather_path\": \"/path/to/must-gather\", \"database_name\": \"ovnkube-node-abc123_sbdb\", \"table\": \"Port_Binding\", \"columns\": [\"logical_port\", \"chassis\", \"type\"]}''])"


section \<open>Registrations\<close>

text \<open>The tools each \<^verbatim>\<open>AddTools\<close> registers, in order; those of must-gather that need ovsdb-tool apart.\<close>

definition kube_registrations :: "(string \<times> desc) list" where
  "kube_registrations =
    [(''pod-logs'', pod_logs_desc),
     (''resource-get'', resource_get_desc),
     (''resource-list'', resource_list_desc)]"

definition ovn_registrations :: "(string \<times> desc) list" where
  "ovn_registrations =
    [(''ovn-show'', ovn_show_desc),
     (''ovn-get'', ovn_get_desc),
     (''ovn-lflow-list'', ovn_lflow_list_desc),
     (''ovn-trace'', ovn_trace_desc)]"

definition ovs_registrations :: "(string \<times> desc) list" where
  "ovs_registrations =
    [(''ovs-vsctl'', ovs_vsctl_desc),
     (''ovs-ofctl'', ovs_ofctl_desc),
     (''ovs-appctl'', ovs_appctl_desc)]"

definition kernel_registrations :: "(string \<times> desc) list" where
  "kernel_registrations =
    [(''get-conntrack'', get_conntrack_desc),
     (''get-iptables'', get_iptables_desc),
     (''get-nft'', get_nft_desc),
     (''get-ip'', get_ip_desc)]"

definition nt_registrations :: "(string \<times> desc) list" where
  "nt_registrations =
    [(''tcpdump'', tcpdump_desc),
     (''pwru'', pwru_desc)]"

definition sos_registrations :: "(string \<times> desc) list" where
  "sos_registrations =
    [(''sos-list-plugins'', sos_list_plugins_desc),
     (''sos-list-commands'', sos_list_commands_desc),
     (''sos-search-commands'', sos_search_commands_desc),
     (''sos-get-command'', sos_get_command_desc),
     (''sos-get-pod-logs'', sos_get_pod_logs_desc)]"

definition mg_registrations :: "(string \<times> desc) list" where
  "mg_registrations =
    [(''must-gather-get-resource'', must_gather_get_resource_desc),
     (''must-gather-list-resources'', must_gather_list_resources_desc),
     (''must-gather-pod-logs'', must_gather_pod_logs_desc),
     (''must-gather-ovnk-info'', must_gather_ovnk_info_desc)]"

definition mg_db_registrations :: "(string \<times> desc) list" where
  "mg_db_registrations =
    [(''must-gather-list-northbound-databases'', must_gather_list_northbound_databases_desc),
     (''must-gather-list-southbound-databases'', must_gather_list_southbound_databases_desc),
     (''must-gather-query-database'', must_gather_query_database_desc)]"

end
