(* ===== verification/Middleware.thy ===== *)
theory Middleware
  imports GoStrings GoJson Timeouts "HOL-Library.AList" "HOL-Library.Char_ord" "HOL-Library.List_Lexorder"
begin

text \<open>
  The two receiving middlewares, \<^verbatim>\<open>pkg/middleware/toolfilter/toolfilter.go\<close> and
  \<^verbatim>\<open>pkg/middleware/timeout/timeout.go\<close>. A method handler of the MCP SDK is a function over an
  arbitrary world; a middleware maps handlers to handlers. A Go map is an association list with
  distinct keys.

  The locale \<open>middleware\<close> is the contract both keep: a request reaches the wrapped handler at most
  once, unchanged, under a deadline that is no later than the one it came with. The locale
  \<open>middleware_stack\<close> shows that a stack of two of them keeps it.
\<close>

section \<open>Requests and results of the SDK\<close>

text \<open>The parameters of a request: those of a tool call (its name and arguments, \<open>None\<close> when the
  arguments are not valid JSON), a nil pointer of that type, or another method's. A request may be nil.\<close>

datatype mcp_params =
    CallToolParamsRaw string "json option"
  | NilCallToolParamsRaw
  | OtherParams

type_synonym request = "mcp_params option"

text \<open>A result is nil, a tool listing (tool pointers, possibly nil, with their names and other
  metadata) or any other result.\<close>

datatype 'r mcp_result =
    NilResult
  | ListToolsResult "(string \<times> 'r) option list" 'r
  | OtherResult 'r

type_synonym ('r, 'w) method_handler =
  "Context \<Rightarrow> string \<Rightarrow> request \<Rightarrow> 'w \<Rightarrow> ('r mcp_result \<times> err option) \<times> 'w"

type_synonym bool_map = "(string \<times> bool) list"

definition map_get :: "bool_map \<Rightarrow> string \<Rightarrow> bool" where
  "map_get m k = (map_of m k = Some True)"

section \<open>Tool filter\<close>

definition toolsByCategory :: "(string \<times> strs) list" where
  "toolsByCategory =
    [(''kubernetes'', [''pod-logs'', ''resource-get'', ''resource-list'']),
     (''ovn'', [''ovn-show'', ''ovn-get'', ''ovn-lflow-list'', ''ovn-trace'']),
     (''ovs'', [''ovs-vsctl'', ''ovs-ofctl'', ''ovs-appctl'']),
     (''kernel'', [''get-conntrack'', ''get-iptables'', ''get-nft'', ''get-ip'']),
     (''network-tools'', [''tcpdump'', ''pwru'']),
     (''sosreport'', [''sos-list-plugins'', ''sos-list-commands'', ''sos-search-commands'',
        ''sos-get-command'', ''sos-get-pod-logs'']),
     (''must-gather'', [''must-gather-get-resource'', ''must-gather-list-resources'',
        ''must-gather-pod-logs'', ''must-gather-ovnk-info'', ''must-gather-list-northbound-databases'',
        ''must-gather-list-southbound-databases'', ''must-gather-query-database''])]"

definition Categories :: strs where
  "Categories = sort (map fst toolsByCategory)"

definition splitCSV :: "string \<Rightarrow> strs" where
  "splitCSV s =
     (if s = [] then []
      else filter (\<lambda>p. p \<noteq> []) (map TrimSpace (Split (CHR '','') s)))"

definition set_true :: "strs \<Rightarrow> bool_map \<Rightarrow> bool_map" where
  "set_true ts m = fold (\<lambda>t. AList.update t True) ts m"

definition allKnownTools :: bool_map where
  "allKnownTools = fold (\<lambda>(_, tools). set_true tools) toolsByCategory []"

definition unknownCategory_msg :: string where
  "unknownCategory_msg = ''unknown category %q (valid: %s)''"

fun resolve_categories :: "strs \<Rightarrow> bool_map \<Rightarrow> bool_map result" where
  "resolve_categories [] disabled = Inr disabled"
| "resolve_categories (cat # cats) disabled =
     (case map_of toolsByCategory cat of
        None \<Rightarrow> Inl (Errorf unknownCategory_msg [FStr cat, FStr (Join Categories '', '')])
      | Some tools \<Rightarrow> resolve_categories cats (set_true tools disabled))"

fun resolve_tools :: "strs \<Rightarrow> bool_map \<Rightarrow> bool_map result" where
  "resolve_tools [] disabled = Inr disabled"
| "resolve_tools (t # ts) disabled =
     (if \<not> map_get allKnownTools t then Inl (Errorf ''unknown tool %q'' [FStr t])
      else resolve_tools ts (AList.update t True disabled))"

definition ResolveDisabled :: "string \<Rightarrow> string \<Rightarrow> bool_map result" where
  "ResolveDisabled disabledCategories disabledTools =
     (case resolve_categories (splitCSV disabledCategories) [] of
        Inl e \<Rightarrow> Inl e
      | Inr disabled \<Rightarrow> resolve_tools (splitCSV disabledTools) disabled)"

definition callToolName :: "request \<Rightarrow> string" where
  "callToolName req = (case req of
       Some (CallToolParamsRaw name _) \<Rightarrow> name
     | _ \<Rightarrow> [])"

definition disabled_error :: "string \<Rightarrow> err" where
  "disabled_error name = Errorf ''tool %q is disabled by server configuration'' [FStr name]"

definition visible :: "bool_map \<Rightarrow> (string \<times> 'r) option \<Rightarrow> bool" where
  "visible disabledTools t = (case t of None \<Rightarrow> False | Some (name, _) \<Rightarrow> \<not> map_get disabledTools name)"

definition ToolFilter :: "bool_map \<Rightarrow> ('r, 'w) method_handler \<Rightarrow> ('r, 'w) method_handler" where
  "ToolFilter disabledTools next ctx meth req w =
     (if length disabledTools = 0 then next ctx meth req w
      else if meth = ''tools/call'' then
        (let name = callToolName req in
         if name \<noteq> [] \<and> map_get disabledTools name then ((NilResult, Some (disabled_error name)), w)
         else next ctx meth req w)
      else if meth = ''tools/list'' then
        (case next ctx meth req w of
           ((res, Some e), w') \<Rightarrow> ((res, Some e), w')
         | ((res, None), w') \<Rightarrow>
             (case res of
                ListToolsResult tools m \<Rightarrow>
                  if length tools > 0
                  then ((ListToolsResult (filter (visible disabledTools) tools) m, None), w')
                  else ((res, None), w')
              | _ \<Rightarrow> ((res, None), w')))
      else next ctx meth req w)"

section \<open>Tool timeout\<close>

text \<open>\<^verbatim>\<open>json.Unmarshal\<close> into \<^verbatim>\<open>TimeoutParams\<close>: members are matched to \<^verbatim>\<open>timeout_seconds\<close> under simple case
  folding (ASCII letters, and the long s U+017F), a null leaves the field alone, a number must be an
  unsigned decimal that fits 32 bits, the last match wins, and any mismatch is an error.\<close>

fun json_fold :: "string \<Rightarrow> string" where
  "json_fold [] = []"
| "json_fold [c] = [lower_ascii c]"
| "json_fold (c # d # s) =
     (if code c = 0xC5 \<and> code d = 0xBF then CHR ''s'' # json_fold s
      else lower_ascii c # json_fold (d # s))"

definition parse_uint32 :: "string \<Rightarrow> 32 word option" where
  "parse_uint32 lit =
     (if lit \<noteq> [] \<and> list_all is_digit lit \<and> digits_val lit < 2 ^ 32
      then Some (word_of_int (digits_val lit)) else None)"

definition json_type_error :: err where
  "json_type_error = ExtErr ''json: cannot unmarshal into Go value''"

fun unmarshal_members :: "(string \<times> json) list \<Rightarrow> TimeoutParams \<times> bool \<Rightarrow> TimeoutParams \<times> bool" where
  "unmarshal_members [] st = st"
| "unmarshal_members ((k, v) # kvs) (t, bad) =
     (if json_fold k \<noteq> ''timeout_seconds'' then unmarshal_members kvs (t, bad)
      else (case v of
          JNull \<Rightarrow> unmarshal_members kvs (t, bad)
        | JNum lit \<Rightarrow> (case parse_uint32 lit of
            Some n \<Rightarrow> unmarshal_members kvs (t\<lparr>TimeoutSeconds := n\<rparr>, bad)
          | None \<Rightarrow> unmarshal_members kvs (t, True))
        | _ \<Rightarrow> unmarshal_members kvs (t, True)))"

definition Unmarshal :: "json option \<Rightarrow> TimeoutParams result" where
  "Unmarshal arguments = (case arguments of
       None \<Rightarrow> Inl (ExtErr ''invalid JSON'')
     | Some JNull \<Rightarrow> Inr \<lparr>TimeoutSeconds = 0\<rparr>
     | Some (JObj kvs) \<Rightarrow>
         (case unmarshal_members kvs (\<lparr>TimeoutSeconds = 0\<rparr>, False) of
            (t, bad) \<Rightarrow> if bad then Inl json_type_error else Inr t)
     | Some _ \<Rightarrow> Inl json_type_error)"

definition getTimeoutParams :: "request \<Rightarrow> duration" where
  "getTimeoutParams req = (case req of
       Some (CallToolParamsRaw _ arguments) \<Rightarrow>
         (case Unmarshal arguments of Inl _ \<Rightarrow> 0 | Inr timeoutParams \<Rightarrow> ToDuration timeoutParams)
     | _ \<Rightarrow> 0)"

definition ToolTimeout :: "int \<Rightarrow> duration \<Rightarrow> ('r, 'w) method_handler \<Rightarrow> ('r, 'w) method_handler" where
  "ToolTimeout now timeout next ctx meth req w =
     (if meth \<noteq> ''tools/call'' then next ctx meth req w
      else (let timeoutParam = getTimeoutParams req in
        if timeoutParam = 0 then next (context_WithTimeout now ctx timeout) meth req w
        else next ctx meth req w))"

section \<open>The contract of a middleware\<close>

definition no_later :: "Context \<Rightarrow> Context \<Rightarrow> bool" where
  "no_later c d \<longleftrightarrow> (\<forall>t. Deadline d = Some t \<longrightarrow> (\<exists>t' \<le> t. Deadline c = Some t'))"

lemma no_later_refl [simp]: "no_later c c"
  by (auto simp: no_later_def)

lemma no_later_trans: "no_later c d \<Longrightarrow> no_later d e \<Longrightarrow> no_later c e"
  unfolding no_later_def by (meson order_trans)

lemma no_later_WithTimeout [simp]: "no_later (context_WithTimeout now ctx d) ctx"
  by (auto simp: no_later_def context_WithTimeout_def)

locale middleware =
  fixes m :: "('r, 'w) method_handler \<Rightarrow> ('r, 'w) method_handler"
  assumes once: "snd (m next ctx meth req w) = w \<or>
      (\<exists>ctx'. no_later ctx' ctx \<and> snd (m next ctx meth req w) = snd (next ctx' meth req w))"
    and other: "meth \<noteq> ''tools/call'' \<Longrightarrow> meth \<noteq> ''tools/list'' \<Longrightarrow>
      m next ctx meth req w = next ctx meth req w"
begin

lemma keeps_invariant:
  assumes "J w" "\<And>ctx' v. no_later ctx' ctx \<Longrightarrow> J v \<Longrightarrow> J (snd (next ctx' meth req v))"
  shows "J (snd (m next ctx meth req w))"
  using once [of "next" ctx meth req w] assms by auto

end

locale middleware_stack = outer: middleware m1 + inner: middleware m2
  for m1 m2 :: "('r, 'w) method_handler \<Rightarrow> ('r, 'w) method_handler"

sublocale middleware_stack \<subseteq> stack: middleware "\<lambda>next. m1 (m2 next)"
proof
  fix "next" :: "('r, 'w) method_handler" and ctx meth req w
  show "snd (m1 (m2 next) ctx meth req w) = w \<or>
      (\<exists>ctx'. no_later ctx' ctx \<and> snd (m1 (m2 next) ctx meth req w) = snd (next ctx' meth req w))"
    using outer.once [of "m2 next" ctx meth req w]
  proof (elim disjE exE conjE)
    fix c assume c: "no_later c ctx" and e: "snd (m1 (m2 next) ctx meth req w) = snd (m2 next c meth req w)"
    from inner.once [of "next" c meth req w] show ?thesis
      unfolding e using no_later_trans [OF _ c] by blast
  qed simp
qed (simp add: outer.other inner.other)

interpretation tool_filter: middleware "ToolFilter d"
proof
  fix "next" :: "('r, 'w) method_handler" and ctx meth req w
  have "snd (ToolFilter d next ctx meth req w) = w \<or>
      snd (ToolFilter d next ctx meth req w) = snd (next ctx meth req w)"
    by (auto simp: ToolFilter_def Let_def split: prod.splits option.splits mcp_result.splits)
  then show "snd (ToolFilter d next ctx meth req w) = w \<or>
      (\<exists>ctx'. no_later ctx' ctx \<and> snd (ToolFilter d next ctx meth req w) = snd (next ctx' meth req w))"
    using no_later_refl by metis
qed (simp add: ToolFilter_def)

definition timeout_ctx :: "int \<Rightarrow> duration \<Rightarrow> Context \<Rightarrow> string \<Rightarrow> request \<Rightarrow> Context" where
  "timeout_ctx now t ctx meth req =
     (if meth = ''tools/call'' \<and> getTimeoutParams req = 0 then context_WithTimeout now ctx t else ctx)"

lemma ToolTimeout_eq:
  "ToolTimeout now t next ctx meth req w = next (timeout_ctx now t ctx meth req) meth req w"
  by (simp add: ToolTimeout_def timeout_ctx_def Let_def)

lemma no_later_timeout_ctx: "no_later (timeout_ctx now t ctx meth req) ctx"
  by (simp add: timeout_ctx_def)

interpretation tool_timeout: middleware "ToolTimeout now t"
proof
  fix "next" :: "('r, 'w) method_handler" and ctx meth req w
  show "snd (ToolTimeout now t next ctx meth req w) = w \<or>
      (\<exists>ctx'. no_later ctx' ctx \<and> snd (ToolTimeout now t next ctx meth req w) = snd (next ctx' meth req w))"
    unfolding ToolTimeout_eq using no_later_timeout_ctx by blast
qed (simp add: ToolTimeout_def)

interpretation filter_timeout: middleware_stack "ToolFilter d" "ToolTimeout now t"
  by unfold_locales

section \<open>Resolving the disabled set\<close>

lemma map_get_update [simp]: "map_get (AList.update t True m) k \<longleftrightarrow> k = t \<or> map_get m k"
  by (auto simp: map_get_def update_conv')

lemma map_get_set_true [simp]: "map_get (set_true ts m) k \<longleftrightarrow> k \<in> set ts \<or> map_get m k"
  unfolding set_true_def by (induction ts arbitrary: m) auto

lemma map_get_Nil [simp]: "\<not> map_get [] k"
  by (simp add: map_get_def)

lemma map_get_fold:
  "map_get (fold (\<lambda>(_, tools). set_true tools) cs m) k \<longleftrightarrow>
     (\<exists>c ts. (c, ts) \<in> set cs \<and> k \<in> set ts) \<or> map_get m k"
proof (induction cs arbitrary: m)
  case (Cons c cs)
  obtain n ts where "c = (n, ts)" by fastforce
  then show ?case using Cons by auto
qed simp

lemma allKnownTools_iff:
  "map_get allKnownTools k \<longleftrightarrow> (\<exists>c ts. (c, ts) \<in> set toolsByCategory \<and> k \<in> set ts)"
  by (simp add: allKnownTools_def map_get_fold)

lemma resolve_categories_Inr:
  "resolve_categories cs m = Inr d \<longleftrightarrow>
     (\<forall>c \<in> set cs. c \<in> set (map fst toolsByCategory)) \<and>
     d = fold (\<lambda>c. set_true (the (map_of toolsByCategory c))) cs m"
proof (induction cs arbitrary: m)
  case (Cons c cs)
  have "c \<in> set (map fst toolsByCategory) \<longleftrightarrow> map_of toolsByCategory c \<noteq> None"
    by (metis map_of_eq_None_iff set_map)
  then show ?case using Cons by (auto split: option.splits)
qed auto

lemma map_get_fold_categories:
  "map_get (fold (\<lambda>c. set_true (f c)) cs m) k \<longleftrightarrow> (\<exists>c \<in> set cs. k \<in> set (f c)) \<or> map_get m k"
  by (induction cs arbitrary: m) auto

lemma resolve_tools_Inr:
  "resolve_tools ts m = Inr d \<longleftrightarrow>
     (\<forall>t \<in> set ts. map_get allKnownTools t) \<and> d = set_true ts m"
  by (induction ts arbitrary: m) (auto simp: set_true_def)

lemma splitCSV_eq: "splitCSV s = filter (\<lambda>p. p \<noteq> []) (map TrimSpace (Split (CHR '','') s))"
  by (simp add: splitCSV_def)

section \<open>Properties\<close>

lemma ResolveDisabled_get:
  assumes "ResolveDisabled cats tools = Inr d"
  shows "map_get d t \<longleftrightarrow>
     t \<in> set (splitCSV tools) \<or>
     (\<exists>c \<in> set (splitCSV cats). \<exists>ts. map_of toolsByCategory c = Some ts \<and> t \<in> set ts)"
proof -
  obtain m where m: "resolve_categories (splitCSV cats) [] = Inr m" "resolve_tools (splitCSV tools) m = Inr d"
    using assms by (auto simp: ResolveDisabled_def split: sum.splits)
  have known: "\<exists>ts. map_of toolsByCategory c = Some ts" if "c \<in> set (splitCSV cats)" for c
    using m(1) that unfolding resolve_categories_Inr by (metis map_of_eq_None_iff not_None_eq set_map)
  have "map_get m t \<longleftrightarrow> (\<exists>c \<in> set (splitCSV cats). t \<in> set (the (map_of toolsByCategory c)))"
    using m(1) unfolding resolve_categories_Inr by (simp add: map_get_fold_categories)
  then have "map_get m t \<longleftrightarrow>
      (\<exists>c \<in> set (splitCSV cats). \<exists>ts. map_of toolsByCategory c = Some ts \<and> t \<in> set ts)"
    using known by (metis option.sel)
  then show ?thesis using m(2) unfolding resolve_tools_Inr by simp
qed

text \<open>No tool has an empty name, so none is disabled.\<close>

lemma ResolveDisabled_known: "ResolveDisabled cats tools = Inr d \<Longrightarrow> map_get d t \<Longrightarrow> t \<noteq> []"
proof -
  assume r: "ResolveDisabled cats tools = Inr d" and t: "map_get d t"
  have "list_all (\<lambda>(c, ts). [] \<notin> set ts) toolsByCategory" by code_simp
  then have "[] \<notin> set ts" if "map_of toolsByCategory c = Some ts" for c ts
    using map_of_SomeD [OF that] by (auto simp: list_all_iff)
  moreover have "[] \<notin> set (splitCSV tools)" by (auto simp: splitCSV_def)
  ultimately show "t \<noteq> []" using t ResolveDisabled_get [OF r, of t] by metis
qed

text \<open>A Go map of known tools to true: no key twice, every key a tool of some category, every value true.\<close>

definition wf_disabled :: "bool_map \<Rightarrow> bool" where
  "wf_disabled d \<longleftrightarrow> distinct (map fst d) \<and> list_all (\<lambda>(t, b). b \<and> t \<in> set (concat (map snd toolsByCategory))) d"

lemma wf_disabled_update:
  assumes "wf_disabled d" "t \<in> set (concat (map snd toolsByCategory))"
  shows "wf_disabled (AList.update t True d)"
proof -
  have "(k, b) \<in> set (AList.update t True d) \<Longrightarrow> (k, b) = (t, True) \<or> (k, b) \<in> set d" for k b
    by (induction d) (auto split: if_splits)
  with assms have "b \<and> k \<in> set (concat (map snd toolsByCategory))" if "(k, b) \<in> set (AList.update t True d)" for k b
    using that unfolding wf_disabled_def list_all_iff by blast
  moreover have "distinct (map fst (AList.update t True d))"
    using assms(1) unfolding wf_disabled_def by (blast intro: distinct_update)
  ultimately show ?thesis unfolding wf_disabled_def list_all_iff by blast
qed

lemma wf_disabled_set_true:
  "wf_disabled d \<Longrightarrow> set ts \<subseteq> set (concat (map snd toolsByCategory)) \<Longrightarrow> wf_disabled (set_true ts d)"
  unfolding set_true_def by (induction ts arbitrary: d) (simp_all add: wf_disabled_update del: set_concat)

lemma wf_disabled_categories: "resolve_categories cs d = Inr d' \<Longrightarrow> wf_disabled d \<Longrightarrow> wf_disabled d'"
proof (induction cs arbitrary: d)
  case (Cons c cs)
  from Cons.prems(1) obtain ts where t: "map_of toolsByCategory c = Some ts" "resolve_categories cs (set_true ts d) = Inr d'"
    by (auto split: option.splits)
  have "set ts \<subseteq> set (concat (map snd toolsByCategory))" using map_of_SomeD [OF t(1)] by force
  from Cons.IH [OF t(2) wf_disabled_set_true [OF Cons.prems(2) this]] show ?case .
qed simp

lemma ResolveDisabled_wf: "ResolveDisabled cats tools = Inr d \<Longrightarrow> wf_disabled d"
proof -
  assume "ResolveDisabled cats tools = Inr d"
  then obtain m where m: "resolve_categories (splitCSV cats) [] = Inr m" "resolve_tools (splitCSV tools) m = Inr d"
    by (auto simp: ResolveDisabled_def split: sum.splits)
  have "set (splitCSV tools) \<subseteq> set (concat (map snd toolsByCategory))"
    using m(2) unfolding resolve_tools_Inr allKnownTools_iff by force
  moreover have "wf_disabled m" by (rule wf_disabled_categories [OF m(1)]) (simp add: wf_disabled_def)
  ultimately show "wf_disabled d" using m(2) wf_disabled_set_true unfolding resolve_tools_Inr by blast
qed

text \<open>\<^verbatim>\<open>ResolveDisabled\<close> succeeds exactly when every non-empty entry of both lists, trimmed, is a
  known category or a known tool; and the set it returns holds exactly the listed tools and the tools
  of the listed categories.\<close>

theorem ResolveDisabled_iff:
  "(\<exists>d. ResolveDisabled cats tools = Inr d \<and>
      map_get d = (\<lambda>t. t \<in> set (splitCSV tools) \<or>
        (\<exists>c \<in> set (splitCSV cats). \<exists>ts. map_of toolsByCategory c = Some ts \<and> t \<in> set ts))) \<longleftrightarrow>
     list_all (\<lambda>c. \<exists>ts. (c, ts) \<in> set toolsByCategory) (splitCSV cats) \<and>
     list_all (\<lambda>t. \<exists>c ts. (c, ts) \<in> set toolsByCategory \<and> t \<in> set ts) (splitCSV tools)"
proof -
  have c: "c \<in> set (map fst toolsByCategory) \<longleftrightarrow> (\<exists>ts. (c, ts) \<in> set toolsByCategory)" for c
    by force
  have "(\<exists>m. resolve_categories (splitCSV cats) [] = Inr m) \<longleftrightarrow>
      list_all (\<lambda>c. \<exists>ts. (c, ts) \<in> set toolsByCategory) (splitCSV cats)"
    unfolding resolve_categories_Inr list_all_iff c by blast
  moreover have "(\<exists>d. resolve_tools (splitCSV tools) m = Inr d) \<longleftrightarrow>
      list_all (\<lambda>t. \<exists>c ts. (c, ts) \<in> set toolsByCategory \<and> t \<in> set ts) (splitCSV tools)" for m
    unfolding resolve_tools_Inr allKnownTools_iff list_all_iff by blast
  ultimately have "(\<exists>d. ResolveDisabled cats tools = Inr d) \<longleftrightarrow>
      list_all (\<lambda>c. \<exists>ts. (c, ts) \<in> set toolsByCategory) (splitCSV cats) \<and>
      list_all (\<lambda>t. \<exists>c ts. (c, ts) \<in> set toolsByCategory \<and> t \<in> set ts) (splitCSV tools)"
    unfolding ResolveDisabled_def by (cases "resolve_categories (splitCSV cats) []") auto
  then show ?thesis using ResolveDisabled_get [of cats tools] by (auto simp: fun_eq_iff)
qed

text \<open>a disabled tool is unreachable: a call to it returns the configuration error without the
  wrapped handler running, and a call to any other tool passes through unchanged.\<close>

theorem ToolFilter_call:
  "ToolFilter d next ctx ''tools/call'' req w =
     (if map_get d (callToolName req) \<and> callToolName req \<noteq> []
      then ((NilResult, Some (disabled_error (callToolName req))), w)
      else next ctx ''tools/call'' req w)"
  by (cases "length d = 0") (auto simp: ToolFilter_def Let_def)

text \<open>a listing through the filter is the wrapped handler's listing less the disabled tools
  and nil entries, in order; errors and other results pass through unchanged.\<close>

theorem ToolFilter_list:
  assumes "d \<noteq> []"
  shows "ToolFilter d next ctx ''tools/list'' req w =
     (case next ctx ''tools/list'' req w of ((res, e), w') \<Rightarrow>
        ((case (res, e) of (ListToolsResult tools m, None) \<Rightarrow> ListToolsResult (filter (visible d) tools) m
          | _ \<Rightarrow> res, e), w'))"
  using assms by (auto simp: ToolFilter_def split: prod.splits option.splits mcp_result.splits)

theorem ToolFilter_list_witness:
  "ToolFilter [(''pwru'', True)]
     (\<lambda>_ _ _ w. ((ListToolsResult [Some (''tcpdump'', ()), None, Some (''pwru'', ())] (), None), Suc w))
     context_Background ''tools/list'' None (0 :: nat) =
   ((ListToolsResult [Some (''tcpdump'', ())] (), None), 1)"
  by (simp add: ToolFilter_list visible_def map_get_def)

text \<open>a tool call through the timeout middleware always runs under a deadline once the handler
  has applied the client's own timeout: the server default counted from the middleware when the
  request carries no timeout, and otherwise the client's value, capped at 300 seconds.\<close>

theorem ToolTimeout_deadline:
  assumes "req = Some (CallToolParamsRaw name args)" "Unmarshal args = Inr tp"
  shows "ToolTimeout now d next ctx ''tools/call'' req w =
      next (if TimeoutSeconds tp = 0 then context_WithTimeout now ctx d else ctx) ''tools/call'' req w \<and>
    (\<exists>t. Deadline (fst (WithTimeout now' tp
        (if TimeoutSeconds tp = 0 then context_WithTimeout now ctx d else ctx))) = Some t \<and>
      t \<le> (if TimeoutSeconds tp = 0 then now + sint d
           else now' + min (uint (TimeoutSeconds tp) * 1000000000) 300000000000))"
proof -
  have z: "ToDuration tp = 0 \<longleftrightarrow> TimeoutSeconds tp = 0"
  proof
    assume "ToDuration tp = 0"
    then have "min (uint (TimeoutSeconds tp) * 1000000000) 300000000000 = 0"
      using sint_ToDuration [of tp] by simp
    then have "uint (TimeoutSeconds tp) = 0" by (auto simp: min_def split: if_splits)
    then show "TimeoutSeconds tp = 0" by (simp add: uint_0_iff)
  next
    assume "TimeoutSeconds tp = 0"
    then show "ToDuration tp = 0" by (simp add: ToDuration_def min_duration_def sint_MaxTimeout)
  qed
  then have "getTimeoutParams req = 0 \<longleftrightarrow> TimeoutSeconds tp = 0"
    using assms by (simp add: getTimeoutParams_def)
  then show ?thesis
    using sint_ToDuration [of tp]
    by (auto simp: ToolTimeout_eq timeout_ctx_def WithTimeout_def context_WithTimeout_def split: option.splits)
qed

theorem ToolTimeout_deadline_witness:
  "\<exists>tp. Unmarshal (Some (JObj [(''node'', JStr ''w1''), (''timeout_seconds'', JNum ''900'')])) = Inr tp \<and>
     (\<exists>t. Deadline (fst (WithTimeout 5 tp context_Background)) = Some t \<and> t \<le> 5 + 300000000000)"
proof -
  let ?a = "Some (JObj [(''node'', JStr ''w1''), (''timeout_seconds'', JNum ''900'')])"
  have u: "Unmarshal ?a = Inr \<lparr>TimeoutSeconds = 900\<rparr>" by code_simp
  from ToolTimeout_deadline [OF refl u, of 0 0 "\<lambda>_ _ _ w. ((NilResult, None), w)" context_Background
      "''get-ip''" "()" 5]
  have "\<exists>t. Deadline (fst (WithTimeout 5 \<lparr>TimeoutSeconds = 900\<rparr> context_Background)) = Some t \<and>
      t \<le> 5 + 300000000000" by force
  with u show ?thesis by blast
qed

end
