(* ===== verification/Age.thy ===== *)
theory Age
  imports GoStrings Timeouts Complex_Main "HOL-Library.Log_Nat"
begin

text \<open>
  \<^verbatim>\<open>FormatAge\<close> of \<^verbatim>\<open>pkg/kubernetes/types/utils.go\<close>, which computes in 64-bit floating point. The values it
  meets are zero or well inside the normal range, so a float is the rational it stands for and every
  operation is the exact one followed by \<open>rnd\<close>, rounding to 53 bits, ties to even. The theorem is that
  rounding does not show in the result up to an age of 170 days.
\<close>

section \<open>Floating point\<close>

definition round_even :: "rat \<Rightarrow> int" where
  "round_even y = (let f = \<lfloor>y\<rfloor>; d = y - of_int f in
     if d < 1 / 2 then f else if 1 / 2 < d then f + 1 else if even f then f else f + 1)"

definition exponent :: "rat \<Rightarrow> int" where
  \<comment> \<open>the largest \<open>e\<close> with \<open>2 ^ e \<le> x\<close>, for positive \<open>x\<close>\<close>
  "exponent x = (case quotient_of x of (p, q) \<Rightarrow>
     (let e = bitlen p - bitlen q in if power_int 2 e \<le> x then e else e - 1))"

definition rnd :: "rat \<Rightarrow> rat" where
  "rnd x = (if x = 0 then 0
     else (let u = power_int 2 (exponent \<bar>x\<bar> - 52) in
       (if x < 0 then - 1 else 1) * of_int (round_even (\<bar>x\<bar> / u)) * u))"

definition to_int64 :: "rat \<Rightarrow> int" where
  "to_int64 x = (if x < 0 then - \<lfloor>- x\<rfloor> else \<lfloor>x\<rfloor>)"

section \<open>Ages\<close>

text \<open>Integer division and remainder of Go truncate.\<close>

definition quot :: "int \<Rightarrow> int \<Rightarrow> int" where
  "quot a b = (if a < 0 then - ((- a) div b) else a div b)"

definition go_rem :: "int \<Rightarrow> int \<Rightarrow> int" where
  "go_rem a b = a - quot a b * b"

definition in_unit :: "int \<Rightarrow> int \<Rightarrow> rat" where
  \<comment> \<open>\<^verbatim>\<open>Duration.Seconds\<close>, \<^verbatim>\<open>Minutes\<close> and \<^verbatim>\<open>Hours\<close>, for the unit in nanoseconds\<close>
  "in_unit unit d = rnd (of_int (quot d unit) + rnd (of_int (go_rem d unit) / of_int unit))"

definition Seconds :: "int \<Rightarrow> rat" where "Seconds = in_unit 1000000000"
definition Minutes :: "int \<Rightarrow> rat" where "Minutes = in_unit 60000000000"
definition Hours :: "int \<Rightarrow> rat" where "Hours = in_unit 3600000000000"

definition FormatAge :: "duration \<Rightarrow> string" where
  "FormatAge age0 =
     (let age = sint age0 in
      if age < 60000000000 then Itoa (to_int64 (Seconds age)) @ ''s''
      else if age < 3600000000000 then
        Itoa (to_int64 (Minutes age)) @ ''m'' @
        Itoa (to_int64 (rnd (Seconds age - of_int (to_int64 (Minutes age) * 60)))) @ ''s''
      else if age < 86400000000000 then
        Itoa (to_int64 (Hours age)) @ ''h'' @
        Itoa (to_int64 (rnd (Minutes age - of_int (to_int64 (Hours age) * 60)))) @ ''m''
      else
        Itoa (to_int64 (rnd (Hours age / 24))) @ ''d'' @
        Itoa (to_int64 (rnd (Hours age - rnd (of_int (to_int64 (rnd (Hours age / 24))) * 24)))) @ ''h'')"

section \<open>Rounding\<close>

lemma bitlen_rat:
  assumes "0 < p"
  shows "(2 :: rat) powi (bitlen p - 1) \<le> of_int p" "of_int p < (2 :: rat) powi bitlen p"
proof -
  have b: "2 ^ nat (bitlen p - 1) \<le> p" "p < 2 ^ nat (bitlen p)" "0 \<le> bitlen p" "0 < bitlen p"
    using bitlen_bounds [OF assms] bitlen_nonneg [of p] assms by (auto simp: bitlen_alt_def)
  have "of_int (2 ^ nat (bitlen p - 1)) \<le> (of_int p :: rat)" "(of_int p :: rat) < of_int (2 ^ nat (bitlen p))"
    unfolding of_int_le_iff of_int_less_iff using b(1,2) .
  then show "(2 :: rat) powi (bitlen p - 1) \<le> of_int p" "of_int p < (2 :: rat) powi bitlen p"
    using b(3,4) by (simp_all add: power_int_nonneg_exp)
qed

lemma exponent_bounds:
  assumes "0 < x"
  shows "2 powi exponent x \<le> x" "x < 2 powi (exponent x + 1)"
proof -
  obtain p q where pq: "quotient_of x = (p, q)" by (cases "quotient_of x")
  have x: "x = of_int p / of_int q" and q: "0 < q" using quotient_of_div [OF pq] quotient_of_denom_pos [OF pq] .
  have p: "0 < p" using assms q by (simp add: x zero_less_divide_iff)
  define e where "e = bitlen p - bitlen q"
  have "x < 2 powi bitlen p / 2 powi (bitlen q - 1)"
    unfolding x by (rule frac_less) (use bitlen_rat [OF p] bitlen_rat [OF q] p in auto)
  also have "\<dots> = 2 powi (e + 1)" by (simp add: e_def power_int_diff [symmetric] algebra_simps)
  finally have hi: "x < 2 powi (e + 1)" .
  have "2 powi (e - 1) = 2 powi (bitlen p - 1) / (2 :: rat) powi bitlen q"
    by (simp add: e_def power_int_diff [symmetric] algebra_simps)
  also have "\<dots> < x"
    unfolding x by (rule frac_less2) (use bitlen_rat [OF p] bitlen_rat [OF q] p q in \<open>auto\<close>)
  finally have lo: "2 powi (e - 1) < x" .
  have "exponent x = (if 2 powi e \<le> x then e else e - 1)" by (simp add: exponent_def pq e_def Let_def)
  then show "2 powi exponent x \<le> x" "x < 2 powi (exponent x + 1)" using hi lo by (auto split: if_splits)
qed

lemma exponent_less:
  assumes "0 < x" "x < 2 powi k"
  shows "exponent x < k"
proof (rule ccontr)
  assume "\<not> exponent x < k"
  then have "(2 :: rat) powi k \<le> 2 powi exponent x" by (intro power_int_increasing) auto
  with exponent_bounds(1) [OF assms(1)] assms(2) show False by simp
qed

lemma round_even_err: "\<bar>of_int (round_even y) - y\<bar> \<le> 1 / 2"
proof -
  have "of_int \<lfloor>y\<rfloor> \<le> y" "y < of_int \<lfloor>y\<rfloor> + 1" by linarith+
  then show ?thesis unfolding round_even_def Let_def by (auto split: if_splits)
qed

lemma round_even_of_int [simp]: "round_even (of_int n) = n"
  by (simp add: round_even_def)

lemma rnd_0 [simp]: "rnd 0 = 0"
  by (simp add: rnd_def)

lemma rnd_pos: "0 < x \<Longrightarrow> rnd x = of_int (round_even (x / 2 powi (exponent x - 52))) * 2 powi (exponent x - 52)"
  by (simp add: rnd_def Let_def)

lemma rnd_err:
  assumes "0 \<le> x" "x < 2 powi k"
  shows "\<bar>rnd x - x\<bar> \<le> 2 powi (k - 54)"
proof (cases "x = 0")
  case False
  let ?u = "(2 :: rat) powi (exponent x - 52)"
  have x: "0 < x" using False assms(1) by simp
  have "rnd x - x = (of_int (round_even (x / ?u)) - x / ?u) * ?u" by (simp add: rnd_pos [OF x] left_diff_distrib)
  then have "\<bar>rnd x - x\<bar> = \<bar>of_int (round_even (x / ?u)) - x / ?u\<bar> * ?u" by (simp add: abs_mult)
  also have "\<dots> \<le> 1 / 2 * ?u" by (intro mult_right_mono round_even_err) simp
  also have "\<dots> = 2 powi (exponent x - 53)"
    using power_int_add [of "2 :: rat" "exponent x - 53" 1] by simp
  also have "\<dots> \<le> 2 powi (k - 54)"
    using exponent_less [OF x assms(2)] by (intro power_int_increasing) auto
  finally show ?thesis .
qed simp

lemma grid_int:
  assumes "E \<le> 52"
  shows "\<exists>k. (of_int n :: rat) = of_int k * 2 powi (E - 52)"
proof -
  have "(of_int (n * 2 ^ nat (52 - E)) :: rat) = of_int n * 2 powi (52 - E)"
    using assms by (simp add: power_int_nonneg_exp)
  then have "of_int (n * 2 ^ nat (52 - E)) * (2 :: rat) powi (E - 52) = of_int n * (2 powi (52 - E) * 2 powi (E - 52))"
    by (simp only: mult.assoc)
  also have "(2 :: rat) powi (52 - E) * 2 powi (E - 52) = 1" by (simp add: power_int_add [symmetric])
  finally show ?thesis by (metis mult.right_neutral)
qed

lemma rnd_of_int:
  assumes "0 \<le> n" "n < 2 ^ 53"
  shows "rnd (of_int n) = of_int n"
proof (cases "n = 0")
  case False
  then have n: "(0 :: rat) < of_int n" using assms(1) by simp
  have "(of_int n :: rat) < of_int (2 ^ 53)" unfolding of_int_less_iff by (rule assms(2))
  then have "exponent (of_int n) < 53" by (intro exponent_less n) simp
  then obtain k where k: "(of_int n :: rat) = of_int k * 2 powi (exponent (of_int n) - 52)"
    using grid_int [of "exponent (of_int n)" n] by auto
  have "(of_int n :: rat) / 2 powi (exponent (of_int n) - 52) = of_int k" by (subst k) simp
  then show ?thesis unfolding rnd_pos [OF n] by (simp add: k [symmetric])
qed simp

text \<open>Neighbours of an integer on the grid of floats of one exponent.\<close>

lemma grid_less:
  assumes "(of_int j :: rat) * g < of_int k * g" "0 < g"
  shows "of_int j * g + g \<le> of_int k * g"
proof -
  have "j + 1 \<le> k" using assms by (simp add: mult_less_cancel_right_pos)
  then have "(of_int (j + 1) :: rat) * g \<le> of_int k * g" using assms(2) by (intro mult_right_mono) auto
  then show ?thesis by (simp add: distrib_right)
qed

section \<open>Whole units\<close>

text \<open>A rational that is an integer or clearly between two.\<close>

definition near :: "int \<Rightarrow> rat \<Rightarrow> bool" where
  "near n y \<longleftrightarrow> y = of_int n \<or> of_int n + 1 / 20000000000000 \<le> y \<and> y \<le> of_int n + 1 - 1 / 20000000000000"

lemma near_floor: "near n y \<Longrightarrow> \<lfloor>y\<rfloor> = n"
  by (auto simp: near_def floor_eq_iff)

lemma near_diff: "near n y \<Longrightarrow> near (n - k) (y - of_int k)"
  by (auto simp: near_def)

lemma near_rnd:
  assumes "near n y" "0 \<le> n" "n < 60"
  shows "\<lfloor>rnd y\<rfloor> = n"
proof (cases "y = of_int n")
  case True
  then show ?thesis using assms by (simp add: rnd_of_int)
next
  case False
  then have y: "of_int n + 1 / 20000000000000 \<le> y" "y \<le> of_int n + 1 - 1 / 20000000000000"
    using assms(1) by (auto simp: near_def)
  have n: "0 \<le> (of_int n :: rat)" "(of_int n :: rat) \<le> 59" using assms(2,3) by (simp_all add: of_int_le_iff [where z = 59, simplified])
  have "\<bar>rnd y - y\<bar> \<le> 2 powi (6 - 54)" by (rule rnd_err) (use y n in auto)
  then have "\<bar>rnd y - y\<bar> < 1 / 20000000000000" by (rule le_less_trans) (simp add: power_int_minus)
  then have "- (1 / 20000000000000) < rnd y - y" "rnd y - y < 1 / 20000000000000" by (simp_all only: abs_less_iff) linarith
  then show ?thesis using y unfolding floor_eq_iff by (intro conjI) linarith+
qed

lemma to_int64_nonneg: "0 \<le> x \<Longrightarrow> to_int64 x = \<lfloor>x\<rfloor>"
  by (simp add: to_int64_def)

lemma near_nonneg: "near n y \<Longrightarrow> 0 \<le> n \<Longrightarrow> 0 \<le> y"
  by (metis near_floor zero_le_floor)

lemma to_int64_near: "near n y \<Longrightarrow> 0 \<le> n \<Longrightarrow> to_int64 y = n"
  by (simp add: to_int64_nonneg near_nonneg near_floor)

text \<open>A duration in a unit: the floats of its whole and fractional part, added. The grid of the sum is kept
  for the division into days.\<close>

lemma in_unit_eq:
  assumes "0 < u" "0 \<le> age"
  shows "in_unit u age = rnd (of_int (age div u) + rnd (of_int (age mod u) / of_int u))"
  using assms by (simp add: in_unit_def quot_def go_rem_def minus_div_mult_eq_mod)

lemma fraction_bounds:
  assumes "0 < u" "u \<le> 3600000000000" "age mod u \<noteq> 0"
  shows "1 / 3600000000000 \<le> (of_int (age mod u) / of_int u :: rat)"
    "of_int (age mod u) / of_int u \<le> (1 - 1 / 3600000000000 :: rat)"
proof -
  let ?f = "of_int (age mod u) / of_int u :: rat"
  have "1 \<le> age mod u" "age mod u \<le> u - 1"
    using assms pos_mod_bound [of u age] pos_mod_sign [of u age] by linarith+
  then have "(of_int 1 :: rat) \<le> of_int (age mod u)" "(of_int (age mod u) :: rat) \<le> of_int (u - 1)"
    unfolding of_int_le_iff by simp_all
  then have m: "1 \<le> (of_int (age mod u) :: rat)" "(of_int (age mod u) :: rat) \<le> of_int u - 1" by simp_all
  have u: "0 < (of_int u :: rat)" using assms(1) by simp
  have "(of_int u :: rat) \<le> of_int 3600000000000" unfolding of_int_le_iff by (rule assms(2))
  then have "1 / 3600000000000 \<le> 1 / (of_int u :: rat)" using u by (intro divide_left_mono) auto
  moreover have "1 / of_int u \<le> ?f" using m(1) u by (intro divide_right_mono) auto
  moreover have "?f \<le> (of_int u - 1) / of_int u" using m(2) u by (intro divide_right_mono) auto
  moreover have "(of_int u - 1) / of_int u = 1 - 1 / (of_int u :: rat)" using u by (simp add: diff_divide_distrib)
  ultimately show "1 / 3600000000000 \<le> ?f" "?f \<le> 1 - 1 / 3600000000000" by linarith+
qed

lemma rnd_near_sum:
  fixes f :: rat
  assumes "0 \<le> n" "n < 4096" "1 / 3600000000000 \<le> f" "f \<le> 1 - 1 / 3600000000000"
  shows "near n (rnd (of_int n + rnd f))"
proof -
  have "\<bar>rnd f - f\<bar> \<le> 2 powi (0 - 54)" by (rule rnd_err) (use assms(3,4) in simp_all)
  then have "\<bar>rnd f - f\<bar> \<le> 1 / 18014398509481984" by (simp add: power_int_minus)
  then have f: "f - 1 / 18014398509481984 \<le> rnd f" "rnd f \<le> f + 1 / 18014398509481984"
    unfolding abs_le_iff by linarith+
  have n: "0 \<le> (of_int n :: rat)" "(of_int n :: rat) \<le> of_int 4095" unfolding of_int_le_iff using assms(1,2) by simp_all
  have x: "0 \<le> of_int n + rnd f" "of_int n + rnd f < 4096" using f assms(3,4) n by simp_all
  have "\<bar>rnd (of_int n + rnd f) - (of_int n + rnd f)\<bar> \<le> 2 powi (12 - 54)"
    by (rule rnd_err [OF x(1)]) (simp add: x(2))
  then have "\<bar>rnd (of_int n + rnd f) - (of_int n + rnd f)\<bar> \<le> 1 / 4398046511104" by (simp add: power_int_minus)
  then have "of_int n + rnd f - 1 / 4398046511104 \<le> rnd (of_int n + rnd f)"
    "rnd (of_int n + rnd f) \<le> of_int n + rnd f + 1 / 4398046511104" unfolding abs_le_iff by linarith+
  then show ?thesis unfolding near_def using f assms(3,4) by (intro disjI2 conjI) linarith+
qed

lemma in_unit_near:
  assumes "0 < u" "u \<le> 3600000000000" "0 \<le> age" "age div u < 4096"
  shows "near (age div u) (in_unit u age)"
proof -
  have n: "0 \<le> age div u" using assms(1,3) by (simp add: pos_imp_zdiv_nonneg_iff)
  show ?thesis
  proof (cases "age mod u = 0")
    case True
    then show ?thesis using n assms by (simp add: in_unit_eq near_def rnd_of_int)
  next
    case False
    show ?thesis unfolding in_unit_eq [OF assms(1,3)]
      by (rule rnd_near_sum [OF n assms(4) fraction_bounds [OF assms(1,2) False]])
  qed
qed

section \<open>Days\<close>

text \<open>The division of a float by 24: a float below a multiple of 24 is so far below it that the quotient does
  not round up to it.\<close>

lemma rnd_grid: "0 < x \<Longrightarrow> \<exists>k. rnd x = of_int k * 2 powi (exponent x - 52)"
  using rnd_pos by blast

lemma days_rnd_err:
  assumes g: "g = (2 :: rat) powi (E - 52)" and E: "0 \<le> E" "E \<le> 12"
    and y: "of_int n \<le> y" "y < of_int n + 1" "0 \<le> n" "n < 2 ^ nat (E + 1)"
  shows "\<bar>rnd (y / 24) - y / 24\<bar> \<le> g / 32"
proof -
  have e: "(2 :: rat) powi (E - 3 - 54) = g / 32"
    using power_int_add [of "2 :: rat" "E - 57" 5] by (simp add: g)
  have "(of_int (n + 1) :: rat) \<le> of_int (2 ^ nat (E + 1))" unfolding of_int_le_iff using y(4) by simp
  then have "y < 2 powi (E + 1)" using y(2) E by (simp add: power_int_nonneg_exp)
  also have "\<dots> = 2 powi (E - 3) * 16" using power_int_add [of "2 :: rat" "E - 3" 4] by (simp add: add.commute)
  finally have "y < 2 powi (E - 3) * 16" .
  moreover have "0 < (2 :: rat) powi (E - 3)" "0 \<le> (of_int n :: rat)" using y(3) by simp_all
  ultimately have "y / 24 < 2 powi (E - 3)" "0 \<le> y / 24" using y(1) by simp_all
  then show ?thesis using rnd_err [of "y / 24" "E - 3"] by (simp only: e)
qed

lemma days_grid:
  assumes g: "g = (2 :: rat) powi (E - 52)" and E: "0 \<le> E" "E \<le> 12"
    and y: "y = of_int j * g" "near n y" "0 \<le> n" "n < 2 ^ nat (E + 1)"
  shows "\<lfloor>rnd (y / 24)\<rfloor> = n div 24"
proof -
  have g0: "0 < g" by (simp add: g)
  have lo: "of_int n \<le> y" and hi: "y < of_int n + 1" using y(2) by (auto simp: near_def)
  define D where "D = n div 24"
  have D: "24 * D \<le> n" "n + 1 \<le> 24 * (D + 1)" "0 \<le> D"
    using y(3) by (simp_all add: D_def)
  have grid: "\<exists>k. (of_int m :: rat) = of_int k * g" for m using grid_int [of E m] E by (simp add: g)
  obtain a where a: "(of_int (24 * (D + 1)) :: rat) = of_int a * g" using grid by blast
  obtain b where b: "(of_int (24 * D) :: rat) = of_int b * g" using grid by blast
  have "(of_int (n + 1) :: rat) \<le> of_int (24 * (D + 1))" unfolding of_int_le_iff by (rule D(2))
  then have "of_int j * g < of_int a * g" using hi y(1) a by simp
  from grid_less [OF this g0] have up: "y + g \<le> of_int (24 * (D + 1))" unfolding y(1) a .
  have "(of_int (24 * D) :: rat) \<le> of_int n" unfolding of_int_le_iff by (rule D(1))
  then have "of_int b * g \<le> of_int j * g" using lo unfolding y(1) b by linarith
  then have low: "y = of_int (24 * D) \<or> of_int (24 * D) + g \<le> y"
    using grid_less [of b g j, OF _ g0] unfolding y(1) b by linarith
  have r: "y / 24 - g / 32 \<le> rnd (y / 24)" "rnd (y / 24) \<le> y / 24 + g / 32"
    using days_rnd_err [OF g E lo hi y(3,4)] unfolding abs_le_iff by linarith+
  have "rnd (y / 24) < of_int D + 1" using r(2) up g0 by simp
  moreover have "of_int D \<le> rnd (y / 24)"
  proof (cases "y = of_int (24 * D)")
    case True
    then have "y / 24 = of_int D" by simp
    moreover have "D < 2 ^ 53"
    proof -
      have "(2 :: int) ^ nat (E + 1) \<le> 2 ^ 13" using E by (intro power_increasing) auto
      then show ?thesis using D(1,3) y(4) by simp
    qed
    ultimately show ?thesis using D(3) by (simp add: rnd_of_int)
  next
    case False
    then show ?thesis using r(1) low g0 by simp
  qed
  ultimately show ?thesis by (simp add: floor_eq_iff D_def)
qed

lemma rnd_nonneg:
  assumes "0 \<le> x"
  shows "0 \<le> rnd x"
proof (cases "x = 0")
  case False
  then have x: "0 < x" using assms by simp
  have "0 \<le> \<lfloor>x / 2 powi (exponent x - 52)\<rfloor>" using x by simp
  then have "0 \<le> round_even (x / 2 powi (exponent x - 52))" unfolding round_even_def Let_def by (simp split: if_splits)
  then show ?thesis unfolding rnd_pos [OF x] by simp
qed simp

lemma whole_days:
  assumes "0 \<le> age" "1 \<le> age div 3600000000000" "age div 3600000000000 < 4096"
  shows "\<lfloor>rnd (Hours age / 24)\<rfloor> = age div 3600000000000 div 24"
proof -
  define n f where "n = age div 3600000000000" and "f = (of_int (age mod 3600000000000) :: rat) / of_int 3600000000000"
  define x where "x = of_int n + rnd f"
  have y: "Hours age = rnd x" unfolding x_def n_def f_def Hours_def using assms(1) by (rule in_unit_eq [rotated]) simp
  have "0 \<le> age mod 3600000000000" "age mod 3600000000000 < 3600000000000" by simp_all
  then have "(0 :: rat) \<le> of_int (age mod 3600000000000)"
    "of_int (age mod 3600000000000) < (of_int 3600000000000 :: rat)" by (simp_all only: of_int_0_le_iff of_int_less_iff)
  then have f: "0 \<le> f" "f < 1" by (simp_all add: f_def)
  have "\<bar>rnd f - f\<bar> \<le> 2 powi (0 - 54)" by (rule rnd_err) (use f in simp_all)
  also have "(2 :: rat) powi (0 - 54) \<le> 1" by (simp add: power_int_minus)
  finally have r: "0 \<le> rnd f" "rnd f \<le> 2" using rnd_nonneg [OF f(1)] f unfolding abs_le_iff by linarith+
  have "(of_int 1 :: rat) \<le> of_int n" "(of_int n :: rat) \<le> of_int 4095"
    unfolding of_int_le_iff using assms(2,3) by (simp_all add: n_def)
  then have x: "1 \<le> x" "x < 2 powi 13" "of_int n \<le> x" using r by (simp_all add: x_def)
  then have x0: "0 < x" by simp
  have hi: "x < 2 powi (exponent x + 1)" by (rule exponent_bounds(2) [OF x0])
  have E: "0 \<le> exponent x"
  proof (rule ccontr)
    assume "\<not> 0 \<le> exponent x"
    then have "(2 :: rat) powi (exponent x + 1) \<le> 2 powi 0" by (intro power_int_increasing) auto
    with hi x(1) show False by simp
  qed
  have "of_int n < (2 :: rat) powi (exponent x + 1)" using x(3) hi by linarith
  also have "\<dots> = of_int (2 ^ nat (exponent x + 1))" using E by (simp add: power_int_nonneg_exp)
  finally have n: "n < 2 ^ nat (exponent x + 1)" unfolding of_int_less_iff .
  obtain j where j: "rnd x = of_int j * 2 powi (exponent x - 52)" using rnd_grid [OF x0] ..
  have "near n (rnd x)"
    unfolding y [symmetric] n_def Hours_def by (rule in_unit_near) (use assms in simp_all)
  from days_grid [OF refl E _ j this _ n] show ?thesis
    using exponent_less [OF x0 x(2)] assms(2) by (simp add: y n_def)
qed

lemma to_int64_rnd: "near n y \<Longrightarrow> 0 \<le> n \<Longrightarrow> n < 60 \<Longrightarrow> to_int64 (rnd y) = n"
  by (simp add: to_int64_nonneg rnd_nonneg near_nonneg near_rnd)

lemma to_int64_rnd_diff:
  assumes "near n y" "0 \<le> n" "k \<le> 60" "0 < k"
  shows "to_int64 (rnd (y - of_int (n div k * k))) = n mod k"
proof -
  have "n - n div k * k = n mod k" by (simp add: minus_div_mult_eq_mod)
  then have "near (n mod k) (y - of_int (n div k * k))" using near_diff [OF assms(1), of "n div k * k"] by simp
  moreover have "0 \<le> n mod k" "n mod k < 60" using assms(3) pos_mod_sign [OF assms(4), of n] pos_mod_bound [OF assms(4), of n] by linarith+
  ultimately show ?thesis by (rule to_int64_rnd)
qed

lemma int_div_less: "0 < b \<Longrightarrow> a div b < k \<longleftrightarrow> a < k * b" for a b k :: int
proof
  assume b: "0 < b" and "a div b < k"
  then have "(a div b + 1) * b \<le> k * b" by (intro mult_right_mono) auto
  moreover have "a < (a div b + 1) * b"
    unfolding distrib_right using pos_mod_bound [OF b, of a] div_mult_mod_eq [of a b] by linarith
  ultimately show "a < k * b" by simp
next
  assume b: "0 < b" and "a < k * b"
  show "a div b < k"
  proof (rule ccontr)
    assume "\<not> a div b < k"
    then have "k * b \<le> a div b * b" using b by (intro mult_right_mono) auto
    also have "\<dots> \<le> a" using pos_mod_sign [OF b, of a] div_mult_mod_eq [of a b] by linarith
    finally show False using \<open>a < k * b\<close> by simp
  qed
qed

lemma int_less_div: "0 < b \<Longrightarrow> k \<le> a div b \<longleftrightarrow> k * b \<le> a" for a b k :: int
  using int_div_less [of b a k] by linarith

lemma days_and_hours:
  assumes "0 \<le> age" "86400000000000 \<le> age" "age < 4096 * 3600000000000"
  shows "to_int64 (rnd (Hours age / 24)) = age div 3600000000000 div 24"
    "to_int64 (rnd (Hours age - rnd (of_int (age div 3600000000000 div 24) * 24))) = age div 3600000000000 mod 24"
proof -
  define n where "n = age div 3600000000000"
  have n: "1 \<le> n" "n < 4096" using assms by (simp_all add: n_def int_div_less int_less_div)
  then have n0: "0 \<le> n" "0 \<le> n div 24" by simp_all
  have y: "near n (Hours age)" unfolding Hours_def n_def by (rule in_unit_near) (use assms n in \<open>simp_all add: n_def\<close>)
  have "\<lfloor>rnd (Hours age / 24)\<rfloor> = n div 24" unfolding n_def by (rule whole_days) (use assms(1) n in \<open>simp_all add: n_def\<close>)
  then show "to_int64 (rnd (Hours age / 24)) = age div 3600000000000 div 24"
    using near_nonneg [OF y n0(1)] by (simp add: to_int64_nonneg rnd_nonneg n_def)
  have "n div 24 * 24 < 2 ^ 53" using n(2) div_mult_mod_eq [of n 24] by simp
  then have "rnd (of_int (n div 24) * 24) = of_int (n div 24 * 24)"
    using rnd_of_int [of "n div 24 * 24"] n0(2) by simp
  moreover have "to_int64 (rnd (Hours age - of_int (n div 24 * 24))) = n mod 24"
    by (rule to_int64_rnd_diff [OF y n0(1)]) simp_all
  ultimately show "to_int64 (rnd (Hours age - rnd (of_int (age div 3600000000000 div 24) * 24))) = age div 3600000000000 mod 24"
    unfolding n_def by (simp only:)
qed

section \<open>The age of a resource\<close>

lemma units_near:
  assumes "0 \<le> a"
  shows "a div 1000000000 < 4096 \<Longrightarrow> near (a div 1000000000) (Seconds a)"
    "a div 60000000000 < 4096 \<Longrightarrow> near (a div 60000000000) (Minutes a)"
    "a div 3600000000000 < 4096 \<Longrightarrow> near (a div 3600000000000) (Hours a)"
  unfolding Seconds_def Minutes_def Hours_def by (rule in_unit_near; use assms in simp)+

text \<open>Claim C22: The age of a resource is shown exactly. For a non-negative age below 4096 hours (170 days) the
  floating point computation gives the whole seconds, minutes and seconds, hours and minutes, or days
  and hours of the age, rounded down.\<close>

theorem FormatAge_exact:
  assumes "0 \<le> sint age" "sint age < 4096 * 3600000000000"
  shows "FormatAge age = (let s = sint age div 1000000000 in
     if s < 60 then Itoa s @ ''s''
     else if s < 3600 then Itoa (s div 60) @ ''m'' @ Itoa (s mod 60) @ ''s''
     else if s < 86400 then Itoa (s div 3600) @ ''h'' @ Itoa (s div 60 mod 60) @ ''m''
     else Itoa (s div 86400) @ ''d'' @ Itoa (s div 3600 mod 24) @ ''h'')"
proof -
  define a s where "a = sint age" and "s = a div 1000000000"
  have a: "0 \<le> a" "a < 4096 * 3600000000000" using assms by (simp_all add: a_def)
  have s: "0 \<le> s" using a(1) by (simp add: s_def)
  have c: "a < 60000000000 \<longleftrightarrow> s < 60" "a < 3600000000000 \<longleftrightarrow> s < 3600" "a < 86400000000000 \<longleftrightarrow> s < 86400"
    unfolding s_def by (simp_all add: int_div_less)
  have q: "a div 60000000000 = s div 60" "a div 3600000000000 = s div 3600" "s div 86400 = s div 3600 div 24"
    "s div 3600 = s div 60 div 60" unfolding s_def by (simp_all flip: zdiv_zmult2_eq)
  have "s div 3600 < 4096" using a(2) unfolding q(2) [symmetric] by (simp add: int_div_less)
  then have secs: "s < 4096 \<Longrightarrow> near s (Seconds a)" and mins: "s div 60 < 4096 \<Longrightarrow> near (s div 60) (Minutes a)"
    and hrs: "near (s div 3600) (Hours a)"
    using units_near [OF a(1)] unfolding q(1,2) s_def [symmetric] by blast+
  have nn: "0 \<le> s div 60" "0 \<le> s div 3600" "0 \<le> s div 3600 div 24" using s by (simp_all add: pos_imp_zdiv_nonneg_iff)
  consider "s < 60" | "60 \<le> s" "s < 3600" | "3600 \<le> s" "s < 86400" | "86400 \<le> s" by linarith
  then have "FormatAge age = (if s < 60 then Itoa s @ ''s''
     else if s < 3600 then Itoa (s div 60) @ ''m'' @ Itoa (s mod 60) @ ''s''
     else if s < 86400 then Itoa (s div 3600) @ ''h'' @ Itoa (s div 60 mod 60) @ ''m''
     else Itoa (s div 86400) @ ''d'' @ Itoa (s div 3600 mod 24) @ ''h'')"
  proof cases
    case 1
    then show ?thesis unfolding FormatAge_def a_def [symmetric] Let_def c using s secs by (simp add: to_int64_near)
  next
    case 2
    then have "s div 60 < 4096" by (simp add: int_div_less)
    with 2 have "to_int64 (Minutes a) = s div 60"
      "to_int64 (rnd (Seconds a - of_int (s div 60 * 60))) = s mod 60"
      using mins secs s nn by (simp_all only: to_int64_near to_int64_rnd_diff)
    then show ?thesis unfolding FormatAge_def a_def [symmetric] Let_def c using 2 by simp
  next
    case 3
    then have "s div 60 < 4096" by (simp add: int_div_less)
    from to_int64_rnd_diff [OF mins [OF this] nn(1), of 60]
    have "to_int64 (rnd (Minutes a - of_int (s div 3600 * 60))) = s div 60 mod 60" by (simp add: q(4))
    with to_int64_near [OF hrs nn(2)] show ?thesis unfolding FormatAge_def a_def [symmetric] Let_def c using 3 by simp
  next
    case 4
    from days_and_hours [OF a(1)] a(2) 4 show ?thesis
      unfolding FormatAge_def a_def [symmetric] Let_def c q(3) q(2) [symmetric] by (simp add: s_def int_less_div int_div_less)
  qed
  then show ?thesis unfolding Let_def a_def [symmetric] s_def [symmetric] .
qed

theorem FormatAge_exact_witness: "FormatAge 90061000000001 = ''1d1h''"
proof -
  have i: "Itoa 1 = ''1''" by code_simp
  show ?thesis using FormatAge_exact [of 90061000000001] by (simp add: i)
qed

end
