(* ===== verification/KubeResources.thy ===== *)
theory KubeResources
  imports Exec KubeTypes GoJson Age
begin

text \<open>
  The resource tools of the Kubernetes server: \<^verbatim>\<open>pkg/kubernetes/client/resources.go\<close>,
  \<^verbatim>\<open>pkg/kubernetes/mcp/resources.go\<close> and the types they use. The discovery, mapping and dynamic clients
  of client-go are the record \<open>dynamic_api\<close>; an unstructured object is its JSON content, and reading
  its metadata, encoding it and evaluating a JSONPath template are the record \<open>object_lib\<close>.
\<close>

section \<open>Objects and clients\<close>

record 'w object_lib =
  GetName :: "json \<Rightarrow> string"
  GetNamespace :: "json \<Rightarrow> string"
  GetLabels :: "json \<Rightarrow> (string \<times> string) list"
  GetAnnotations :: "json \<Rightarrow> (string \<times> string) list"
  Since :: "json \<Rightarrow> 'w \<Rightarrow> duration"
  MarshalJSON :: "json \<Rightarrow> string result"
  MarshalYAML :: "json \<Rightarrow> string result"
  jsonpath_Parse :: "string \<Rightarrow> err option"
  jsonpath_Execute :: "string \<Rightarrow> json \<Rightarrow> string result"

record GroupVersionResource =
  gvr_Group :: string
  gvr_Version :: string
  gvr_Resource :: string

record UnstructuredList =
  Items :: "json list"
  ListContent :: json

record 'w dynamic_api =
  ServerResources :: "string \<Rightarrow> string \<Rightarrow> ('w, (string \<times> bool) list) effect"
  RESTMapping :: "string \<Rightarrow> string \<Rightarrow> string \<Rightarrow> ('w, GroupVersionResource) effect"
  dyn_Get :: "Context \<Rightarrow> GroupVersionResource \<Rightarrow> string \<Rightarrow> string \<Rightarrow> ('w, json) effect"
  dyn_List :: "Context \<Rightarrow> GroupVersionResource \<Rightarrow> string \<Rightarrow> string \<Rightarrow> ('w, UnstructuredList) effect"
  gvString :: "string \<Rightarrow> string \<Rightarrow> string"
  gvkString :: "string \<Rightarrow> string \<Rightarrow> string \<Rightarrow> string"
  gvrString :: "GroupVersionResource \<Rightarrow> string"

section \<open>Client operations\<close>

definition serverResources_msg :: string where
  "serverResources_msg = ''failed to fetch server resources for group version %s: %w''"
definition namespaced_msg :: string where
  "namespaced_msg = ''failed to check if resource %s is namespaced: %w''"
definition mapping_failed_msg :: string where
  "mapping_failed_msg = ''failed to get REST mapping for resource %s: %w''"
definition fetch_msg :: string where
  "fetch_msg = ''failed to fetch resource %s with name %s and namespace %s: %w''"
definition list_msg :: string where
  "list_msg = ''failed to list resources %s with namespace %s and label selector %s: %w''"

definition isNamespaced :: "'w dynamic_api \<Rightarrow> string \<Rightarrow> string \<Rightarrow> string \<Rightarrow> ('w, bool) effect" where
  "isNamespaced c grp version kind w =
     (case ServerResources c grp version w of
        (Inl e, w1) \<Rightarrow> (Inl (Errorf serverResources_msg [FStr (gvString c grp version), FErr e]), w1)
      | (Inr resources, w1) \<Rightarrow>
          (Inr (case find (\<lambda>(k, _). k = kind) resources of Some (_, namespaced) \<Rightarrow> namespaced | None \<Rightarrow> False), w1))"

definition client_getResource ::
  "'w dynamic_api \<Rightarrow> Context \<Rightarrow> GroupVersionResource \<Rightarrow> string \<Rightarrow> string \<Rightarrow> ('w, json) effect" where
  "client_getResource c ctx gvr resourceName namespace w =
     (case dyn_Get c ctx gvr namespace resourceName w of
        (Inl e, w1) \<Rightarrow> (Inl (Errorf fetch_msg [FStr (gvrString c gvr), FStr resourceName, FStr namespace, FErr e]), w1)
      | (Inr resource, w1) \<Rightarrow> (Inr resource, w1))"

definition mapped ::
  "'w dynamic_api \<Rightarrow> string \<Rightarrow> string \<Rightarrow> string \<Rightarrow> (GroupVersionResource \<Rightarrow> ('w, 'a) effect) \<Rightarrow> ('w, 'a) effect" where
  \<comment> \<open>the REST mapping of a kind, then the request on its resource\<close>
  "mapped c grp version kind f w =
     (case RESTMapping c grp kind version w of
        (Inl e, w1) \<Rightarrow> (Inl (Errorf mapping_failed_msg [FStr (gvkString c grp version kind), FErr e]), w1)
      | (Inr gvr, w1) \<Rightarrow> f gvr w1)"

definition client_GetResource ::
  "'w dynamic_api \<Rightarrow> Context \<Rightarrow> string \<Rightarrow> string \<Rightarrow> string \<Rightarrow> string \<Rightarrow> string \<Rightarrow> ('w, json) effect" where
  "client_GetResource c ctx grp version kind resourceName namespace w =
     (case (if namespace = [] then
              (case isNamespaced c grp version kind w of
                 (Inl e, w1) \<Rightarrow> (Inl (Errorf namespaced_msg [FStr (gvkString c grp version kind), FErr e]), w1)
               | (Inr b, w1) \<Rightarrow> (Inr (if b then ''default'' else []), w1))
            else (Inr namespace, w)) of
        (Inl e, w1) \<Rightarrow> (Inl e, w1)
      | (Inr ns, w1) \<Rightarrow>
          mapped c grp version kind (\<lambda>gvr. client_getResource c ctx gvr resourceName ns) w1)"

definition client_listResources ::
  "'w dynamic_api \<Rightarrow> Context \<Rightarrow> GroupVersionResource \<Rightarrow> string \<Rightarrow> string \<Rightarrow> ('w, UnstructuredList) effect" where
  "client_listResources c ctx gvr namespace labelSelector w =
     (case dyn_List c ctx gvr namespace labelSelector w of
        (Inl e, w1) \<Rightarrow> (Inl (Errorf list_msg [FStr (gvrString c gvr), FStr namespace, FStr labelSelector, FErr e]), w1)
      | (Inr resources, w1) \<Rightarrow> (Inr resources, w1))"

definition client_ListResources ::
  "'w dynamic_api \<Rightarrow> Context \<Rightarrow> string \<Rightarrow> string \<Rightarrow> string \<Rightarrow> string \<Rightarrow> string \<Rightarrow> ('w, UnstructuredList) effect" where
  "client_ListResources c ctx grp version kind namespace labelSelector w =
     mapped c grp version kind (\<lambda>gvr. client_listResources c ctx gvr namespace labelSelector) w"

section \<open>Results\<close>

record Resource =
  rs_Name :: string
  rs_Namespace :: string
  rs_Age :: string
  rs_Labels :: "(string \<times> string) list"
  rs_Annotations :: "(string \<times> string) list"
  rs_Data :: string

definition zero_Resource :: Resource where
  "zero_Resource = \<lparr>rs_Name = [], rs_Namespace = [], rs_Age = [], rs_Labels = [], rs_Annotations = [], rs_Data = []\<rparr>"

definition ToJSON :: "'w object_lib \<Rightarrow> Resource \<Rightarrow> json \<Rightarrow> Resource result" where
  "ToJSON lib j data = (case MarshalJSON lib data of Inl e \<Rightarrow> Inl e | Inr t \<Rightarrow> Inr (j\<lparr>rs_Data := t\<rparr>))"

definition ToYAML :: "'w object_lib \<Rightarrow> Resource \<Rightarrow> json \<Rightarrow> Resource result" where
  "ToYAML lib j data = (case MarshalYAML lib data of Inl e \<Rightarrow> Inl e | Inr t \<Rightarrow> Inr (j\<lparr>rs_Data := t\<rparr>))"

definition jsonpathExec_msg :: string where
  "jsonpathExec_msg = ''failed to execute jsonpath template %s, error: %w''"

definition ToJSONPath :: "'w object_lib \<Rightarrow> Resource \<Rightarrow> string \<Rightarrow> json \<Rightarrow> Resource result" where
  "ToJSONPath lib j template data = (case jsonpath_Parse lib template of
       Some e \<Rightarrow> Inl e
     | None \<Rightarrow> (case jsonpath_Execute lib template data of
         Inl e \<Rightarrow> Inl (Errorf jsonpathExec_msg [FStr template, FErr e])
       | Inr t \<Rightarrow> Inr (j\<lparr>rs_Data := t\<rparr>)))"

definition GetResourceData :: "'w object_lib \<Rightarrow> Resource \<Rightarrow> json \<Rightarrow> bool \<Rightarrow> 'w \<Rightarrow> Resource" where
  "GetResourceData lib r resource isDetailed w =
     (let r1 = r\<lparr>rs_Name := GetName lib resource, rs_Namespace := GetNamespace lib resource,
            rs_Age := FormatAge (Since lib resource w)\<rparr>
      in if isDetailed then r1\<lparr>rs_Labels := GetLabels lib resource, rs_Annotations := GetAnnotations lib resource\<rparr>
         else r1)"

section \<open>Handlers\<close>

record GetResourceParams =
  grp_Group :: string
  grp_Version :: string
  grp_Kind :: string
  grp_Get :: GetParams

record ListResourcesParams =
  lrp_Group :: string
  lrp_Version :: string
  lrp_Kind :: string
  lrp_List :: ListParams

definition require :: "string \<Rightarrow> err \<Rightarrow> err option \<Rightarrow> err option" where
  \<comment> \<open>a missing field joins its error to those before it\<close>
  "require v e acc = (if v = [] then Some (errors_Join acc e) else acc)"

definition require_output :: "'w object_lib \<Rightarrow> OutputParams \<Rightarrow> err option \<Rightarrow> err option" where
  "require_output lib p acc = (case ValidateOutputParams (jsonpath_Parse lib) p of
       None \<Rightarrow> acc
     | Some e \<Rightarrow> Some (errors_Join acc e))"

definition required_version :: "string \<Rightarrow> err option" where
  "required_version v = (if v = [] then Some (Errorf ''version is required'' []) else None)"

definition kindRequired :: err where "kindRequired = Errorf ''kind is required'' []"
definition nameRequired :: err where "nameRequired = Errorf ''name is required'' []"

definition kube_GetResource ::
  "'w object_lib \<Rightarrow> 'w dynamic_api \<Rightarrow> Context \<Rightarrow> GetResourceParams \<Rightarrow> 'w \<Rightarrow> Resource handler_ret \<times> 'w" where
  "kube_GetResource lib c ctx inp w =
     (let g = grp_Get inp; ot = OutputType (gp_OutputParams g) in
      case require_output lib (gp_OutputParams g) (require (gp_Name g) nameRequired
             (require (grp_Kind inp) kindRequired (required_version (grp_Version inp)))) of
        Some e \<Rightarrow> ((zero_Resource, Some e), w)
      | None \<Rightarrow>
     (case client_GetResource c ctx (grp_Group inp) (grp_Version inp) (grp_Kind inp) (gp_Name g) (gp_Namespace g) w of
        (Inl e, w1) \<Rightarrow> ((zero_Resource, Some e), w1)
      | (Inr resource, w1) \<Rightarrow>
          (case (if ot = JSONOutputType then ToJSON lib zero_Resource resource
                 else if ot = YAMLOutputType then ToYAML lib zero_Resource resource
                 else (case CutPrefix ot (JSONPathOutputType @ ''='') of
                     Some template \<Rightarrow> ToJSONPath lib zero_Resource template resource
                   | None \<Rightarrow> Inr (GetResourceData lib zero_Resource resource (ot = WideOutputType) w1))) of
             Inl e \<Rightarrow> ((zero_Resource, Some e), w1)
           | Inr r \<Rightarrow> ((r, None), w1))))"

text \<open>The loop over the items; the first error ends it.\<close>

fun resources_loop :: "'w object_lib \<Rightarrow> string \<Rightarrow> json list \<Rightarrow> 'w \<Rightarrow> Resource list result" where
  "resources_loop lib ot [] w = Inr []"
| "resources_loop lib ot (resource # rs) w =
     (case (if ot = JSONOutputType then ToJSON lib zero_Resource resource
            else if ot = YAMLOutputType then ToYAML lib zero_Resource resource
            else Inr (GetResourceData lib zero_Resource resource (ot = WideOutputType) w)) of
        Inl e \<Rightarrow> Inl e
      | Inr r \<Rightarrow> (case resources_loop lib ot rs w of Inl e \<Rightarrow> Inl e | Inr out \<Rightarrow> Inr (r # out)))"

definition kube_ListResources ::
  "'w object_lib \<Rightarrow> 'w dynamic_api \<Rightarrow> Context \<Rightarrow> ListResourcesParams \<Rightarrow> 'w \<Rightarrow> Resource list handler_ret \<times> 'w" where
  "kube_ListResources lib c ctx inp w =
     (let l = lrp_List inp; ot = OutputType (lp_OutputParams l) in
      case require_output lib (lp_OutputParams l)
             (require (lrp_Kind inp) kindRequired (required_version (lrp_Version inp))) of
        Some e \<Rightarrow> (([], Some e), w)
      | None \<Rightarrow>
     (case client_ListResources c ctx (lrp_Group inp) (lrp_Version inp) (lrp_Kind inp) (lp_Namespace l)
             (lp_LabelSelector l) w of
        (Inl e, w1) \<Rightarrow> (([], Some e), w1)
      | (Inr resources, w1) \<Rightarrow>
          if length (Items resources) = 0 then (([], None), w1)
          else
          (case (case CutPrefix ot (JSONPathOutputType @ ''='') of
                   Some template \<Rightarrow>
                     (case ToJSONPath lib zero_Resource template (ListContent resources) of
                        Inl e \<Rightarrow> Inl e | Inr r \<Rightarrow> Inr [r])
                 | None \<Rightarrow> resources_loop lib ot (Items resources) w1) of
             Inl e \<Rightarrow> (([], Some e), w1)
           | Inr out \<Rightarrow> ((out, None), w1))))"

section \<open>Effects on the cluster\<close>

text \<open>What the resource tools promise: they only ever use the four read operations of the clients, so
  whatever those keep, the handlers keep.\<close>

locale dynamic_client =
  fixes c :: "'w dynamic_api" and J :: "'w \<Rightarrow> bool"
  assumes discovery: "J w \<Longrightarrow> J (snd (ServerResources c g v w))"
    and rest_mapping: "J w \<Longrightarrow> J (snd (RESTMapping c g k v w))"
    and get: "J w \<Longrightarrow> J (snd (dyn_Get c ctx gvr ns name w))"
    and list: "J w \<Longrightarrow> J (snd (dyn_List c ctx gvr ns sel w))"
begin

lemma isNamespaced_keeps: "J w \<Longrightarrow> J (snd (isNamespaced c g v k w))"
  using discovery [of w g v] by (auto simp: isNamespaced_def split: prod.splits sum.splits)

lemma mapped_keeps:
  assumes "J w" "\<And>gvr u. J u \<Longrightarrow> J (snd (f gvr u))"
  shows "J (snd (mapped c g v k f w))"
  using rest_mapping [OF assms(1), of g k v] assms(2) by (auto simp: mapped_def split: prod.splits sum.splits)

lemma client_getResource_keeps: "J w \<Longrightarrow> J (snd (client_getResource c ctx gvr name ns w))"
  using get [of w ctx gvr ns name] by (auto simp: client_getResource_def split: prod.splits sum.splits)

lemma client_listResources_keeps: "J w \<Longrightarrow> J (snd (client_listResources c ctx gvr ns sel w))"
  using list [of w ctx gvr ns sel] by (auto simp: client_listResources_def split: prod.splits sum.splits)

lemma client_GetResource_keeps: "J w \<Longrightarrow> J (snd (client_GetResource c ctx g v k name ns w))"
  using isNamespaced_keeps [of w g v k]
  by (auto simp: client_GetResource_def mapped_keeps client_getResource_keeps split: prod.splits sum.splits)

lemma kube_GetResource_keeps: "J w \<Longrightarrow> J (snd (kube_GetResource lib c ctx i w))"
  using client_GetResource_keeps [of w ctx "grp_Group i" "grp_Version i" "grp_Kind i" "gp_Name (grp_Get i)"
      "gp_Namespace (grp_Get i)"]
  unfolding kube_GetResource_def Let_def by (auto split: prod.splits sum.splits option.splits)

lemma kube_ListResources_keeps: "J w \<Longrightarrow> J (snd (kube_ListResources lib c ctx i w))"
proof -
  assume "J w"
  then have "J (snd (client_ListResources c ctx (lrp_Group i) (lrp_Version i) (lrp_Kind i)
      (lp_Namespace (lrp_List i)) (lp_LabelSelector (lrp_List i)) w))"
    unfolding client_ListResources_def by (intro mapped_keeps client_listResources_keeps)
  with \<open>J w\<close> show ?thesis
    unfolding kube_ListResources_def Let_def by (auto split: prod.splits sum.splits option.splits)
qed

end

text \<open>The clients over a world with a record of events beside it, which they leave alone.\<close>

definition beside :: "('w, 'a) effect \<Rightarrow> ('w \<times> 'l, 'a) effect" where
  "beside f v = (case f (fst v) of (r, w') \<Rightarrow> (r, (w', snd v)))"

definition traced_dynamic :: "'w dynamic_api \<Rightarrow> ('w \<times> 'l) dynamic_api" where
  "traced_dynamic c = \<lparr>ServerResources = (\<lambda>g v. beside (ServerResources c g v)),
     RESTMapping = (\<lambda>g k v. beside (RESTMapping c g k v)),
     dyn_Get = (\<lambda>ctx gvr ns name. beside (dyn_Get c ctx gvr ns name)),
     dyn_List = (\<lambda>ctx gvr ns sel. beside (dyn_List c ctx gvr ns sel)),
     gvString = gvString c, gvkString = gvkString c, gvrString = gvrString c\<rparr>"

lemma snd_beside [simp]: "snd (snd (beside f v)) = snd v"
  by (simp add: beside_def split: prod.splits)

interpretation traced_dynamic: dynamic_client "traced_dynamic c" "\<lambda>v. J (snd v)"
  by unfold_locales (simp_all add: traced_dynamic_def)

section \<open>What the tools return\<close>

text \<open>The entry for an object: its encoding alone, or its name, namespace and age, with labels and annotations
  in the wide format.\<close>

definition data_only :: "string \<Rightarrow> Resource" where
  "data_only t = zero_Resource\<lparr>rs_Data := t\<rparr>"

definition resource_entry :: "'w object_lib \<Rightarrow> string \<Rightarrow> json \<Rightarrow> 'w \<Rightarrow> Resource \<Rightarrow> bool" where
  "resource_entry lib ot obj w r \<longleftrightarrow>
     (if ot = ''json'' then \<exists>t. MarshalJSON lib obj = Inr t \<and> r = data_only t
      else if ot = ''yaml'' then \<exists>t. MarshalYAML lib obj = Inr t \<and> r = data_only t
      else rs_Name r = GetName lib obj \<and> rs_Namespace r = GetNamespace lib obj \<and>
        rs_Age r = FormatAge (Since lib obj w) \<and> rs_Data r = [] \<and>
        rs_Labels r = (if ot = ''wide'' then GetLabels lib obj else []) \<and>
        rs_Annotations r = (if ot = ''wide'' then GetAnnotations lib obj else []))"

lemma entry_iff:
  "(if ot = JSONOutputType then ToJSON lib zero_Resource obj
    else if ot = YAMLOutputType then ToYAML lib zero_Resource obj
    else Inr (GetResourceData lib zero_Resource obj (ot = WideOutputType) w)) = Inr r \<longleftrightarrow>
   resource_entry lib ot obj w r"
  unfolding resource_entry_def output_types ToJSON_def ToYAML_def data_only_def GetResourceData_def Let_def
  by (cases r) (auto simp: zero_Resource_def split: sum.splits)

lemma resources_loop_ok:
  "resources_loop lib ot objs w = Inr out \<longleftrightarrow> list_all2 (\<lambda>obj r. resource_entry lib ot obj w r) objs out"
proof (induction objs arbitrary: out)
  case (Cons obj objs)
  show ?case
  proof (cases out)
    case Nil
    then show ?thesis by (simp split: sum.splits)
  next
    case (Cons r rs)
    then show ?thesis using Cons.IH [of rs] entry_iff [of ot lib obj w r]
      by (auto split: sum.splits)
  qed
qed auto

lemma jsonpath_iff:
  "ToJSONPath lib zero_Resource t obj = Inr r \<longleftrightarrow>
     jsonpath_Parse lib t = None \<and> (\<exists>d. jsonpath_Execute lib t obj = Inr d \<and> r = data_only d)"
  by (auto simp: ToJSONPath_def data_only_def split: option.splits sum.splits)

lemma require_ok [simp]:
  "require v e acc = None \<longleftrightarrow> v \<noteq> [] \<and> acc = None"
  "require_output lib p acc = None \<longleftrightarrow> output_ok (jsonpath_Parse lib) p \<and> acc = None"
  "required_version v = None \<longleftrightarrow> v \<noteq> []"
  by (auto simp: require_def require_output_def required_version_def
      ValidateOutputParams_output_ok [symmetric] split: option.splits)

lemma mapped_ok:
  "mapped c g v k f w = (Inr x, w') \<longleftrightarrow> (\<exists>gvr w1. RESTMapping c g k v w = (Inr gvr, w1) \<and> f gvr w1 = (Inr x, w'))"
  by (auto simp: mapped_def split: prod.splits sum.splits)

text \<open>The namespace a request is for: the one given, or else \<^verbatim>\<open>default\<close> for a kind that has one and none for
  any other, as the discovery of its group and version tells.\<close>

definition in_namespace ::
  "'w dynamic_api \<Rightarrow> GetResourceParams \<Rightarrow> 'w \<Rightarrow> string \<Rightarrow> 'w \<Rightarrow> bool" where
  "in_namespace c i w ns w1 \<longleftrightarrow>
     (if gp_Namespace (grp_Get i) \<noteq> [] then ns = gp_Namespace (grp_Get i) \<and> w1 = w
      else \<exists>kinds. ServerResources c (grp_Group i) (grp_Version i) w = (Inr kinds, w1) \<and>
        ns = (if map_of kinds (grp_Kind i) = Some True then ''default'' else []))"

lemma find_map_of: "find (\<lambda>(k, _). k = x) kvs = map_option (Pair x) (map_of kvs x)"
  by (induction kvs) auto

lemma client_GetResource_ok:
  "client_GetResource c ctx (grp_Group i) (grp_Version i) (grp_Kind i) name (gp_Namespace (grp_Get i)) w = (Inr obj, w') \<longleftrightarrow>
     (\<exists>ns w1 gvr w2. in_namespace c i w ns w1 \<and>
        RESTMapping c (grp_Group i) (grp_Kind i) (grp_Version i) w1 = (Inr gvr, w2) \<and>
        dyn_Get c ctx gvr ns name w2 = (Inr obj, w'))"
proof -
  have g: "client_getResource c ctx gvr name ns u = (Inr obj, w') \<longleftrightarrow> dyn_Get c ctx gvr ns name u = (Inr obj, w')"
    for gvr ns u by (auto simp: client_getResource_def split: prod.splits sum.splits)
  show ?thesis
  proof (cases "gp_Namespace (grp_Get i) = []")
    case True
    obtain r w1 where r: "ServerResources c (grp_Group i) (grp_Version i) w = (r, w1)" by fastforce
    show ?thesis using True r
      by (cases r) (auto simp: client_GetResource_def isNamespaced_def in_namespace_def find_map_of mapped_ok g
          split: option.splits)
  next
    case False
    then show ?thesis by (simp add: client_GetResource_def in_namespace_def mapped_ok g)
  qed
qed

text \<open>The output of a found object, after the output type was checked.\<close>

lemma jsonpath_prefix: "JSONPathOutputType @ ''='' = ''jsonpath=''"
  by (simp add: JSONPathOutputType_def)

lemma object_output_iff:
  assumes "output_ok (jsonpath_Parse lib) p"
  shows "(if OutputType p = JSONOutputType then ToJSON lib zero_Resource obj
      else if OutputType p = YAMLOutputType then ToYAML lib zero_Resource obj
      else (case CutPrefix (OutputType p) (JSONPathOutputType @ ''='') of
          Some template \<Rightarrow> ToJSONPath lib zero_Resource template obj
        | None \<Rightarrow> Inr (GetResourceData lib zero_Resource obj (OutputType p = WideOutputType) w))) = Inr r \<longleftrightarrow>
    (case CutPrefix (OutputType p) ''jsonpath='' of
       Some t \<Rightarrow> \<exists>d. jsonpath_Execute lib t obj = Inr d \<and> r = data_only d
     | None \<Rightarrow> resource_entry lib (OutputType p) obj w r)"
proof (cases "CutPrefix (OutputType p) ''jsonpath=''")
  case None
  then show ?thesis by (simp only: jsonpath_prefix option.case entry_iff)
next
  case (Some t)
  then have e: "OutputType p = ''jsonpath='' @ t" by (simp add: CutPrefix_Some)
  with assms have "jsonpath_Parse lib t = None" by (auto simp: output_ok_def)
  with Some e show ?thesis by (simp add: output_types jsonpath_iff)
qed

lemma object_case_ok:
  "(case x of (Inl e, w1) \<Rightarrow> ((r0, Some e), w1)
    | (Inr y, w1) \<Rightarrow> (case g y w1 of Inl e \<Rightarrow> ((r0, Some e), w1) | Inr r \<Rightarrow> ((r, None), w1))) = ((r, None), w') \<longleftrightarrow>
   (\<exists>y. x = (Inr y, w') \<and> g y w' = Inr r)"
  by (auto split: prod.splits sum.splits)

lemma client_listResources_ok:
  "client_listResources c ctx gvr ns sel w = (Inr l, w') \<longleftrightarrow> dyn_List c ctx gvr ns sel w = (Inr l, w')"
  by (auto simp: client_listResources_def split: prod.splits sum.splits)

lemma singleton_ok: "(case x of Inl e \<Rightarrow> Inl e | Inr r \<Rightarrow> Inr [r]) = Inr out \<longleftrightarrow> (\<exists>r. x = Inr r \<and> out = [r])"
  by (cases x) auto

lemma list_case_ok:
  "(case x of (Inl e, w1) \<Rightarrow> (([], Some e), w1)
    | (Inr y, w1) \<Rightarrow> if length (Items y) = 0 then (([], None), w1)
        else (case g y w1 of Inl e \<Rightarrow> (([], Some e), w1) | Inr r \<Rightarrow> ((r, None), w1))) = ((r, None), w') \<longleftrightarrow>
   (\<exists>y. x = (Inr y, w') \<and> (if Items y = [] then r = [] else g y w' = Inr r))"
  by (auto split: prod.splits sum.splits)

text \<open>Claim C20: \<^verbatim>\<open>resource-get\<close> succeeds exactly when version, kind and name are given, the output type is
  valid, and the clients find the object, in the given namespace or in the default one of a namespaced
  kind; it returns the entry of that object in the format asked for, or the value of the JSONPath.\<close>

theorem kube_GetResource_ok_iff:
  "kube_GetResource lib c ctx i w = ((r, None), w') \<longleftrightarrow>
     grp_Version i \<noteq> [] \<and> grp_Kind i \<noteq> [] \<and> gp_Name (grp_Get i) \<noteq> [] \<and>
     output_ok (jsonpath_Parse lib) (gp_OutputParams (grp_Get i)) \<and>
     (\<exists>ns w1 gvr w2 obj. in_namespace c i w ns w1 \<and>
        RESTMapping c (grp_Group i) (grp_Kind i) (grp_Version i) w1 = (Inr gvr, w2) \<and>
        dyn_Get c ctx gvr ns (gp_Name (grp_Get i)) w2 = (Inr obj, w') \<and>
        (case CutPrefix (OutputType (gp_OutputParams (grp_Get i))) ''jsonpath='' of
           Some t \<Rightarrow> \<exists>d. jsonpath_Execute lib t obj = Inr d \<and> r = data_only d
         | None \<Rightarrow> resource_entry lib (OutputType (gp_OutputParams (grp_Get i))) obj w' r))"
  unfolding kube_GetResource_def Let_def guard_handler_ok object_case_ok require_ok client_GetResource_ok
  by (cases "output_ok (jsonpath_Parse lib) (gp_OutputParams (grp_Get i))") (simp_all add: object_output_iff, blast)

text \<open>Claim C21: \<^verbatim>\<open>resource-list\<close> succeeds exactly when version and kind are given, the output type is valid and
  the clients list the kind with the namespace and the selector of the request; it returns one entry
  for every object, in their order, or the value of the JSONPath on the whole list, and the empty list
  when there is no object.\<close>

theorem kube_ListResources_ok_iff:
  "kube_ListResources lib c ctx i w = ((out, None), w') \<longleftrightarrow>
     lrp_Version i \<noteq> [] \<and> lrp_Kind i \<noteq> [] \<and> output_ok (jsonpath_Parse lib) (lp_OutputParams (lrp_List i)) \<and>
     (\<exists>gvr w1 l. RESTMapping c (lrp_Group i) (lrp_Kind i) (lrp_Version i) w = (Inr gvr, w1) \<and>
        dyn_List c ctx gvr (lp_Namespace (lrp_List i)) (lp_LabelSelector (lrp_List i)) w1 = (Inr l, w') \<and>
        (case CutPrefix (OutputType (lp_OutputParams (lrp_List i))) ''jsonpath='' of
           Some t \<Rightarrow> if Items l = [] then out = []
             else \<exists>d. jsonpath_Execute lib t (ListContent l) = Inr d \<and> out = [data_only d]
         | None \<Rightarrow> list_all2 (\<lambda>obj r. resource_entry lib (OutputType (lp_OutputParams (lrp_List i))) obj w' r)
             (Items l) out))"
proof -
  let ?p = "lp_OutputParams (lrp_List i)"
  have client: "client_ListResources c ctx (lrp_Group i) (lrp_Version i) (lrp_Kind i) (lp_Namespace (lrp_List i))
      (lp_LabelSelector (lrp_List i)) w = (Inr l, w') \<longleftrightarrow>
      (\<exists>gvr w1. RESTMapping c (lrp_Group i) (lrp_Kind i) (lrp_Version i) w = (Inr gvr, w1) \<and>
        dyn_List c ctx gvr (lp_Namespace (lrp_List i)) (lp_LabelSelector (lrp_List i)) w1 = (Inr l, w'))" for l
    unfolding client_ListResources_def mapped_ok client_listResources_ok ..
  have j: "jsonpath_Parse lib t = None" if "output_ok (jsonpath_Parse lib) ?p" "CutPrefix (OutputType ?p) ''jsonpath='' = Some t" for t
    using that by (auto simp: output_ok_def CutPrefix_Some)
  show ?thesis
    unfolding kube_ListResources_def Let_def guard_handler_ok list_case_ok require_ok client jsonpath_prefix
    by (cases "output_ok (jsonpath_Parse lib) ?p"; cases "CutPrefix (OutputType ?p) ''jsonpath=''")
      (auto simp: resources_loop_ok singleton_ok jsonpath_iff j split: if_splits)
qed

end
