(* ===== verification/Server.thy ===== *)
theory Server
  imports Descriptions Middleware KubeResources
begin

text \<open>
  \<^verbatim>\<open>cmd/ovnk-mcp-server/main.go\<close> and the \<^verbatim>\<open>AddTools\<close> functions: how the flags become a configuration, which
  tools each mode registers and on which handlers, and the chain of receiving middlewares in front of
  them. The parsed values of the command line flags are the record \<open>flags\<close>. A registered tool is
  the record of its name and description, and a call that reaches its handler by a value of \<open>live_call\<close>, the handler's
  decoded parameters. \<^verbatim>\<open>log.Fatalf\<close> and \<^verbatim>\<open>os.Exit\<close> end the program and are results of their own; other
  log output is not modelled. What \<^verbatim>\<open>main\<close> does after the set-up is in \<open>Lifecycle\<close>.
\<close>

section \<open>Configuration\<close>

definition defaultNetshootImage :: string where
  "defaultNetshootImage = ''nicolaka/netshoot:v0.15''"

record kube_Config =
  Kubeconfig :: string

record MCPServerConfig =
  cfg_Mode :: string
  cfg_Transport :: string
  cfg_Host :: string
  cfg_Port :: string
  cfg_NetworkTools :: nt_Config
  cfg_Kernel :: kernel_Config
  cfg_Kubernetes :: kube_Config
  cfg_ToolTimeout :: duration
  cfg_DisabledTools :: bool_map

record flags =
  fl_version :: bool
  fl_mode :: string
  fl_transport :: string
  fl_host :: string
  fl_port :: string
  fl_kubeconfig :: string
  fl_pwru_image :: string
  fl_tcpdump_image :: string
  fl_kernel_image :: string
  fl_tool_timeout :: "64 word"
  fl_disable_categories :: string
  fl_disable_tools :: string

definition default_flags :: flags where
  "default_flags = \<lparr>fl_version = False, fl_mode = ''live-cluster'', fl_transport = ''stdio'',
     fl_host = ''localhost'', fl_port = ''8080'', fl_kubeconfig = [],
     fl_pwru_image = ''docker.io/cilium/pwru:v1.0.10'', fl_tcpdump_image = defaultNetshootImage,
     fl_kernel_image = defaultNetshootImage, fl_tool_timeout = 120,
     fl_disable_categories = [], fl_disable_tools = []\<rparr>"

text \<open>\<^verbatim>\<open>pkg/version/version.go\<close>.\<close>

definition Version :: string where
  "Version = ''0.1.0''"

definition version_Print :: string where
  "version_Print = ''ovn-kubernetes-mcp-server version '' @ Version"

text \<open>How start-up ends: a printed text and exit, a fatal log message, or the next step.\<close>

datatype 'a startup =
    Exit0 string
  | Fatal err
  | Continue 'a

definition filterConfig_msg :: string where
  "filterConfig_msg = ''Invalid tool filter configuration: %v''"

text \<open>\<^verbatim>\<open>parseFlags\<close> after \<^verbatim>\<open>flag.Parse\<close>. The seconds are a 64-bit \<^verbatim>\<open>int\<close>, and so is the duration they are
  multiplied into.\<close>

definition parseFlags :: "flags \<Rightarrow> MCPServerConfig startup" where
  "parseFlags f =
     (if fl_version f then Exit0 (version_Print @ [newline])
      else
        (let timeoutSeconds = (if sint (fl_tool_timeout f) < 0 then 120 else fl_tool_timeout f);
             timeout = timeoutSeconds * Second in
         case ResolveDisabled (fl_disable_categories f) (fl_disable_tools f) of
           Inl e \<Rightarrow> Fatal (Errorf filterConfig_msg [FErr e])
         | Inr disabled \<Rightarrow> Continue
             \<lparr>cfg_Mode = fl_mode f, cfg_Transport = fl_transport f, cfg_Host = fl_host f, cfg_Port = fl_port f,
              cfg_NetworkTools = \<lparr>PwruImage = fl_pwru_image f, TcpdumpImage = fl_tcpdump_image f\<rparr>,
              cfg_Kernel = \<lparr>kc_Image = fl_kernel_image f\<rparr>, cfg_Kubernetes = \<lparr>Kubeconfig = fl_kubeconfig f\<rparr>,
              cfg_ToolTimeout = timeout, cfg_DisabledTools = disabled\<rparr>))"

section \<open>Registration\<close>

text \<open>What each \<^verbatim>\<open>AddTools\<close> gives the SDK, in order.\<close>

record mcp_Tool =
  tool_Name :: string
  tool_Description :: string

definition AddTool :: "string \<times> desc \<Rightarrow> mcp_Tool" where
  "AddTool r = \<lparr>tool_Name = fst r, tool_Description = desc_value (snd r)\<rparr>"

definition kube_AddTools :: "mcp_Tool list" where
  "kube_AddTools = map AddTool kube_registrations"

definition ovn_AddTools :: "mcp_Tool list" where
  "ovn_AddTools = map AddTool ovn_registrations"

definition ovs_AddTools :: "mcp_Tool list" where
  "ovs_AddTools = map AddTool ovs_registrations"

definition kernel_AddTools :: "mcp_Tool list" where
  "kernel_AddTools = map AddTool kernel_registrations"

definition nt_AddTools :: "mcp_Tool list" where
  "nt_AddTools = map AddTool nt_registrations"

definition sos_AddTools :: "mcp_Tool list" where
  "sos_AddTools = map AddTool sos_registrations"

definition mg_AddTools :: "'w MustGatherMCPServer \<Rightarrow> mcp_Tool list" where
  "mg_AddTools s = map AddTool mg_registrations @
     (case mgs_ovsdbTool s of None \<Rightarrow> [] | Some _ \<Rightarrow> map AddTool mg_db_registrations)"

text \<open>The Kubernetes server. Reading a kubeconfig and the in-cluster configuration are client-go's, and so
  are the clients made from either: those for pods and nodes, and those for resources.\<close>

record ('c, 'w) kube_env =
  BuildConfigFromFlags :: "string \<Rightarrow> 'c result"
  InClusterConfig :: "'c result"
  NewClientSet :: "'c \<Rightarrow> 'w kube_api"
  NewDynamic :: "'c \<Rightarrow> 'w dynamic_api"

record 'w kube_servers =
  ks_pods :: "'w kube_MCPServer"
  ks_dynamic :: "'w dynamic_api"

definition NewOVNKMCPServerClientSet :: "('c, 'w) kube_env \<Rightarrow> 'c \<Rightarrow> 'w kube_servers" where
  "NewOVNKMCPServerClientSet env config =
     \<lparr>ks_pods = \<lparr>clientSet = NewClientSet env config\<rparr>, ks_dynamic = NewDynamic env config\<rparr>"

definition kube_NewMCPServer :: "('c, 'w) kube_env \<Rightarrow> kube_Config \<Rightarrow> 'w kube_servers result" where
  "kube_NewMCPServer env c =
     (case (if Kubeconfig c \<noteq> [] then BuildConfigFromFlags env (Kubeconfig c) else InClusterConfig env) of
        Inl e \<Rightarrow> Inl e
      | Inr config \<Rightarrow> Inr (NewOVNKMCPServerClientSet env config))"

record 'w live_servers =
  k8sMcpServer :: "'w kube_servers"
  ovnServer :: "'w ovn_MCPServer"
  ovsServer :: "'w ovs_MCPServer"
  kernelMcpServer :: "'w kernel_MCPServer"
  netToolsServer :: "'w nt_MCPServer"

definition setupLiveCluster ::
  "('c, 'w) kube_env \<Rightarrow> MCPServerConfig \<Rightarrow> mcp_Tool list \<Rightarrow> ('w live_servers \<times> mcp_Tool list) startup" where
  "setupLiveCluster env serverCfg server =
     (case kube_NewMCPServer env (cfg_Kubernetes serverCfg) of
        Inl e \<Rightarrow> Fatal (Errorf ''Failed to create OVN-K MCP server: %v'' [FErr e])
      | Inr k8s \<Rightarrow>
     (case ovn_NewMCPServer (Some (RunPodExecCommand (ks_pods k8s))) of
        Inl e \<Rightarrow> Fatal (Errorf ''Failed to create OVN MCP server: %v'' [FErr e])
      | Inr ovn \<Rightarrow>
     (case ovs_NewMCPServer (Some (RunPodExecCommand (ks_pods k8s))) of
        Inl e \<Rightarrow> Fatal (Errorf ''Failed to create OVS MCP server: %v'' [FErr e])
      | Inr ovs \<Rightarrow>
     (case kernel_NewMCPServer (Some (RunDebugNode (ks_pods k8s))) (cfg_Kernel serverCfg) of
        Inl e \<Rightarrow> Fatal (Errorf ''Failed to create Kernel MCP server: %v'' [FErr e])
      | Inr knl \<Rightarrow>
     (case nt_NewMCPServer (Some (RunDebugNode (ks_pods k8s))) (Some (RunPodExecCommand (ks_pods k8s))) (cfg_NetworkTools serverCfg) of
        Inl e \<Rightarrow> Fatal (Errorf ''Failed to create Network Tools MCP server: %v'' [FErr e])
      | Inr nt \<Rightarrow> Continue
          (\<lparr>k8sMcpServer = k8s, ovnServer = ovn, ovsServer = ovs, kernelMcpServer = knl, netToolsServer = nt\<rparr>,
           server @ kube_AddTools @ ovn_AddTools @ ovs_AddTools @ kernel_AddTools @ nt_AddTools))))))"

text \<open>\<^verbatim>\<open>setupOffline\<close>: without omc the must-gather tools are left out.\<close>

definition setupOffline :: "'v MustGatherMCPServer result \<Rightarrow> mcp_Tool list \<Rightarrow> mcp_Tool list" where
  "setupOffline newMustGather server =
     (let server1 = server @ sos_AddTools in
      case newMustGather of
        Inl _ \<Rightarrow> server1
      | Inr mustGatherServer \<Rightarrow> server1 @ mg_AddTools mustGatherServer)"

definition mode_msg :: string where
  "mode_msg = ''Invalid mode: %s. Valid modes are: live-cluster, offline, dual''"

text \<open>The switch on the mode in \<^verbatim>\<open>main\<close>.\<close>

definition main_setup ::
  "('c, 'w) kube_env \<Rightarrow> 'v MustGatherMCPServer result \<Rightarrow> MCPServerConfig \<Rightarrow>
   ('w live_servers option \<times> mcp_Tool list) startup" where
  "main_setup env newMustGather serverCfg =
     (if cfg_Mode serverCfg = ''live-cluster'' then
        (case setupLiveCluster env serverCfg [] of
           Exit0 out \<Rightarrow> Exit0 out | Fatal e \<Rightarrow> Fatal e | Continue (l, server) \<Rightarrow> Continue (Some l, server))
      else if cfg_Mode serverCfg = ''offline'' then Continue (None, setupOffline newMustGather [])
      else if cfg_Mode serverCfg = ''dual'' then
        (case setupLiveCluster env serverCfg [] of
           Exit0 out \<Rightarrow> Exit0 out | Fatal e \<Rightarrow> Fatal e
         | Continue (l, server) \<Rightarrow> Continue (Some l, setupOffline newMustGather server))
      else Fatal (Errorf mode_msg [FStr (cfg_Mode serverCfg)]))"

section \<open>The receiving chain\<close>

text \<open>\<^verbatim>\<open>AddReceivingMiddleware\<close> wraps the handler there is, so the filter, added last, is outermost.\<close>

definition receivingHandler ::
  "int \<Rightarrow> MCPServerConfig \<Rightarrow> ('r, 'w) method_handler \<Rightarrow> ('r, 'w) method_handler" where
  "receivingHandler now serverCfg handler =
     (let h1 = (if sint (cfg_ToolTimeout serverCfg) > 0 then ToolTimeout now (cfg_ToolTimeout serverCfg) handler
                else handler)
      in if length (cfg_DisabledTools serverCfg) > 0 then ToolFilter (cfg_DisabledTools serverCfg) h1 else h1)"

section \<open>Calls to the live tools\<close>

datatype live_call =
    CallPodLogs GetPodLogsParams
  | CallResourceGet KubeResources.GetResourceParams
  | CallResourceList KubeResources.ListResourcesParams
  | CallOvnShow ShowParams
  | CallOvnGet Ovn.GetParams
  | CallOvnLflowList LogicalFlowListParams
  | CallOvnTrace OVNTraceParams
  | CallOvsVsctl VsctlParams
  | CallOvsOfctl OfctlParams
  | CallOvsAppctl AppctlParams
  | CallGetConntrack ListConntrackParams
  | CallGetIptables ListIPTablesParams
  | CallGetNFT ListNFTParams
  | CallGetIP ListIPParams
  | CallTcpdump TcpdumpParams
  | CallPwru PwruParams

text \<open>The tool each call is for, and what the handler registered under that name does to the world.
  \<open>now\<close> is the time, \<open>lib\<close> the encoders of resources and \<open>order\<close> the iteration order of a map in \<^verbatim>\<open>get-ip\<close>.\<close>

primrec live_tool :: "live_call \<Rightarrow> string" where
  "live_tool (CallPodLogs _) = ''pod-logs''"
| "live_tool (CallResourceGet _) = ''resource-get''"
| "live_tool (CallResourceList _) = ''resource-list''"
| "live_tool (CallOvnShow _) = ''ovn-show''"
| "live_tool (CallOvnGet _) = ''ovn-get''"
| "live_tool (CallOvnLflowList _) = ''ovn-lflow-list''"
| "live_tool (CallOvnTrace _) = ''ovn-trace''"
| "live_tool (CallOvsVsctl _) = ''ovs-vsctl''"
| "live_tool (CallOvsOfctl _) = ''ovs-ofctl''"
| "live_tool (CallOvsAppctl _) = ''ovs-appctl''"
| "live_tool (CallGetConntrack _) = ''get-conntrack''"
| "live_tool (CallGetIptables _) = ''get-iptables''"
| "live_tool (CallGetNFT _) = ''get-nft''"
| "live_tool (CallGetIP _) = ''get-ip''"
| "live_tool (CallTcpdump _) = ''tcpdump''"
| "live_tool (CallPwru _) = ''pwru''"

primrec run_live :: "compiler \<Rightarrow> 'w object_lib \<Rightarrow> strs \<Rightarrow> int \<Rightarrow> 'w live_servers \<Rightarrow> Context \<Rightarrow> live_call \<Rightarrow> 'w \<Rightarrow> 'w" where
  "run_live compile lib order now l ctx (CallPodLogs i) w = snd (KubeClient.GetPodLogs compile (ks_pods (k8sMcpServer l)) ctx i w)"
| "run_live compile lib order now l ctx (CallResourceGet i) w = snd (kube_GetResource lib (ks_dynamic (k8sMcpServer l)) ctx i w)"
| "run_live compile lib order now l ctx (CallResourceList i) w = snd (kube_ListResources lib (ks_dynamic (k8sMcpServer l)) ctx i w)"
| "run_live compile lib order now l ctx (CallOvnShow i) w = snd (Show (ovnServer l) ctx i w)"
| "run_live compile lib order now l ctx (CallOvnGet i) w = snd (Get compile (ovnServer l) ctx i w)"
| "run_live compile lib order now l ctx (CallOvnLflowList i) w = snd (ListLogicalFlows compile (ovnServer l) ctx i w)"
| "run_live compile lib order now l ctx (CallOvnTrace i) w = snd (Trace compile (ovnServer l) ctx i w)"
| "run_live compile lib order now l ctx (CallOvsVsctl i) w = snd (Vsctl (ovsServer l) ctx i w)"
| "run_live compile lib order now l ctx (CallOvsOfctl i) w = snd (Ofctl compile (ovsServer l) ctx i w)"
| "run_live compile lib order now l ctx (CallOvsAppctl i) w = snd (Appctl compile (ovsServer l) ctx i w)"
| "run_live compile lib order now l ctx (CallGetConntrack i) w = snd (GetConntrack now (kernelMcpServer l) ctx i w)"
| "run_live compile lib order now l ctx (CallGetIptables i) w = snd (GetIptables now (kernelMcpServer l) ctx i w)"
| "run_live compile lib order now l ctx (CallGetNFT i) w = snd (GetNFT now (kernelMcpServer l) ctx i w)"
| "run_live compile lib order now l ctx (CallGetIP i) w = snd (GetIPCommandOutput order now (kernelMcpServer l) ctx i w)"
| "run_live compile lib order now l ctx (CallTcpdump i) w = snd (Tcpdump now (netToolsServer l) ctx i w)"
| "run_live compile lib order now l ctx (CallPwru i) w = snd (Pwru now (netToolsServer l) ctx i w)"

section \<open>Properties of the start-up\<close>

text \<open>The servers of live mode all run their commands through the one Kubernetes server.\<close>

definition live_over :: "MCPServerConfig \<Rightarrow> 'w kube_servers \<Rightarrow> 'w live_servers" where
  "live_over sc k8s = \<lparr>k8sMcpServer = k8s, ovnServer = \<lparr>ovn_runPodExecCommand = RunPodExecCommand (ks_pods k8s)\<rparr>,
     ovsServer = \<lparr>ovs_runPodExecCommand = RunPodExecCommand (ks_pods k8s)\<rparr>,
     kernelMcpServer = \<lparr>runDebugNodeCommand = RunDebugNode (ks_pods k8s), cfg = cfg_Kernel sc\<rparr>,
     netToolsServer = \<lparr>nt_runDebugNodeCommand = RunDebugNode (ks_pods k8s),
       nt_runPodExecCommand = RunPodExecCommand (ks_pods k8s), nt_cfg = cfg_NetworkTools sc\<rparr>\<rparr>"

lemma setupLiveCluster_eq:
  "setupLiveCluster env sc server = (case kube_NewMCPServer env (cfg_Kubernetes sc) of
       Inl e \<Rightarrow> Fatal (Errorf ''Failed to create OVN-K MCP server: %v'' [FErr e])
     | Inr k8s \<Rightarrow> Continue (live_over sc k8s,
         server @ kube_AddTools @ ovn_AddTools @ ovs_AddTools @ kernel_AddTools @ nt_AddTools))"
  by (simp add: setupLiveCluster_def ovn_NewMCPServer_def ovs_NewMCPServer_def kernel_NewMCPServer_def
      nt_NewMCPServer_def live_over_def split: sum.splits)

abbreviation names :: "mcp_Tool list \<Rightarrow> strs" where
  "names \<equiv> map tool_Name"

lemmas add_tools = kube_AddTools_def ovn_AddTools_def ovs_AddTools_def kernel_AddTools_def nt_AddTools_def
  sos_AddTools_def mg_AddTools_def

lemmas registrations = kube_registrations_def ovn_registrations_def ovs_registrations_def kernel_registrations_def
  nt_registrations_def sos_registrations_def mg_registrations_def mg_db_registrations_def

abbreviation live_AddTools :: "mcp_Tool list" where
  "live_AddTools \<equiv> kube_AddTools @ ovn_AddTools @ ovs_AddTools @ kernel_AddTools @ nt_AddTools"

definition category_tools :: "string \<Rightarrow> strs" where
  "category_tools c = (case map_of toolsByCategory c of None \<Rightarrow> [] | Some ts \<Rightarrow> ts)"

lemma category_names:
  "category_tools ''kubernetes'' = names kube_AddTools" "category_tools ''ovn'' = names ovn_AddTools"
  "category_tools ''ovs'' = names ovs_AddTools" "category_tools ''kernel'' = names kernel_AddTools"
  "category_tools ''network-tools'' = names nt_AddTools" "category_tools ''sosreport'' = names sos_AddTools"
  by (simp_all add: category_tools_def toolsByCategory_def add_tools registrations AddTool_def)

lemma category_tools_live:
  "concat (map category_tools [''kubernetes'', ''ovn'', ''ovs'', ''kernel'', ''network-tools'']) = names live_AddTools"
  by (simp add: category_names)

lemma category_tools_mg:
  "take (if mgs_ovsdbTool s = None then 4 else 7) (category_tools ''must-gather'') = names (mg_AddTools s)"
  by (simp add: category_tools_def toolsByCategory_def add_tools registrations AddTool_def split: option.splits)

lemma all_tools_distinct: "distinct (concat (map snd toolsByCategory))"
  by code_simp

lemma distinct_append_take: "distinct (xs @ ys) \<Longrightarrow> distinct (xs @ take n ys)"
  by (metis append.assoc append_take_drop_id distinct_append)

lemma live_offline_distinct: "distinct (names live_AddTools @ names sos_AddTools @ names (mg_AddTools s))"
proof -
  let ?xs = "names live_AddTools @ names sos_AddTools"
  have "concat (map snd toolsByCategory) = ?xs @ category_tools ''must-gather''"
    unfolding category_tools_live [symmetric] category_names(6) [symmetric]
    by (simp add: category_tools_def toolsByCategory_def)
  with all_tools_distinct have "distinct (?xs @ category_tools ''must-gather'')" by simp
  from distinct_append_take [OF this] show ?thesis unfolding category_tools_mg [symmetric] by (simp only: append_assoc)
qed

lemma tools_distinct:
  "distinct (names live_AddTools)" "distinct (names sos_AddTools @ names (mg_AddTools s))"
  "distinct (names sos_AddTools)" "distinct (names live_AddTools @ names sos_AddTools)"
  using live_offline_distinct [of s] unfolding distinct_append by auto

text \<open>Claim C15: the filter's table of tools agrees with what the servers register. Each category lists exactly the
  tools its server adds, in the same order; live mode registers exactly the tools of the five live
  categories, offline mode those of the two offline ones, dual mode all of them, each once; without
  omc the must-gather tools are missing and without ovsdb-tool the three database tools; and any
  other mode is refused.\<close>

theorem registered_tools:
  "toolsByCategory = [(''kubernetes'', map tool_Name kube_AddTools), (''ovn'', map tool_Name ovn_AddTools),
     (''ovs'', map tool_Name ovs_AddTools), (''kernel'', map tool_Name kernel_AddTools),
     (''network-tools'', map tool_Name nt_AddTools), (''sosreport'', map tool_Name sos_AddTools),
     (''must-gather'', map tool_Name (mg_AddTools \<lparr>mgs_omcClient = c, mgs_ovsdbTool = Some t\<rparr>))] \<and>
   (case main_setup env mg sc of
      Exit0 _ \<Rightarrow> False
    | Fatal e \<Rightarrow> if cfg_Mode sc \<in> {''live-cluster'', ''offline'', ''dual''}
        then cfg_Mode sc \<noteq> ''offline'' \<and> (\<exists>e. kube_NewMCPServer env (cfg_Kubernetes sc) = Inl e)
        else e = Errorf mode_msg [FStr (cfg_Mode sc)]
    | Continue (l, server) \<Rightarrow> distinct (map tool_Name server) \<and>
        map tool_Name server = (if cfg_Mode sc = ''offline'' then []
            else concat (map category_tools [''kubernetes'', ''ovn'', ''ovs'', ''kernel'', ''network-tools''])) @
          (if cfg_Mode sc = ''live-cluster'' then []
           else category_tools ''sosreport'' @
             (case mg of Inl _ \<Rightarrow> []
              | Inr s \<Rightarrow> take (if mgs_ovsdbTool s = None then 4 else 7) (category_tools ''must-gather''))))"
proof
  show "toolsByCategory = [(''kubernetes'', names kube_AddTools), (''ovn'', names ovn_AddTools),
     (''ovs'', names ovs_AddTools), (''kernel'', names kernel_AddTools),
     (''network-tools'', names nt_AddTools), (''sosreport'', names sos_AddTools),
     (''must-gather'', names (mg_AddTools \<lparr>mgs_omcClient = c, mgs_ovsdbTool = Some t\<rparr>))]"
    by (simp add: toolsByCategory_def add_tools registrations AddTool_def)
  show "case main_setup env mg sc of
      Exit0 _ \<Rightarrow> False
    | Fatal e \<Rightarrow> if cfg_Mode sc \<in> {''live-cluster'', ''offline'', ''dual''}
        then cfg_Mode sc \<noteq> ''offline'' \<and> (\<exists>e. kube_NewMCPServer env (cfg_Kubernetes sc) = Inl e)
        else e = Errorf mode_msg [FStr (cfg_Mode sc)]
    | Continue (l, server) \<Rightarrow> distinct (names server) \<and>
        names server = (if cfg_Mode sc = ''offline'' then []
            else concat (map category_tools [''kubernetes'', ''ovn'', ''ovs'', ''kernel'', ''network-tools''])) @
          (if cfg_Mode sc = ''live-cluster'' then []
           else category_tools ''sosreport'' @
             (case mg of Inl _ \<Rightarrow> []
              | Inr s \<Rightarrow> take (if mgs_ovsdbTool s = None then 4 else 7) (category_tools ''must-gather'')))"
    unfolding category_tools_live category_names(6) category_tools_mg main_setup_def setupOffline_def
      setupLiveCluster_eq Let_def
    by (cases "kube_NewMCPServer env (cfg_Kubernetes sc)"; cases mg)
      (simp_all add: tools_distinct [unfolded map_append append_assoc]
        live_offline_distinct [unfolded map_append append_assoc] del: distinct_append)
qed

section \<open>Flags and the receiving chain\<close>

lemma no_middleware: "middleware (\<lambda>h. h)"
  by unfold_locales (auto intro: no_later_refl)

interpretation receiving: middleware "receivingHandler now sc"
  unfolding receivingHandler_def [abs_def] Let_def
  by (cases "0 < sint (cfg_ToolTimeout sc)"; cases "0 < length (cfg_DisabledTools sc)")
    (simp_all add: no_middleware tool_filter.middleware_axioms tool_timeout.middleware_axioms
      filter_timeout.stack.middleware_axioms)

lemma parsed_timeout:
  assumes "parseFlags f = Continue sc" "sint (fl_tool_timeout f) \<le> 9223372036"
  shows "sint (cfg_ToolTimeout sc) =
    (if sint (fl_tool_timeout f) < 0 then 120 else sint (fl_tool_timeout f)) * 1000000000"
proof -
  let ?s = "sint (fl_tool_timeout f)"
  have d: "cfg_ToolTimeout sc = (if ?s < 0 then 120 else fl_tool_timeout f) * Second"
    using assms(1) by (auto simp: parseFlags_def Let_def split: if_splits sum.splits)
  show ?thesis
  proof (cases "?s < 0")
    case True
    then show ?thesis by (simp add: d Second_def)
  next
    case False
    have "sint (fl_tool_timeout f * Second) = signed_take_bit 63 (?s * 1000000000)"
      by (simp add: sint_word_ariths Second_def)
    also have "\<dots> = ?s * 1000000000"
      by (rule signed_take_bit_int_eq_self) (use False assms(2) in \<open>auto intro: order_trans [of _ 0]\<close>)
    finally show ?thesis using False by (simp add: d)
  qed
qed

lemma parsed_disabled:
  "parseFlags f = Continue sc \<Longrightarrow>
     ResolveDisabled (fl_disable_categories f) (fl_disable_tools f) = Inr (cfg_DisabledTools sc) \<and> \<not> fl_version f"
  by (auto simp: parseFlags_def Let_def split: if_splits sum.splits)

text \<open>Claim C18: Every configuration the server starts with comes from flags without the version flag, and in it the
  disabled tools are a map without a key twice, to true only, whose keys are exactly the tools given by
  name and those of the categories given, each one a tool some category lists; and the timeout is the
  number of seconds given in nanoseconds, for every non-negative number up to 9223372036, and 120 seconds
  for a negative one.\<close>

theorem parsed_config_wf:
  assumes "parseFlags f = Continue sc"
  shows "wf_disabled (cfg_DisabledTools sc) \<and> \<not> fl_version f \<and>
    (\<forall>t. map_get (cfg_DisabledTools sc) t \<longleftrightarrow> t \<in> set (splitCSV (fl_disable_tools f)) \<or>
       (\<exists>c \<in> set (splitCSV (fl_disable_categories f)). t \<in> set (category_tools c))) \<and>
    (sint (fl_tool_timeout f) \<le> 9223372036 \<longrightarrow> sint (cfg_ToolTimeout sc) =
       (if sint (fl_tool_timeout f) < 0 then 120 else sint (fl_tool_timeout f)) * 1000000000)"
proof -
  have r: "ResolveDisabled (fl_disable_categories f) (fl_disable_tools f) = Inr (cfg_DisabledTools sc)" "\<not> fl_version f"
    using parsed_disabled [OF assms] by simp_all
  have "map_get (cfg_DisabledTools sc) t \<longleftrightarrow> t \<in> set (splitCSV (fl_disable_tools f)) \<or>
      (\<exists>c \<in> set (splitCSV (fl_disable_categories f)). t \<in> set (category_tools c))" for t
    unfolding ResolveDisabled_get [OF r(1), of t] by (auto simp: category_tools_def split: option.splits)
  then show ?thesis using ResolveDisabled_wf [OF r(1)] r(2) parsed_timeout [OF assms] by blast
qed

theorem parsed_config_wf_witness:
  "\<exists>sc. parseFlags (default_flags\<lparr>fl_disable_tools := ''pwru, tcpdump, pwru'', fl_tool_timeout := - 1\<rparr>) = Continue sc \<and>
     wf_disabled (cfg_DisabledTools sc) \<and> length (cfg_DisabledTools sc) = 2 \<and> sint (cfg_ToolTimeout sc) = 120000000000"
proof -
  let ?f = "default_flags\<lparr>fl_disable_tools := ''pwru, tcpdump, pwru'', fl_tool_timeout := - 1\<rparr>"
  let ?sc = "case parseFlags ?f of Continue sc \<Rightarrow> sc"
  have p: "(case parseFlags ?f of Continue sc \<Rightarrow> length (cfg_DisabledTools sc) = 2 | _ \<Rightarrow> False)" by code_simp
  then have c: "parseFlags ?f = Continue ?sc" by (simp split: startup.splits)
  from p have l: "length (cfg_DisabledTools ?sc) = 2" by (simp split: startup.splits)
  have "sint (fl_tool_timeout ?f) = - 1" by simp
  with parsed_config_wf [OF c] c l show ?thesis by (intro exI [of _ ?sc]) simp
qed

text \<open>Claim C10: a tool the operator disabled, by its name or by its category, cannot be called: whatever handlers are
  registered, a call to it through the server's chain returns the configuration error and changes
  nothing.\<close>

theorem disabled_tool_unreachable:
  assumes "parseFlags f = Continue sc"
    and "callToolName req \<in> set (splitCSV (fl_disable_tools f)) \<or>
      (\<exists>c \<in> set (splitCSV (fl_disable_categories f)). callToolName req \<in> set (category_tools c))"
  shows "receivingHandler now sc h ctx ''tools/call'' req w =
    ((NilResult, Some (disabled_error (callToolName req))), w)"
proof -
  let ?t = "callToolName req"
  have r: "ResolveDisabled (fl_disable_categories f) (fl_disable_tools f) = Inr (cfg_DisabledTools sc)"
    using assms(1) by (auto simp: parseFlags_def Let_def split: if_splits sum.splits)
  have g: "map_get (cfg_DisabledTools sc) ?t"
    using assms(2) ResolveDisabled_get [OF r, of ?t]
    by (auto simp: category_tools_def split: option.splits)
  then have "length (cfg_DisabledTools sc) > 0" by (auto simp: map_get_def)
  moreover have "?t \<noteq> []" using g ResolveDisabled_known [OF r] by blast
  ultimately show ?thesis using g by (simp add: receivingHandler_def ToolFilter_def Let_def)
qed

theorem disabled_tool_unreachable_witness:
  "\<exists>sc. parseFlags (default_flags\<lparr>fl_disable_categories := ''kernel''\<rparr>) = Continue sc \<and>
     receivingHandler 0 sc (\<lambda>_ _ _ w. ((NilResult, None), Suc w)) context_Background ''tools/call''
       (Some (CallToolParamsRaw ''get-ip'' None)) (0 :: nat) =
     ((NilResult :: unit mcp_result, Some (disabled_error ''get-ip'')), 0)"
proof -
  let ?f = "default_flags\<lparr>fl_disable_categories := ''kernel''\<rparr>"
  let ?sc = "case parseFlags ?f of Continue sc \<Rightarrow> sc"
  have p: "(case parseFlags ?f of Continue sc \<Rightarrow> True | _ \<Rightarrow> False)" by code_simp
  then have c: "parseFlags ?f = Continue ?sc" by (simp split: startup.splits)
  have k: "''kernel'' \<in> set (splitCSV (fl_disable_categories ?f))" "''get-ip'' \<in> set (category_tools ''kernel'')"
    by code_simp+
  have "callToolName (Some (CallToolParamsRaw ''get-ip'' None)) = ''get-ip''" by (simp add: callToolName_def)
  with c k disabled_tool_unreachable [OF c, of "Some (CallToolParamsRaw ''get-ip'' None)"] show ?thesis
    by (intro exI [of _ ?sc]) fastforce
qed

text \<open>Claim C14: the server-wide timeout is the number of seconds given for every non-negative number up to
  9223372036, 120 seconds for a negative one, and it is enforced on every tool call that carries no
  timeout of its own.\<close>

theorem tool_timeout_enforced:
  assumes "parseFlags f = Continue sc" "sint (fl_tool_timeout f) \<le> 9223372036" "fl_tool_timeout f \<noteq> 0"
    and "getTimeoutParams req = 0" "\<not> map_get (cfg_DisabledTools sc) (callToolName req)"
  shows "\<exists>ctx'. receivingHandler now sc h ctx ''tools/call'' req w = h ctx' ''tools/call'' req w \<and>
    (\<exists>t. Deadline ctx' = Some t \<and> t \<le> now +
      (if sint (fl_tool_timeout f) < 0 then 120 else sint (fl_tool_timeout f)) * 1000000000)"
proof -
  let ?s = "sint (fl_tool_timeout f)"
  note v = parsed_timeout [OF assms(1,2)]
  have "?s \<noteq> 0" using assms(3) by (metis signed_0 signed_word_eqI)
  then have p: "0 < sint (cfg_ToolTimeout sc)" using v by (auto split: if_splits)
  let ?c = "context_WithTimeout now ctx (cfg_ToolTimeout sc)"
  have "receivingHandler now sc h ctx ''tools/call'' req w = h ?c ''tools/call'' req w"
    using p assms(4,5) by (simp add: receivingHandler_def ToolFilter_def ToolTimeout_def Let_def)
  moreover have "\<exists>t. Deadline ?c = Some t \<and> t \<le> now + (if ?s < 0 then 120 else ?s) * 1000000000"
    unfolding v [symmetric] by (simp add: context_WithTimeout_def split: option.splits)
  ultimately show ?thesis by blast
qed

lemma parseFlags_plain:
  "\<not> fl_version f \<Longrightarrow> fl_disable_categories f = [] \<Longrightarrow> fl_disable_tools f = [] \<Longrightarrow>
   \<exists>sc. parseFlags f = Continue sc \<and> cfg_DisabledTools sc = [] \<and>
     cfg_ToolTimeout sc = (if sint (fl_tool_timeout f) < 0 then 120 else fl_tool_timeout f) * Second"
  by (simp add: parseFlags_def Let_def ResolveDisabled_def splitCSV_def)

theorem tool_timeout_enforced_witness:
  "\<exists>sc ctx'. parseFlags default_flags = Continue sc \<and>
     receivingHandler 7 sc (\<lambda>c _ _ w. ((NilResult :: unit mcp_result, None), w @ [c])) context_Background ''tools/call''
       (Some (CallToolParamsRaw ''ovn-show'' (Some (JObj [])))) [] = ((NilResult, None), [ctx']) \<and>
     (\<exists>t. Deadline ctx' = Some t \<and> t \<le> 7 + 120 * 1000000000)"
proof -
  let ?req = "Some (CallToolParamsRaw ''ovn-show'' (Some (JObj [])))"
  obtain sc where sc: "parseFlags default_flags = Continue sc" "cfg_DisabledTools sc = []"
    using parseFlags_plain [of default_flags] by (auto simp: default_flags_def)
  have t: "fl_tool_timeout default_flags = 120" by (simp add: default_flags_def)
  have "getTimeoutParams ?req = 0" by code_simp
  with tool_timeout_enforced [OF sc(1), of ?req 7 "\<lambda>c _ _ w. ((NilResult :: unit mcp_result, None), w @ [c])"
      context_Background "[]"] sc t show ?thesis by auto
qed

text \<open>Claim C34: a large timeout removes the timeout. For 9223372037 seconds the multiplication into nanoseconds wraps
  to a negative duration, the timeout middleware is not installed, and the chain is the bare handler.\<close>

theorem tool_timeout_overflow:
  "\<exists>sc. parseFlags (default_flags\<lparr>fl_tool_timeout := 9223372037\<rparr>) = Continue sc \<and>
     sint (cfg_ToolTimeout sc) < 0 \<and> receivingHandler now sc h = h"
proof -
  let ?f = "default_flags\<lparr>fl_tool_timeout := 9223372037\<rparr>"
  obtain sc where sc: "parseFlags ?f = Continue sc" "cfg_DisabledTools sc = []"
    "cfg_ToolTimeout sc = (if sint (fl_tool_timeout ?f) < 0 then 120 else fl_tool_timeout ?f) * Second"
    using parseFlags_plain [of ?f] by (auto simp: default_flags_def)
  then have "sint (cfg_ToolTimeout sc) < 0" by (simp add: Second_def)
  with sc show ?thesis by (auto simp: receivingHandler_def)
qed

section \<open>Serving requests\<close>

text \<open>What the SDK does with a request once it has passed the receiving chain, as far as the world is
  concerned: it calls at most one handler, that of a registered tool that the request names, with
  parameters decoded from the request. A decoded call is a value of some type, of which \<open>tool\<close> gives the
  name of the tool, \<open>sent\<close> says whether clients send it, and \<open>run\<close> what its handler does at a time.\<close>

definition sdk_dispatch ::
  "('c \<Rightarrow> string) \<Rightarrow> ('c \<Rightarrow> bool) \<Rightarrow> (int \<Rightarrow> Context \<Rightarrow> 'c \<Rightarrow> 'w \<Rightarrow> 'w) \<Rightarrow> mcp_Tool list \<Rightarrow>
   (int \<Rightarrow> ('r, 'w) method_handler) \<Rightarrow> bool" where
  "sdk_dispatch tool sent run tools h \<longleftrightarrow> (\<forall>now ctx meth req v.
     snd (h now ctx meth req v) = v \<or>
     meth = ''tools/call'' \<and> (\<exists>call. tool call = callToolName req \<and> tool call \<in> tool_Name ` set tools \<and> sent call \<and>
       snd (h now ctx meth req v) = run now ctx call v))"

text \<open>The worlds a running server reaches: requests come one after the other, at any times, and each goes
  through the receiving chain.\<close>

inductive served :: "MCPServerConfig \<Rightarrow> (int \<Rightarrow> ('r, 'w) method_handler) \<Rightarrow> 'w \<Rightarrow> 'w \<Rightarrow> bool" for sc h where
  start: "served sc h w w"
| request: "served sc h w v \<Longrightarrow> served sc h w (snd (receivingHandler now sc (h now) ctx meth req v))"

lemma filter_passes:
  "snd (ToolFilter d h ctx meth req v) = v \<or> snd (ToolFilter d h ctx meth req v) = snd (h ctx meth req v) \<and>
     (meth = ''tools/call'' \<longrightarrow> callToolName req \<noteq> [] \<longrightarrow> \<not> map_get d (callToolName req))"
  by (auto simp: ToolFilter_def Let_def split: prod.splits option.splits mcp_result.splits)

lemma receiving_passes:
  "snd (receivingHandler now sc h ctx meth req v) = v \<or>
   (\<exists>ctx'. snd (receivingHandler now sc h ctx meth req v) = snd (h ctx' meth req v) \<and>
     (meth = ''tools/call'' \<longrightarrow> callToolName req \<noteq> [] \<longrightarrow> \<not> map_get (cfg_DisabledTools sc) (callToolName req)))"
proof -
  let ?d = "cfg_DisabledTools sc"
  let ?h = "if sint (cfg_ToolTimeout sc) > 0 then ToolTimeout now (cfg_ToolTimeout sc) h else h"
  obtain ctx' where h: "\<And>v. ?h ctx meth req v = h ctx' meth req v"
    by (cases "sint (cfg_ToolTimeout sc) > 0") (auto simp: ToolTimeout_eq)
  show ?thesis
  proof (cases "?d = []")
    case True
    then show ?thesis unfolding receivingHandler_def Let_def using h [of v] by auto
  next
    case False
    then have "receivingHandler now sc h ctx meth req v = ToolFilter ?d ?h ctx meth req v"
      by (simp add: receivingHandler_def Let_def)
    then show ?thesis using filter_passes [of ?d ?h ctx meth req v] h [of v] by metis
  qed
qed

text \<open>What every call that clients send and the filter lets through keeps, the server keeps.\<close>

lemma served_keeps:
  assumes "served sc h w v" "J w" "sdk_dispatch tool sent run tools h"
    and "\<And>now ctx call v. sent call \<Longrightarrow> tool call \<in> tool_Name ` set tools \<Longrightarrow>
      (tool call \<noteq> [] \<longrightarrow> \<not> map_get (cfg_DisabledTools sc) (tool call)) \<Longrightarrow> J v \<Longrightarrow> J (run now ctx call v)"
  shows "J v"
  using assms(1,2)
proof induction
  case (request w v now ctx meth req)
  then have v: "J v" by blast
  from receiving_passes [of now sc "h now" ctx meth req v] show ?case
  proof (elim disjE exE conjE)
    fix ctx' assume e: "snd (receivingHandler now sc (h now) ctx meth req v) = snd (h now ctx' meth req v)"
      and f: "meth = ''tools/call'' \<longrightarrow> callToolName req \<noteq> [] \<longrightarrow> \<not> map_get (cfg_DisabledTools sc) (callToolName req)"
    from assms(3) [unfolded sdk_dispatch_def, rule_format, of now ctx' meth req v] show ?thesis
      unfolding e using v f assms(4) by metis
  qed (simp add: v)
qed

end
