(* ===== verification/Lifecycle.thy ===== *)
theory Lifecycle
  imports Server Transition
begin

text \<open>
  The end of \<^verbatim>\<open>main\<close> in \<^verbatim>\<open>cmd/ovnk-mcp-server/main.go\<close>: the transport that serves requests and the
  goroutine that waits for a signal. The two run at the same time on the variable \<^verbatim>\<open>server\<close>, the context
  and the signal channel; a state of the program is a record of these and of the position of each
  goroutine, and its runs are those of a labelled step relation. Of \<^verbatim>\<open>net/http\<close> it has that \<^verbatim>\<open>Shutdown\<close> makes
  \<^verbatim>\<open>ListenAndServe\<close> return at once and itself waits for the requests under way, of \<^verbatim>\<open>os/signal\<close> that a signal
  is dropped when the channel is full, and of the SDK that \<^verbatim>\<open>Run\<close> returns when its context is cancelled or
  the client is gone, at once or after the requests under way, which \<open>waits\<close> says. The steps of one goroutine between two
  accesses to shared state are one step, and accesses are seen in the order they are made.
\<close>

section \<open>States\<close>

definition JoinHostPort :: "string \<Rightarrow> string \<Rightarrow> string" where
  \<comment> \<open>\<^verbatim>\<open>net.JoinHostPort\<close>\<close>
  "JoinHostPort host port =
     (if CHR '':'' \<in> set host then ''['' @ host @ '']:'' @ port else host @ '':'' @ port)"

record http_Server =
  hs_Addr :: string
  hs_ReadHeaderTimeout :: duration
  hs_IdleTimeout :: duration

datatype main_pc =
    AtTransport
  | RunningStdio
  | ServerAssigned
  | Listening
  | MainReturned
  | FatalExit err

datatype handler_pc =
    AwaitSignal
  | Woken
  | Draining
  | Cancelling
  | HandlerDone

record process =
  pc :: main_pc
  hpc :: handler_pc
  server_var :: "http_Server option"
  shutting_down :: bool
  ctx_done :: bool
  signalChan :: bool
  in_flight :: nat

definition process_start :: process where
  "process_start = \<lparr>pc = AtTransport, hpc = AwaitSignal, server_var = None, shutting_down = False,
     ctx_done = False, signalChan = False, in_flight = 0\<rparr>"

definition ended :: "process \<Rightarrow> bool" where
  "ended s \<longleftrightarrow> (case pc s of MainReturned \<Rightarrow> True | FatalExit _ \<Rightarrow> True | _ \<Rightarrow> False)"

section \<open>Steps\<close>

text \<open>What is done from outside the program: a signal, a new request, the client closing the connection,
  a listener that fails. The other labels are steps of the goroutines and of the tool handlers.\<close>

datatype life_label =
    Signal
  | RequestStart
  | ClientGone
  | ListenFails
  | RequestEnd
  | MainStep
  | HandlerStep

definition own :: "life_label \<Rightarrow> bool" where
  "own l \<longleftrightarrow> l \<in> {RequestEnd, MainStep, HandlerStep}"

definition new_http_server :: "MCPServerConfig \<Rightarrow> http_Server" where
  "new_http_server sc = \<lparr>hs_Addr = JoinHostPort (cfg_Host sc) (cfg_Port sc),
     hs_ReadHeaderTimeout = 10 * Second, hs_IdleTimeout = 60 * Second\<rparr>"

text \<open>Over stdio requests are still accepted for a moment after the context is cancelled.\<close>

definition serving :: "process \<Rightarrow> bool" where
  "serving s \<longleftrightarrow> pc s = RunningStdio \<or> pc s = Listening \<and> \<not> shutting_down s"

text \<open>The goroutine of the signal handler, from its channel to the deferred \<^verbatim>\<open>cancel\<close>.\<close>

inductive handler_step :: "process \<Rightarrow> process \<Rightarrow> bool" where
  receive: "hpc s = AwaitSignal \<Longrightarrow> signalChan s \<Longrightarrow> handler_step s (s\<lparr>hpc := Woken, signalChan := False\<rparr>)"
| no_server: "hpc s = Woken \<Longrightarrow> server_var s = None \<Longrightarrow> handler_step s (s\<lparr>hpc := Cancelling\<rparr>)"
| shutdown: "hpc s = Woken \<Longrightarrow> server_var s \<noteq> None \<Longrightarrow>
    handler_step s (s\<lparr>hpc := Draining, shutting_down := True\<rparr>)"
| drained: "hpc s = Draining \<Longrightarrow> in_flight s = 0 \<Longrightarrow> handler_step s (s\<lparr>hpc := Cancelling\<rparr>)"
| cancel: "hpc s = Cancelling \<Longrightarrow> handler_step s (s\<lparr>hpc := HandlerDone, ctx_done := True\<rparr>)"

text \<open>\<^verbatim>\<open>main\<close> from its switch on the transport.\<close>

inductive main_step :: "bool \<Rightarrow> MCPServerConfig \<Rightarrow> process \<Rightarrow> process \<Rightarrow> bool" for waits sc where
  stdio: "pc s = AtTransport \<Longrightarrow> cfg_Transport sc = ''stdio'' \<Longrightarrow> main_step waits sc s (s\<lparr>pc := RunningStdio\<rparr>)"
| run_cancelled: "pc s = RunningStdio \<Longrightarrow> ctx_done s \<Longrightarrow> waits \<longrightarrow> in_flight s = 0 \<Longrightarrow> main_step waits sc s (s\<lparr>pc := MainReturned\<rparr>)"
| http: "pc s = AtTransport \<Longrightarrow> cfg_Transport sc = ''http'' \<Longrightarrow>
    main_step waits sc s (s\<lparr>pc := ServerAssigned, server_var := Some (new_http_server sc)\<rparr>)"
| listen: "pc s = ServerAssigned \<Longrightarrow> \<not> shutting_down s \<Longrightarrow> main_step waits sc s (s\<lparr>pc := Listening\<rparr>)"
| closed: "pc s \<in> {ServerAssigned, Listening} \<Longrightarrow> shutting_down s \<Longrightarrow> main_step waits sc s (s\<lparr>pc := MainReturned\<rparr>)"
| invalid: "pc s = AtTransport \<Longrightarrow> cfg_Transport sc \<notin> {''stdio'', ''http''} \<Longrightarrow>
    main_step waits sc s (s\<lparr>pc := FatalExit (Errorf ''Invalid transport: %s'' [FStr (cfg_Transport sc)])\<rparr>)"

inductive life_step :: "bool \<Rightarrow> MCPServerConfig \<Rightarrow> life_label \<Rightarrow> process \<Rightarrow> process \<Rightarrow> bool" for waits sc where
  signal: "\<not> ended s \<Longrightarrow> life_step waits sc Signal s (s\<lparr>signalChan := True\<rparr>)"
| request: "serving s \<Longrightarrow> life_step waits sc RequestStart s (s\<lparr>in_flight := in_flight s + 1\<rparr>)"
| response: "\<not> ended s \<Longrightarrow> in_flight s > 0 \<Longrightarrow> life_step waits sc RequestEnd s (s\<lparr>in_flight := in_flight s - 1\<rparr>)"
| client_gone: "pc s = RunningStdio \<Longrightarrow> waits \<longrightarrow> in_flight s = 0 \<Longrightarrow> life_step waits sc ClientGone s (s\<lparr>pc := MainReturned\<rparr>)"
| listen_fails: "pc s \<in> {ServerAssigned, Listening} \<Longrightarrow> life_step waits sc ListenFails s (s\<lparr>pc := MainReturned\<rparr>)"
| main: "\<not> ended s \<Longrightarrow> main_step waits sc s t \<Longrightarrow> life_step waits sc MainStep s t"
| handler: "\<not> ended s \<Longrightarrow> handler_step s t \<Longrightarrow> life_step waits sc HandlerStep s t"

inductive_cases handler_stepE: "handler_step s t"
inductive_cases main_stepE: "main_step waits sc s t"
inductive_cases life_stepE: "life_step waits sc l s t"

definition reachable :: "bool \<Rightarrow> MCPServerConfig \<Rightarrow> process \<Rightarrow> bool" where
  "reachable waits sc = runs (life_step waits sc) (\<lambda>_. True) process_start"

text \<open>The label of a step determines it, so a schedule can be run.\<close>

definition handler_exec :: "process \<Rightarrow> process option" where
  "handler_exec s = (case hpc s of
     AwaitSignal \<Rightarrow> if signalChan s then Some (s\<lparr>hpc := Woken, signalChan := False\<rparr>) else None
   | Woken \<Rightarrow> Some (if server_var s = None then s\<lparr>hpc := Cancelling\<rparr> else s\<lparr>hpc := Draining, shutting_down := True\<rparr>)
   | Draining \<Rightarrow> if in_flight s = 0 then Some (s\<lparr>hpc := Cancelling\<rparr>) else None
   | Cancelling \<Rightarrow> Some (s\<lparr>hpc := HandlerDone, ctx_done := True\<rparr>)
   | HandlerDone \<Rightarrow> None)"

definition main_exec :: "bool \<Rightarrow> MCPServerConfig \<Rightarrow> process \<Rightarrow> process option" where
  "main_exec waits sc s = (case pc s of
     AtTransport \<Rightarrow> Some
       (if cfg_Transport sc = ''stdio'' then s\<lparr>pc := RunningStdio\<rparr>
        else if cfg_Transport sc = ''http'' then s\<lparr>pc := ServerAssigned, server_var := Some (new_http_server sc)\<rparr>
        else s\<lparr>pc := FatalExit (Errorf ''Invalid transport: %s'' [FStr (cfg_Transport sc)])\<rparr>)
   | RunningStdio \<Rightarrow> if ctx_done s \<and> (waits \<longrightarrow> in_flight s = 0) then Some (s\<lparr>pc := MainReturned\<rparr>) else None
   | ServerAssigned \<Rightarrow> Some (if shutting_down s then s\<lparr>pc := MainReturned\<rparr> else s\<lparr>pc := Listening\<rparr>)
   | Listening \<Rightarrow> if shutting_down s then Some (s\<lparr>pc := MainReturned\<rparr>) else None
   | _ \<Rightarrow> None)"

definition life_exec :: "bool \<Rightarrow> MCPServerConfig \<Rightarrow> life_label \<Rightarrow> process \<Rightarrow> process option" where
  "life_exec waits sc l s =
     (if ended s then None else case l of
        Signal \<Rightarrow> Some (s\<lparr>signalChan := True\<rparr>)
      | RequestStart \<Rightarrow> if serving s then Some (s\<lparr>in_flight := in_flight s + 1\<rparr>) else None
      | RequestEnd \<Rightarrow> if in_flight s > 0 then Some (s\<lparr>in_flight := in_flight s - 1\<rparr>) else None
      | ClientGone \<Rightarrow> if pc s = RunningStdio \<and> (waits \<longrightarrow> in_flight s = 0) then Some (s\<lparr>pc := MainReturned\<rparr>) else None
      | ListenFails \<Rightarrow> if pc s \<in> {ServerAssigned, Listening} then Some (s\<lparr>pc := MainReturned\<rparr>) else None
      | MainStep \<Rightarrow> main_exec waits sc s
      | HandlerStep \<Rightarrow> handler_exec s)"

lemma handler_exec_iff: "handler_step s t \<longleftrightarrow> handler_exec s = Some t"
  by (auto simp: handler_exec_def elim!: handler_stepE intro: handler_step.intros
      split: handler_pc.splits if_splits)

lemma main_exec_iff: "main_step waits sc s t \<longleftrightarrow> main_exec waits sc s = Some t"
  by (auto simp: main_exec_def elim!: main_stepE intro: main_step.intros split: main_pc.splits if_splits)

lemma live_states: "serving s \<Longrightarrow> \<not> ended s" "pc s \<in> {RunningStdio, ServerAssigned, Listening} \<Longrightarrow> \<not> ended s"
  by (auto simp: serving_def ended_def)

lemma life_exec_iff: "life_step waits sc l s t \<longleftrightarrow> life_exec waits sc l s = Some t"
  by (cases l) (auto simp: life_step.simps life_exec_def main_exec_iff handler_exec_iff live_states)

primrec life_schedule :: "bool \<Rightarrow> MCPServerConfig \<Rightarrow> life_label list \<Rightarrow> process \<Rightarrow> process option" where
  "life_schedule waits sc [] s = Some s"
| "life_schedule waits sc (l # ls) s = Option.bind (life_exec waits sc l s) (life_schedule waits sc ls)"

lemma schedule_runs: "life_schedule waits sc ls s = Some t \<Longrightarrow> list_all P ls \<Longrightarrow> runs (life_step waits sc) P s t"
  by (induction ls arbitrary: s)
    (auto simp: bind_eq_Some_conv life_exec_iff [symmetric] intro: runs.start runs_trans [OF runs_one])

section \<open>Over stdio\<close>

text \<open>The server variable is set only after \<^verbatim>\<open>main\<close> has passed its assignment.\<close>

interpretation server_set: kept "life_step waits sc" "\<lambda>_. True"
  "\<lambda>s. server_var s \<noteq> None \<longrightarrow> pc s \<in> {ServerAssigned, Listening, MainReturned}"
  by unfold_locales (auto simp: ended_def elim!: life_stepE handler_stepE main_stepE)

lemma http_pc: "reachable waits sc s \<Longrightarrow> server_var s \<noteq> None \<Longrightarrow> pc s \<in> {ServerAssigned, Listening, MainReturned}"
  using server_set.runs_keep [of waits sc process_start s] by (auto simp: reachable_def process_start_def)

definition stdio_ok :: "process \<Rightarrow> bool" where
  "stdio_ok s \<longleftrightarrow> server_var s = None \<and> \<not> shutting_down s \<and> hpc s \<noteq> Draining \<and>
     (hpc s = HandlerDone \<longrightarrow> ctx_done s) \<and> pc s \<in> {AtTransport, RunningStdio, MainReturned}"

lemma stdio_keeps: "cfg_Transport sc = ''stdio'' \<Longrightarrow> life_step waits sc l s t \<Longrightarrow> stdio_ok s \<Longrightarrow> stdio_ok t"
  by (erule life_stepE; (erule main_stepE | erule handler_stepE)?)
    (auto simp: stdio_ok_def serving_def ended_def)

lemma stdio_start: "stdio_ok process_start"
  by (simp add: stdio_ok_def process_start_def)

interpretation stdio: kept "life_step waits sc" "\<lambda>_. True" "\<lambda>s. cfg_Transport sc = ''stdio'' \<longrightarrow> stdio_ok s"
  by unfold_locales (auto intro: stdio_keeps)

lemma stdio_reachable: "cfg_Transport sc = ''stdio'' \<Longrightarrow> reachable waits sc s \<Longrightarrow> stdio_ok s"
  using stdio.runs_keep [of waits sc process_start s] by (auto simp: reachable_def stdio_start)

section \<open>A signal ends the program\<close>

text \<open>A signal has come and the handler has not missed the server: over stdio always, over HTTP when the
  variable \<^verbatim>\<open>server\<close> is set before the handler looks at it.\<close>

definition stopping :: "MCPServerConfig \<Rightarrow> process \<Rightarrow> bool" where
  "stopping sc s \<longleftrightarrow>
     cfg_Transport sc = ''stdio'' \<and> stdio_ok s \<and> (hpc s = AwaitSignal \<longrightarrow> signalChan s) \<or>
     cfg_Transport sc = ''http'' \<and> server_var s \<noteq> None \<and> pc s \<in> {ServerAssigned, Listening, MainReturned} \<and>
       (hpc s = AwaitSignal \<and> signalChan s \<or> hpc s = Woken \<or> shutting_down s)"

definition life_measure :: "process \<Rightarrow> nat" where
  "life_measure s = in_flight s +
     (case pc s of AtTransport \<Rightarrow> 3 | ServerAssigned \<Rightarrow> 2 | RunningStdio \<Rightarrow> 1 | Listening \<Rightarrow> 1 | _ \<Rightarrow> 0) +
     (case hpc s of AwaitSignal \<Rightarrow> 4 | Woken \<Rightarrow> 3 | Draining \<Rightarrow> 2 | Cancelling \<Rightarrow> 1 | HandlerDone \<Rightarrow> 0)"

lemma stopping_keeps: "life_step waits sc l s t \<Longrightarrow> stopping sc s \<Longrightarrow> stopping sc t"
proof -
  assume l: "life_step waits sc l s t" and s: "stopping sc s"
  consider "cfg_Transport sc = ''stdio''" | "cfg_Transport sc = ''http''" using s by (auto simp: stopping_def)
  then show ?thesis
  proof cases
    case 1
    with l s show ?thesis using stdio_keeps [OF 1 l]
      by (auto simp: stopping_def elim!: life_stepE handler_stepE main_stepE)
  next
    case 2
    with l s show ?thesis by (auto simp: stopping_def elim!: life_stepE handler_stepE main_stepE)
  qed
qed

lemma own_descends: "life_step waits sc l s t \<Longrightarrow> own l \<Longrightarrow> life_measure t < life_measure s"
  by (erule life_stepE; (erule main_stepE | erule handler_stepE)?) (auto simp: own_def life_measure_def)

lemma handler_moves:
  assumes "\<not> ended s" "hpc s = AwaitSignal \<and> signalChan s \<or> hpc s \<in> {Woken, Cancelling}"
  shows "\<exists>l t. own l \<and> life_step waits sc l s t"
proof -
  have "\<exists>t. handler_step s t"
    using assms(2) by (cases "server_var s = None") (auto intro: handler_step.intros)
  then show ?thesis using assms(1) life_step.handler [of s _ waits sc] by (auto simp: own_def intro!: exI [of _ HandlerStep])
qed

lemma main_moves: "\<not> ended s \<Longrightarrow> main_step waits sc s t \<Longrightarrow> \<exists>l t. own l \<and> life_step waits sc l s t"
  using life_step.main [of s waits sc t] by (auto simp: own_def intro!: exI [of _ MainStep])

lemma stopping_moves:
  assumes "stopping sc s" "pc s \<noteq> MainReturned"
  shows "\<exists>l t. own l \<and> life_step waits sc l s t"
proof (cases "cfg_Transport sc = ''stdio''")
  case True
  with assms have s: "stdio_ok s" "hpc s = AwaitSignal \<longrightarrow> signalChan s" by (auto simp: stopping_def)
  then have e: "\<not> ended s" using assms(2) by (auto simp: stdio_ok_def ended_def)
  show ?thesis
  proof (cases "hpc s = HandlerDone")
    case False
    with e s show ?thesis by (intro handler_moves) (auto simp: stdio_ok_def intro: handler_pc.exhaust [of "hpc s"])
  next
    case hd: True
    consider "pc s = AtTransport" | "pc s = RunningStdio" "in_flight s > 0" | "pc s = RunningStdio" "waits \<longrightarrow> in_flight s = 0"
      using s assms(2) by (auto simp: stdio_ok_def)
    then show ?thesis
    proof cases
      case 1
      show ?thesis by (rule main_moves [OF e main_step.stdio [OF 1 True]])
    next
      case 2
      with e show ?thesis using life_step.response [of s waits sc] by (auto simp: own_def)
    next
      case 3
      have "ctx_done s" using s hd by (simp add: stdio_ok_def)
      with 3 show ?thesis by (intro main_moves [OF e main_step.run_cancelled])
    qed
  qed
next
  case False
  with assms have s: "pc s \<in> {ServerAssigned, Listening}"
    "hpc s = AwaitSignal \<and> signalChan s \<or> hpc s = Woken \<or> shutting_down s" by (auto simp: stopping_def)
  then have e: "\<not> ended s" by (auto simp: ended_def)
  show ?thesis
  proof (cases "shutting_down s")
    case True
    from main_step.closed [OF s(1) True] show ?thesis by (rule main_moves [OF e])
  next
    case False
    with s e show ?thesis by (intro handler_moves) auto
  qed
qed

interpretation stop: descent "life_step waits sc" own "stopping sc" "\<lambda>s. pc s = MainReturned" life_measure
  by unfold_locales (erule (1) stopping_keeps | erule (1) own_descends | erule (1) stopping_moves)+

text \<open>Claim C13: a signal ends the program unless it came too early. From every reachable state in which a signal
  is pending, over stdio at any moment, and over HTTP if \<^verbatim>\<open>main\<close> has assigned its server and the handler
  goroutine has not received a signal yet, the program returns from \<^verbatim>\<open>main\<close> on every schedule of its goroutines and
  of the tool calls under way, whether or not the SDK waits for these.\<close>

theorem signal_ends_program:
  assumes "reachable waits sc s" "signalChan s" "\<not> ended s"
    and "cfg_Transport sc = ''stdio'' \<or> cfg_Transport sc = ''http'' \<and> server_var s \<noteq> None \<and> hpc s = AwaitSignal"
  shows "inevitable (life_step waits sc) own (\<lambda>s. pc s = MainReturned) s"
proof (rule stop.reaches_goal)
  show "stopping sc s"
    using assms stdio_reachable [OF _ assms(1)] http_pc [OF assms(1)]
    by (auto simp: stopping_def ended_def)
qed

definition stdio_signalled :: process where
  "stdio_signalled = process_start\<lparr>pc := RunningStdio, signalChan := True, in_flight := 2\<rparr>"

definition plain_config :: "string \<Rightarrow> MCPServerConfig" where
  "plain_config tr = (case parseFlags (default_flags\<lparr>fl_transport := tr\<rparr>) of Continue sc \<Rightarrow> sc)"

lemma plain_transport: "cfg_Transport (plain_config tr) = tr"
  using parseFlags_plain [of "default_flags\<lparr>fl_transport := tr\<rparr>"]
  by (auto simp: plain_config_def default_flags_def parseFlags_def Let_def ResolveDisabled_def splitCSV_def)

lemma stdio_signalled_reachable: "reachable waits (plain_config ''stdio'') stdio_signalled"
  unfolding reachable_def
  by (rule schedule_runs [where ls = "[MainStep, RequestStart, RequestStart, Signal]"])
    (simp_all add: life_exec_def main_exec_def ended_def serving_def process_start_def stdio_signalled_def plain_transport)

theorem signal_ends_program_witness:
  "\<forall>waits. reachable waits (plain_config ''stdio'') stdio_signalled \<and> in_flight stdio_signalled = 2 \<and>
     inevitable (life_step waits (plain_config ''stdio'')) own (\<lambda>s. pc s = MainReturned) stdio_signalled"
proof
  fix waits
  show "reachable waits (plain_config ''stdio'') stdio_signalled \<and> in_flight stdio_signalled = 2 \<and>
      inevitable (life_step waits (plain_config ''stdio'')) own (\<lambda>s. pc s = MainReturned) stdio_signalled"
    using signal_ends_program [OF stdio_signalled_reachable] stdio_signalled_reachable
    by (simp add: plain_transport stdio_signalled_def ended_def process_start_def)
qed

section \<open>Over HTTP\<close>

text \<open>Claim C37: Over HTTP a signal cuts tool calls off: \<^verbatim>\<open>ListenAndServe\<close> returns as soon as the handler calls \<^verbatim>\<open>Shutdown\<close>, and
  \<^verbatim>\<open>main\<close> returns with it, while \<^verbatim>\<open>Shutdown\<close> still waits for the calls under way. This run has no other event
  than a request and a signal.\<close>

theorem http_exit_cuts_requests:
  "\<exists>s. runs (life_step waits (plain_config ''http'')) (\<lambda>l. l \<notin> {ClientGone, ListenFails}) process_start s \<and>
     pc s = MainReturned \<and> hpc s = Draining \<and> in_flight s = 1"
proof -
  let ?sc = "plain_config ''http''"
  let ?s = "process_start\<lparr>pc := MainReturned, hpc := Draining, server_var := Some (new_http_server ?sc),
    shutting_down := True, in_flight := 1\<rparr>"
  have "life_schedule waits ?sc [MainStep, MainStep, RequestStart, Signal, HandlerStep, HandlerStep, MainStep] process_start = Some ?s"
    by (simp add: life_exec_def main_exec_def handler_exec_def ended_def serving_def process_start_def plain_transport)
  then have "runs (life_step waits ?sc) (\<lambda>l. l \<notin> {ClientGone, ListenFails}) process_start ?s"
    by (rule schedule_runs) simp
  then show ?thesis by (intro exI [of _ ?s]) simp
qed

text \<open>The program after its handler has ended without a server to shut down.\<close>

definition deaf :: "process \<Rightarrow> bool" where
  "deaf s \<longleftrightarrow> pc s \<in> {ServerAssigned, Listening} \<and> hpc s = HandlerDone \<and> \<not> shutting_down s"

interpretation deaf: kept "life_step waits sc" "\<lambda>l. l \<noteq> ListenFails" deaf
  by unfold_locales (auto simp: deaf_def elim!: life_stepE handler_stepE main_stepE)

text \<open>Claim C38: A signal that comes before \<^verbatim>\<open>main\<close> has set its server is lost: the handler finds no server to shut down,
  cancels a context that the HTTP server does not use, and ends. From then on no signal, and nothing but
  a failing listener, ends the program.\<close>

theorem early_signal_lost:
  "\<exists>s. runs (life_step waits (plain_config ''http'')) (\<lambda>l. l \<notin> {ClientGone, ListenFails}) process_start s \<and>
     ctx_done s \<and> pc s = Listening \<and>
     Collect (runs (life_step waits (plain_config ''http'')) (\<lambda>l. l \<noteq> ListenFails) s) \<subseteq> {t. \<not> ended t \<and> \<not> shutting_down t}"
proof -
  let ?sc = "plain_config ''http''"
  let ?s = "process_start\<lparr>pc := Listening, hpc := HandlerDone, server_var := Some (new_http_server ?sc), ctx_done := True\<rparr>"
  have "life_schedule waits ?sc [Signal, HandlerStep, HandlerStep, HandlerStep, MainStep, MainStep] process_start = Some ?s"
    by (simp add: life_exec_def main_exec_def handler_exec_def ended_def process_start_def plain_transport)
  then have "runs (life_step waits ?sc) (\<lambda>l. l \<notin> {ClientGone, ListenFails}) process_start ?s"
    by (rule schedule_runs) simp
  moreover have "\<not> ended t \<and> \<not> shutting_down t" if "runs (life_step waits ?sc) (\<lambda>l. l \<noteq> ListenFails) ?s t" for t
    using deaf.runs_keep [OF that] by (auto simp: deaf_def ended_def process_start_def)
  ultimately show ?thesis by (intro exI [of _ ?s]) auto
qed

end
