(* ===== verification/Offline.thy ===== *)
theory Offline
  imports Server
begin

text \<open>
  The offline tools under the whole server: calls to the tools of \<^verbatim>\<open>pkg/sosreport\<close> and \<^verbatim>\<open>pkg/must-gather\<close>, what
  the handlers registered for them do, and what any sequence of requests through the receiving chain
  may read, write and run. The two packages act on one world, the sosreport tools through \<open>os_fs\<close> and the
  must-gather tools through \<open>mg_os\<close>.
\<close>

section \<open>Calls to the offline tools\<close>

datatype offline_call =
    CallSosListPlugins ListPluginsParams
  | CallSosListCommands ListCommandsParams
  | CallSosSearchCommands SearchCommandsParams
  | CallSosGetCommand GetCommandParams
  | CallSosGetPodLogs sos_GetPodLogsParams
  | CallMgGetResource mg_GetResourceParams
  | CallMgListResources mg_ListResourcesParams
  | CallMgPodLogs mg_GetPodLogsParams
  | CallMgOvnkInfo GetOvnKInfoParams
  | CallMgListNorthbound ListDatabasesParams
  | CallMgListSouthbound ListDatabasesParams
  | CallMgQueryDatabase QueryDatabaseParams

primrec offline_tool :: "offline_call \<Rightarrow> string" where
  "offline_tool (CallSosListPlugins _) = ''sos-list-plugins''"
| "offline_tool (CallSosListCommands _) = ''sos-list-commands''"
| "offline_tool (CallSosSearchCommands _) = ''sos-search-commands''"
| "offline_tool (CallSosGetCommand _) = ''sos-get-command''"
| "offline_tool (CallSosGetPodLogs _) = ''sos-get-pod-logs''"
| "offline_tool (CallMgGetResource _) = ''must-gather-get-resource''"
| "offline_tool (CallMgListResources _) = ''must-gather-list-resources''"
| "offline_tool (CallMgPodLogs _) = ''must-gather-pod-logs''"
| "offline_tool (CallMgOvnkInfo _) = ''must-gather-ovnk-info''"
| "offline_tool (CallMgListNorthbound _) = ''must-gather-list-northbound-databases''"
| "offline_tool (CallMgListSouthbound _) = ''must-gather-list-southbound-databases''"
| "offline_tool (CallMgQueryDatabase _) = ''must-gather-query-database''"

text \<open>The report or must-gather a call names.\<close>

primrec sos_root :: "offline_call \<Rightarrow> string option" where
  "sos_root (CallSosListPlugins i) = Some (lpp_SosreportPath i)"
| "sos_root (CallSosListCommands i) = Some (lcp_SosreportPath i)"
| "sos_root (CallSosSearchCommands i) = Some (scp_SosreportPath i)"
| "sos_root (CallSosGetCommand i) = Some (gcp_SosreportPath i)"
| "sos_root (CallSosGetPodLogs i) = Some (spl_SosreportPath i)"
| "sos_root (CallMgGetResource _) = None"
| "sos_root (CallMgListResources _) = None"
| "sos_root (CallMgPodLogs _) = None"
| "sos_root (CallMgOvnkInfo _) = None"
| "sos_root (CallMgListNorthbound _) = None"
| "sos_root (CallMgListSouthbound _) = None"
| "sos_root (CallMgQueryDatabase _) = None"

primrec mg_path :: "offline_call \<Rightarrow> string option" where
  "mg_path (CallSosListPlugins _) = None"
| "mg_path (CallSosListCommands _) = None"
| "mg_path (CallSosSearchCommands _) = None"
| "mg_path (CallSosGetCommand _) = None"
| "mg_path (CallSosGetPodLogs _) = None"
| "mg_path (CallMgGetResource i) = Some (gr_MustGatherPath i)"
| "mg_path (CallMgListResources i) = Some (lr_MustGatherPath i)"
| "mg_path (CallMgPodLogs i) = Some (ml_MustGatherPath i)"
| "mg_path (CallMgOvnkInfo i) = Some (oi_MustGatherPath i)"
| "mg_path (CallMgListNorthbound i) = Some (ld_MustGatherPath i)"
| "mg_path (CallMgListSouthbound i) = Some (ld_MustGatherPath i)"
| "mg_path (CallMgQueryDatabase i) = Some (qd_MustGatherPath i)"

text \<open>What code outside the repository gives the handlers: quoting, client patterns, the order of a map,
  the JSONPath parser and the files of the sosreports.\<close>

record 'w offline_env =
  oe_quote :: "string \<Rightarrow> string"
  oe_compile :: compiler
  oe_iter :: "plugins \<Rightarrow> plugins"
  oe_parse :: "string \<Rightarrow> err option"
  oe_fs :: "'w os_fs"

primrec run_offline :: "'w offline_env \<Rightarrow> 'w MustGatherMCPServer \<Rightarrow> Context \<Rightarrow> offline_call \<Rightarrow> 'w \<Rightarrow> 'w" where
  "run_offline e s ctx (CallSosListPlugins i) w = snd (sos_ListPlugins (oe_iter e) (oe_fs e) i w)"
| "run_offline e s ctx (CallSosListCommands i) w = snd (sos_ListCommands (oe_fs e) i w)"
| "run_offline e s ctx (CallSosSearchCommands i) w = snd (sos_SearchCommands (oe_compile e) (oe_iter e) (oe_fs e) i w)"
| "run_offline e s ctx (CallSosGetCommand i) w = snd (sos_GetCommand (oe_quote e) (oe_compile e) (oe_fs e) i w)"
| "run_offline e s ctx (CallSosGetPodLogs i) w = snd (sos_GetPodLogs (oe_quote e) (oe_compile e) (oe_fs e) i w)"
| "run_offline e s ctx (CallMgGetResource i) w = snd (mg_GetResource (oe_parse e) s ctx i w)"
| "run_offline e s ctx (CallMgListResources i) w = snd (mg_ListResources (oe_parse e) s ctx i w)"
| "run_offline e s ctx (CallMgPodLogs i) w = snd (mg_GetPodLogs (oe_compile e) s ctx i w)"
| "run_offline e s ctx (CallMgOvnkInfo i) w = snd (mg_GetOvnKInfo s ctx i w)"
| "run_offline e s ctx (CallMgListNorthbound i) w = snd (mg_ListNorthboundDatabases s ctx i w)"
| "run_offline e s ctx (CallMgListSouthbound i) w = snd (mg_ListSouthboundDatabases s ctx i w)"
| "run_offline e s ctx (CallMgQueryDatabase i) w = snd (mg_QueryDatabase s ctx i w)"

section \<open>What the calls may do\<close>

definition offline_step :: "'w os_fs \<Rightarrow> 'w mg_os \<Rightarrow> fs_call + mg_op \<Rightarrow> 'w \<Rightarrow> 'w" where
  "offline_step fs os a = (case a of Inl c \<Rightarrow> fs_step fs c | Inr b \<Rightarrow> mg_step os b)"

text \<open>The programs the must-gather tools run for a must-gather: \<^verbatim>\<open>omc use\<close> on it, an omc query of one of the
  permitted shapes, or \<^verbatim>\<open>ovsdb-tool query\<close> of a select on a file below it.\<close>

inductive offline_command :: "'w MustGatherMCPServer \<Rightarrow> string \<Rightarrow> string \<Rightarrow> strs \<Rightarrow> bool" for s path where
  use: "offline_command s path (omc_commandPath (mgs_omcClient s)) [''use'', path]"
| omc: "omc_args as \<Longrightarrow> offline_command s path (omc_commandPath (mgs_omcClient s)) as"
| select: "mgs_ovsdbTool s = Some t \<Longrightarrow> below path f \<Longrightarrow>
    json_Marshal (ot_json t) (select_query schema table conds columns) = Inr q \<Longrightarrow>
    offline_command s path (ot_commandPath t) [''query'', f, q]"

definition mg_op_ok :: "'w MustGatherMCPServer \<Rightarrow> string \<Rightarrow> mg_op \<Rightarrow> bool" where
  "mg_op_ok s path a \<longleftrightarrow> list_all (below path) (op_writes a) \<and> list_all (below path) (op_reads a) \<and>
     (case a of OCommand _ cmd as \<Rightarrow> offline_command s path cmd as | _ \<Rightarrow> True)"

text \<open>What the tool for pod logs opens for a report: a path that has the base name of a container log, and that
  is joined to the report as the manifest has it, so it may leave the report.\<close>

definition pod_log_open :: "string \<Rightarrow> fs_call \<Rightarrow> bool" where
  "pod_log_open r c \<longleftrightarrow> (\<exists>p ns n ct. c = OpenCall (JoinPath [r, TrimPrefix p ''host/'']) \<and> matchesContainerLogFile p ns n ct)"

text \<open>With \<open>logs\<close> that tool is available.\<close>

definition offline_ok ::
  "'w MustGatherMCPServer \<Rightarrow> bool \<Rightarrow> string set \<Rightarrow> string set \<Rightarrow> fs_call + mg_op \<Rightarrow> bool" where
  "offline_ok s logs roots paths a = (case a of
     Inl c \<Rightarrow> \<exists>r \<in> roots. under r c \<or> logs \<and> pod_log_open r c
   | Inr b \<Rightarrow> \<exists>p \<in> paths. mg_op_ok s p b)"

lemma offline_step_simps [simp]: "offline_step fs os (Inl c) = fs_step fs c" "offline_step fs os (Inr b) = mg_step os b"
  by (simp_all add: offline_step_def)

lemma calls_offline_fs:
  "calls (fs_step fs) (\<lambda>c. P (Inl c)) w w' \<Longrightarrow> calls (offline_step fs os) P w w'"
proof (induction rule: calls.induct)
  case (call w w' a)
  then show ?case using calls.call [of "offline_step fs os" P w w' "Inl a"] by simp
qed (rule calls.none)

lemma calls_offline_mg:
  "calls (mg_step os) (\<lambda>c. P (Inr c)) w w' \<Longrightarrow> calls (offline_step fs os) P w w'"
proof (induction rule: calls.induct)
  case (call w w' a)
  then show ?case using calls.call [of "offline_step fs os" P w w' "Inr a"] by simp
qed (rule calls.none)

section \<open>The handlers\<close>

lemma first_path_match: "first_path P ps = Some p \<Longrightarrow> P p"
  by (induction ps) (auto split: if_splits)

lemma first_log_match: "first_log P fs = Some p \<Longrightarrow> P p"
  by (induction fs) (auto split: option.splits dest: first_path_match)

lemma sos_GetPodLogs_calls:
  "calls (fs_step fs) (\<lambda>c. under (spl_SosreportPath i) c \<or> pod_log_open (spl_SosreportPath i) c) w
     (snd (sos_GetPodLogs quote compile fs i w))"
proof -
  let ?root = "spl_SosreportPath i" and ?P = "\<lambda>p. matchesContainerLogFile p (spl_Namespace i) (spl_Name i) (spl_Container i)"
  let ?calls = "calls (fs_step fs) (\<lambda>c. under ?root c \<or> pod_log_open ?root c)"
  have m: "?calls w (snd (loadManifest fs ?root w))" for w
    by (rule calls_mono [OF loadManifest_calls]) simp
  have o: "?calls v (snd (searchInFile compile fs (JoinPath [?root, TrimPrefix p ''host/'']) q v))"
    if "first_log ?P ls = Some p" for v p q ls
    unfolding snd_searchInFile
    by (rule fs_calls) (use first_log_match [OF that] in \<open>auto simp: pod_log_open_def\<close>)
  have l: "?calls v (snd (case first_log ?P ls of None \<Rightarrow> (x, v) | Some p \<Rightarrow>
      (let fullPath = JoinPath [?root, TrimPrefix p ''host/''] in
       case searchInFile compile fs fullPath q v of (Inl e, w2) \<Rightarrow> (Inl e, w2)
       | (Inr result, w2) \<Rightarrow> if length result = 0 then (f result, w2) else (g result, w2))))" for x v q f g ls
    using o [of ls _ v q] by (auto simp: Let_def calls.none split: option.splits prod.splits sum.splits)
  show ?thesis
    unfolding sos_GetPodLogs_def getPodLogs_def
    by (intro calls_case_result calls_if calls_pair calls_seq calls_branches m l)
qed

lemma omc_op_ok:
  assumes "omc_op (omc_commandPath (mgs_omcClient s)) ctx path a"
  shows "mg_op_ok s path a"
  using assms omc_op_reads [OF assms]
  by (cases rule: omc_op.cases) (auto simp: mg_op_ok_def intro: offline_command.intros)

lemma db_op_ok:
  assumes "os_names (ot_os t)" "mgs_ovsdbTool s = Some t" "ot_omcClient t = mgs_omcClient s" "db_op t ctx path a"
  shows "mg_op_ok s path a"
proof -
  have w: "list_all (below path) (op_writes a)" "list_all (below path) (op_reads a)"
    by (rule db_op_confined [OF assms(1,4)] db_op_reads [OF assms(1,4)])+
  show ?thesis
    using assms(4)
  proof cases
    case omc
    then show ?thesis using omc_op_ok [of s ctx path a] assms(3) by simp
  next
    case (query nl n table conds columns q p)
    have "below nl p" unfolding query(5) by (rule below_db_file [OF query(3)])
    then have "below path p" using logs_dir_below [OF assms(1) query(2)] below_trans by blast
    then show ?thesis using w query assms(2) by (auto simp: mg_op_ok_def intro: offline_command.select)
  qed (use w in \<open>auto simp: mg_op_ok_def\<close>)
qed

lemma new_must_gather:
  assumes "mg_NewMCPServer os LookPath lib = Inr s"
  shows "omc_os (mgs_omcClient s) = os" "mgs_ovsdbTool s = Some t \<Longrightarrow> ot_omcClient t = mgs_omcClient s"
  using assms by (auto simp: mg_NewMCPServer_def NewOmcClient_def NewOvsdbTool_def getOmcCommandPath_def getOvsdbToolCommandPath_def split: sum.splits)

lemma calls_db_handlers:
  assumes "mg_NewMCPServer os LookPath lib = Inr s" "os_names os"
  shows "calls (mg_step os) (mg_op_ok s (ld_MustGatherPath l)) w (snd (mg_ListNorthboundDatabases s ctx l w))"
    "calls (mg_step os) (mg_op_ok s (ld_MustGatherPath l)) w (snd (mg_ListSouthboundDatabases s ctx l w))"
    "calls (mg_step os) (mg_op_ok s (qd_MustGatherPath q)) w (snd (mg_QueryDatabase s ctx q w))"
proof -
  have "calls (mg_step os) (mg_op_ok s (ld_MustGatherPath l)) w (snd (mg_ListNorthboundDatabases s ctx l w)) \<and>
    calls (mg_step os) (mg_op_ok s (ld_MustGatherPath l)) w (snd (mg_ListSouthboundDatabases s ctx l w)) \<and>
    calls (mg_step os) (mg_op_ok s (qd_MustGatherPath q)) w (snd (mg_QueryDatabase s ctx q w))"
  proof (cases "mgs_ovsdbTool s")
    case None
    then show ?thesis
      by (simp add: mg_ListNorthboundDatabases_def mg_ListSouthboundDatabases_def mg_QueryDatabase_def calls.none)
  next
    case (Some t)
    have c: "ot_omcClient t = mgs_omcClient s" "ot_os t = os"
      using new_must_gather [OF assms(1)] Some by simp_all
    have s: "s = with_tool (mgs_omcClient s) t" using Some by simp
    have ok: "db_op t ctx p a \<Longrightarrow> mg_op_ok s p a" for p a
      using db_op_ok [of t s ctx p a] assms(2) Some c by simp
    show ?thesis
      using calls_db_tools(1,2) [where t = t and c = "mgs_omcClient s" and ctx = ctx and w = w and l = l, folded s, unfolded c(2)]
        calls_db_tools(3) [where t = t and c = "mgs_omcClient s" and ctx = ctx and w = w and q = q, folded s, unfolded c(2)]
      by (blast intro: calls_mono ok)
  qed
  then show "calls (mg_step os) (mg_op_ok s (ld_MustGatherPath l)) w (snd (mg_ListNorthboundDatabases s ctx l w))"
    "calls (mg_step os) (mg_op_ok s (ld_MustGatherPath l)) w (snd (mg_ListSouthboundDatabases s ctx l w))"
    "calls (mg_step os) (mg_op_ok s (qd_MustGatherPath q)) w (snd (mg_QueryDatabase s ctx q w))" by auto
qed

definition offline_named :: "string set \<Rightarrow> string set \<Rightarrow> offline_call \<Rightarrow> bool" where
  "offline_named roots paths c \<longleftrightarrow> set_option (sos_root c) \<subseteq> roots \<and> set_option (mg_path c) \<subseteq> paths"

lemma run_offline_calls:
  assumes "mg_NewMCPServer os LookPath lib = Inr s" "os_names os" "offline_named roots paths call"
    and "offline_tool call = ''sos-get-pod-logs'' \<longrightarrow> logs"
  shows "calls (offline_step (oe_fs e) os) (offline_ok s logs roots paths) w (run_offline e s ctx call w)"
proof -
  have fs: "calls (offline_step (oe_fs e) os) (offline_ok s logs roots paths) w w'"
    if "calls (fs_step (oe_fs e)) (\<lambda>c. under r c \<or> logs \<and> pod_log_open r c) w w'" "r \<in> roots" for r w'
    by (rule calls_offline_fs, rule calls_mono [OF that(1)]) (use that(2) in \<open>auto simp: offline_ok_def\<close>)
  have sos: "calls (offline_step (oe_fs e) os) (offline_ok s logs roots paths) w w'"
    if "calls (fs_step (oe_fs e)) (under r) w w'" "r \<in> roots" for r w'
    by (rule fs [OF calls_mono [OF that(1)] that(2)]) simp
  have mg: "calls (offline_step (oe_fs e) os) (offline_ok s logs roots paths) w w'"
    if "calls (mg_step os) P w w'" "\<And>a. P a \<Longrightarrow> mg_op_ok s p a" "p \<in> paths" for P p w'
    by (rule calls_offline_mg, rule calls_mono [OF that(1)]) (use that(2,3) in \<open>auto simp: offline_ok_def\<close>)
  note omc = calls_omc_tools [where s = s, unfolded new_must_gather(1) [OF assms(1)]]
  note db = calls_db_handlers [OF assms(1,2)]
  show ?thesis
  proof (cases call)
    case (CallSosGetPodLogs i)
    then show ?thesis using assms(3,4) fs [OF calls_mono [OF sos_GetPodLogs_calls]]
      by (auto simp: offline_named_def)
  qed (use assms(3) in \<open>auto simp: offline_named_def intro: sos [OF sos_handler_calls(1)] sos [OF sos_handler_calls(2)]
      sos [OF sos_handler_calls(3)] sos [OF sos_handler_calls(4)] mg [OF omc(1) omc_op_ok] mg [OF omc(2) omc_op_ok]
      mg [OF omc(3) omc_op_ok] mg [OF omc(4) omc_op_ok] mg [OF db(1)] mg [OF db(2)] mg [OF db(3)]\<close>)
qed

section \<open>Any sequence of requests\<close>

text \<open>Claim C2: A server in offline mode is confined to what its clients name. After any sequence of requests, with
  \<open>roots\<close> the sosreports and \<open>paths\<close> the must-gathers they name, the server has done nothing but: read below a
  named sosreport; unless \<^verbatim>\<open>sos-get-pod-logs\<close> is disabled, open files named as container logs at paths that are joined to a
  named sosreport, inside it or not; read and write below a named
  must-gather, whatever its archives contain; and run \<^verbatim>\<open>omc use\<close> on it, an omc query of a permitted shape, or
  \<^verbatim>\<open>ovsdb-tool query\<close> of a select on a file below it. What those programs read and write themselves is
  not part of this.\<close>

theorem offline_requests_confined:
  assumes "mg_NewMCPServer os LookPath lib = Inr s" "os_names os"
    and "setupOffline (mg_NewMCPServer os LookPath lib) [] = tools"
    and "sdk_dispatch offline_tool (offline_named roots paths) (\<lambda>now. run_offline e s) tools h"
    and "served sc h w w'"
  shows "calls (offline_step (oe_fs e) os)
    (offline_ok s (\<not> map_get (cfg_DisabledTools sc) ''sos-get-pod-logs'') roots paths) w w'"
    (is "calls ?step ?ok w w'")
proof (rule served_keeps [where J = "calls ?step ?ok w", OF assms(5) calls.none assms(4)])
  fix now ctx call v
  assume c: "offline_named roots paths call" and v: "calls ?step ?ok w v"
    and d: "offline_tool call \<noteq> [] \<longrightarrow> \<not> map_get (cfg_DisabledTools sc) (offline_tool call)"
  have "calls ?step ?ok v (run_offline e s ctx call v)"
    by (rule run_offline_calls [OF assms(1,2) c]) (use d in auto)
  then show "calls ?step ?ok w (run_offline e s ctx call v)" by (rule calls_trans [OF _ v])
qed

text \<open>A client that asks for the northbound databases of a must-gather on the small file system.\<close>

definition sample_LookPath :: "string \<Rightarrow> string result" where
  "sample_LookPath p = Inr (''/usr/bin/'' @ p)"

definition sample_mg :: "fs MustGatherMCPServer" where
  "sample_mg = (case mg_NewMCPServer (fs_os whole_archive ''pods'') sample_LookPath demo_json of Inr s \<Rightarrow> s)"

definition sample_offline :: "fs offline_env" where
  "sample_offline = \<lparr>oe_quote = id, oe_compile = (\<lambda>_. Inr (\<lambda>_. True)), oe_iter = id, oe_parse = (\<lambda>_. None),
     oe_fs = \<lparr>fs_NotExist = (\<lambda>p w. (map_of w p = None, w)), fs_Open = (\<lambda>p w. (Inl enoent, w)),
       fs_ReadFile = (\<lambda>p w. (Inl enoent, w)), fs_gunzip = Inr, fs_Unmarshal = (\<lambda>_. Inl enoent)\<rparr>\<rparr>"

definition offline_handler :: "int \<Rightarrow> (unit, fs) method_handler" where
  "offline_handler now ctx meth req v = ((NilResult, None),
     if meth = ''tools/call'' \<and> callToolName req = ''must-gather-list-northbound-databases''
     then run_offline sample_offline sample_mg ctx (CallMgListNorthbound \<lparr>ld_MustGatherPath = ''/mg''\<rparr>) v else v)"

definition offline_config :: MCPServerConfig where
  "offline_config = (case parseFlags (default_flags\<lparr>fl_mode := ''offline''\<rparr>) of Continue sc \<Rightarrow> sc)"

lemma sample_mg_new: "mg_NewMCPServer (fs_os whole_archive ''pods'') sample_LookPath demo_json = Inr sample_mg"
  by (simp add: sample_mg_def mg_NewMCPServer_def NewOmcClient_def getOmcCommandPath_def sample_LookPath_def)

lemma offline_sample_dispatch:
  "sdk_dispatch offline_tool (offline_named {} {''/mg''}) (\<lambda>now. run_offline sample_offline sample_mg)
     (setupOffline (mg_NewMCPServer (fs_os whole_archive ''pods'') sample_LookPath demo_json) []) offline_handler"
proof -
  have "''must-gather-list-northbound-databases'' \<in>
      tool_Name ` set (setupOffline (mg_NewMCPServer (fs_os whole_archive ''pods'') sample_LookPath demo_json) [])"
    by (simp add: setupOffline_def mg_NewMCPServer_def NewOmcClient_def NewOvsdbTool_def getOmcCommandPath_def getOvsdbToolCommandPath_def sample_LookPath_def mg_AddTools_def
        mg_db_registrations_def AddTool_def)
  then show ?thesis
    unfolding sdk_dispatch_def offline_handler_def
    by (auto simp: offline_named_def intro!: exI [of _ "CallMgListNorthbound \<lparr>ld_MustGatherPath = ''/mg''\<rparr>"])
qed

lemma offline_sample_writes:
  "map_of (run_offline sample_offline sample_mg ctx (CallMgListNorthbound \<lparr>ld_MustGatherPath = ''/mg''\<rparr>) demo_fs)
     ''/mg/d/network_logs/ovnk_database_store/a_nbdb'' = Some (Some ''db'')"
  by code_simp

lemma offline_sample_served:
  "map_of (snd (receivingHandler 0 offline_config (offline_handler 0) context_Background ''tools/call''
     (Some (CallToolParamsRaw ''must-gather-list-northbound-databases'' None)) demo_fs))
     ''/mg/d/network_logs/ovnk_database_store/a_nbdb'' = Some (Some ''db'')"
proof -
  have "cfg_DisabledTools offline_config = []"
    using parseFlags_plain [of "default_flags\<lparr>fl_mode := ''offline''\<rparr>"]
    by (auto simp: offline_config_def default_flags_def)
  then show ?thesis
    using offline_sample_writes
    by (simp add: receivingHandler_def Let_def ToolTimeout_eq offline_handler_def callToolName_def del: run_offline.simps)
qed

theorem offline_requests_confined_witness:
  "\<exists>w'. served offline_config offline_handler demo_fs w' \<and>
     map_of w' ''/mg/d/network_logs/ovnk_database_store/a_nbdb'' = Some (Some ''db'') \<and>
     calls (offline_step (oe_fs sample_offline) (fs_os whole_archive ''pods''))
       (offline_ok sample_mg (\<not> map_get (cfg_DisabledTools offline_config) ''sos-get-pod-logs'') {} {''/mg''}) demo_fs w'"
proof -
  let ?w = "snd (receivingHandler 0 offline_config (offline_handler 0) context_Background ''tools/call''
     (Some (CallToolParamsRaw ''must-gather-list-northbound-databases'' None)) demo_fs)"
  have s: "served offline_config offline_handler demo_fs ?w" by (rule served.request [OF served.start])
  show ?thesis
    by (intro exI [of _ ?w] conjI s offline_sample_served
        offline_requests_confined [OF sample_mg_new fs_os_names refl offline_sample_dispatch s])
qed

end
