(* ===== verification/RepoRoot.thy ===== *)
theory RepoRoot
  imports GoPath "HOL-Library.Sublist"
begin

text \<open>
  The two searches for the root of the repository, \<^verbatim>\<open>GetGitRepositoryRoot\<close> of \<^verbatim>\<open>pkg/utils/utils.go\<close> and
  \<^verbatim>\<open>FindRepoRoot\<close> of \<^verbatim>\<open>pkg/utils/mcptools/catalog.go\<close>. Both climb from the working directory until an entry of
  a given name exists or the parent of a directory is the directory itself. The loop is a partial
  function; that it ends, and at the nearest such directory, is the theorem.
\<close>

section \<open>The searches\<close>

partial_function (option) walk_up ::
  "(string \<Rightarrow> 'w \<Rightarrow> bool \<times> 'w) \<Rightarrow> string \<Rightarrow> string \<Rightarrow> 'w \<Rightarrow> (string option \<times> 'w) option" where
  "walk_up stat marker dir w =
     (case stat (JoinPath [dir, marker]) w of
        (found, w1) \<Rightarrow>
          if found then Some (Some dir, w1)
          else (let parent = Dir dir in
            if parent = dir then Some (None, w1) else walk_up stat marker parent w1))"

declare walk_up.simps [code]

definition GetGitRepositoryRoot ::
  "('w, string) effect \<Rightarrow> (string \<Rightarrow> 'w \<Rightarrow> bool \<times> 'w) \<Rightarrow> 'w \<Rightarrow> (string result \<times> 'w) option" where
  "GetGitRepositoryRoot Getwd stat w =
     (case Getwd w of
        (Inl e, w1) \<Rightarrow> Some (Inl (Errorf ''failed to get current directory: %w'' [FErr e]), w1)
      | (Inr currentDir, w1) \<Rightarrow>
          map_option (map_prod (\<lambda>r. case r of None \<Rightarrow> Inl (Errorf ''failed to find git repository root'' []) | Some d \<Rightarrow> Inr d) id)
            (walk_up stat ''.git'' currentDir w1))"

definition FindRepoRoot ::
  "('w, string) effect \<Rightarrow> (string \<Rightarrow> 'w \<Rightarrow> bool \<times> 'w) \<Rightarrow> 'w \<Rightarrow> (string result \<times> 'w) option" where
  "FindRepoRoot Getwd stat w =
     (case Getwd w of
        (Inl e, w1) \<Rightarrow> Some (Inl e, w1)
      | (Inr dir, w1) \<Rightarrow>
          map_option (map_prod (\<lambda>r. case r of None \<Rightarrow> Inl (Errorf ''go.mod not found'' []) | Some d \<Rightarrow> Inr d) id)
            (walk_up stat ''go.mod'' dir w1))"

section \<open>Cleaned paths by their elements\<close>

definition path_of :: "bool \<Rightarrow> string list \<Rightarrow> string" where
  "path_of r es = (if r then ''/'' @ Join es ''/'' else if es = [] then ''.'' else Join es ''/'')"

definition elems_ok :: "bool \<Rightarrow> string list \<Rightarrow> bool" where
  "elems_ok r es \<longleftrightarrow> list_all elem_ok es \<and> (if r then ''..'' \<notin> set es else dotdot_prefix es)"

lemma Clean_path_of: "Clean p = path_of (IsAbs p) (clean_elems p)"
  by (simp add: Clean_def path_of_def)

lemma elems_ok_clean: "elems_ok (IsAbs p) (clean_elems p)"
  using clean_elems_ok [of p] clean_elems_abs_no_dotdot [of p] clean_elems_rel_dotdot [of p] by (simp add: elems_ok_def)

lemma dotdot_prefix_butlast: "dotdot_prefix (es @ [e]) \<Longrightarrow> dotdot_prefix es"
proof -
  assume "dotdot_prefix (es @ [e])"
  then obtain n fs where e: "es @ [e] = replicate n ''..'' @ fs" "''..'' \<notin> set fs" by (auto simp: dotdot_prefix_def)
  have "es = replicate (if fs = [] then n - 1 else n) ''..'' @ butlast fs"
    using arg_cong [OF e(1), of butlast] by (cases fs) (auto simp: butlast_append butlast_conv_take min_def)
  moreover have "''..'' \<notin> set (butlast fs)" using e(2) by (meson in_set_butlastD)
  ultimately show "dotdot_prefix es" unfolding dotdot_prefix_def by blast
qed

lemma elems_ok_butlast: "elems_ok r (es @ [e]) \<Longrightarrow> elems_ok r es"
  by (auto simp: elems_ok_def dest: dotdot_prefix_butlast split: if_splits)

lemma clean_run_elems_ok:
  assumes "elems_ok r es"
  shows "clean_run r [] es = rev es"
proof (cases r)
  case True
  then show ?thesis using clean_run_plain [of es True "[]"] assms by (simp add: elems_ok_def)
next
  case False
  then obtain n fs where e: "es = replicate n ''..'' @ fs" "''..'' \<notin> set fs"
    using assms by (auto simp: elems_ok_def dotdot_prefix_def)
  then have "clean_run False (replicate n ''..'') fs = rev fs @ replicate n ''..''"
    using assms by (intro clean_run_plain) (auto simp: elems_ok_def)
  with e False clean_run_dotdots [of 0 n] show ?thesis by (simp add: clean_run_append)
qed

lemma path_of_elems:
  assumes "elems_ok r es"
  shows "clean_elems (path_of r es) = es" "IsAbs (path_of r es) = r"
proof -
  have l: "list_all elem_ok es" using assms by (simp add: elems_ok_def)
  show r: "IsAbs (path_of r es) = r"
    using Join_slash_not_abs [OF l] by (auto simp: path_of_def IsAbs_def HasPrefix_def)
  have "clean_run r [] (Split slash (path_of r es)) = clean_run r [] es"
    using Split_Join_elems [OF l] by (auto simp: path_of_def numeral_2_eq_2)
  then show "clean_elems (path_of r es) = es"
    unfolding clean_elems_def r using clean_run_elems_ok [OF assms] by simp
qed

lemma Dir_path_of:
  assumes "elems_ok r (es @ [e])"
  shows "Dir (path_of r (es @ [e])) = path_of r es"
proof -
  have e: "slash \<notin> set e" using assms by (simp add: elems_ok_def elem_ok_def)
  have ok: "elems_ok r es" using assms by (rule elems_ok_butlast)
  show ?thesis
  proof (cases "r \<or> es \<noteq> []")
    case True
    define x where "x = (if es = [] then [] else path_of r es)"
    have "path_of r (es @ [e]) = x @ slash # e" using True by (auto simp: path_of_def x_def Join_snoc)
    then have "Dir (path_of r (es @ [e])) = path_of (IsAbs (x @ [slash])) (clean_elems x)"
      using e by (simp add: Dir_drop_last Clean_path_of clean_elems_trailing_slash)
    moreover have "clean_elems x = es" using path_of_elems [OF ok] by (simp add: x_def clean_elems_def)
    moreover have "IsAbs (x @ [slash]) = r"
    proof (cases "es = []")
      case False
      have "path_of r es \<noteq> []" using Join_slash_not_abs [of es] ok False by (auto simp: path_of_def elems_ok_def)
      then show ?thesis using False path_of_elems(2) [OF ok] by (simp add: x_def)
    qed (use True in \<open>simp add: x_def IsAbs_def HasPrefix_def\<close>)
    ultimately show ?thesis by simp
  next
    case False
    have d: "dropWhile (\<lambda>c. c \<noteq> slash) (rev e) = []" using e by auto
    have "Clean [] = ''.''" by code_simp
    moreover have p: "path_of r (es @ [e]) = e" "path_of r es = ''.''" using False by (auto simp: path_of_def)
    ultimately show ?thesis unfolding p Dir_def d by simp
  qed
qed

lemma Dir_path_of_Nil: "Dir (path_of r []) = path_of r []"
proof -
  have "Dir ''/'' = ''/''" "Dir ''.'' = ''.''" by code_simp+
  then show ?thesis by (simp add: path_of_def)
qed

section \<open>Where the search ends\<close>

fun first_hit :: "(string \<Rightarrow> 'w \<Rightarrow> bool \<times> 'w) \<Rightarrow> string \<Rightarrow> string list \<Rightarrow> 'w \<Rightarrow> string option \<times> 'w" where
  "first_hit stat marker [] w = (None, w)"
| "first_hit stat marker (d # ds) w =
     (case stat (JoinPath [d, marker]) w of (found, w1) \<Rightarrow>
        if found then (Some d, w1) else first_hit stat marker ds w1)"

text \<open>A directory and the directories above it: its parent, and the paths of the shorter and shorter prefixes
  of the parent's elements.\<close>

definition dirs_above :: "string \<Rightarrow> string list" where
  "dirs_above dir = (if Dir dir = dir then [dir]
     else dir # map (path_of (IsAbs (Dir dir))) (rev (prefixes (clean_elems (Dir dir)))))"

lemma walk_up_path_of:
  "elems_ok r es \<Longrightarrow>
   walk_up stat marker (path_of r es) w = Some (first_hit stat marker (map (path_of r) (rev (prefixes es))) w)"
proof (induction es arbitrary: w rule: rev_induct)
  case Nil
  show ?case by (subst walk_up.simps) (simp add: Dir_path_of_Nil split: prod.splits)
next
  case (snoc e es)
  have "path_of r es \<noteq> path_of r (es @ [e])"
    using path_of_elems(1) [OF snoc.prems] path_of_elems(1) [OF elems_ok_butlast [OF snoc.prems]] by force
  then show ?case using snoc.IH [OF elems_ok_butlast [OF snoc.prems]]
    by (subst walk_up.simps) (simp add: Dir_path_of [OF snoc.prems] Let_def split: prod.splits)
qed

lemma walk_up_first_hit: "walk_up stat marker dir w = Some (first_hit stat marker (dirs_above dir) w)"
proof -
  have "Dir dir = path_of (IsAbs (Dir dir)) (clean_elems (Dir dir))"
    by (metis Clean_idem Clean_path_of Dir_def)
  then have "walk_up stat marker (Dir dir) w1 =
      Some (first_hit stat marker (map (path_of (IsAbs (Dir dir))) (rev (prefixes (clean_elems (Dir dir))))) w1)" for w1
    using walk_up_path_of [OF elems_ok_clean [of "Dir dir"], of stat marker w1] by simp
  then show ?thesis by (subst walk_up.simps) (simp add: dirs_above_def Let_def split: prod.splits)
qed

text \<open>Claim C23: The searches for the repository root end, whatever the working directory is and whatever the file
  system answers, and they return the first of the working directory and the directories above it,
  nearest first, that has the entry they look for, or an error when none has.\<close>

theorem root_searches_end:
  "GetGitRepositoryRoot Getwd stat w =
     (case Getwd w of
        (Inl e, w1) \<Rightarrow> Some (Inl (Errorf ''failed to get current directory: %w'' [FErr e]), w1)
      | (Inr dir, w1) \<Rightarrow> Some (case first_hit stat ''.git'' (dirs_above dir) w1 of
            (None, w2) \<Rightarrow> (Inl (Errorf ''failed to find git repository root'' []), w2)
          | (Some d, w2) \<Rightarrow> (Inr d, w2))) \<and>
   FindRepoRoot Getwd stat w =
     (case Getwd w of
        (Inl e, w1) \<Rightarrow> Some (Inl e, w1)
      | (Inr dir, w1) \<Rightarrow> Some (case first_hit stat ''go.mod'' (dirs_above dir) w1 of
            (None, w2) \<Rightarrow> (Inl (Errorf ''go.mod not found'' []), w2)
          | (Some d, w2) \<Rightarrow> (Inr d, w2)))"
  by (simp add: GetGitRepositoryRoot_def FindRepoRoot_def walk_up_first_hit split: prod.splits sum.splits option.splits)

end
