(* ===== verification/Catalog.thy ===== *)
theory Catalog
  imports RepoRoot "HOL-Library.AList"
begin

text \<open>
  The scanner of tool registrations, \<^verbatim>\<open>pkg/utils/mcptools/catalog.go\<close>. A parsed Go file is a value of
  \<open>go_file\<close>: its imports, its functions with their bodies, and the tree of its nodes, of which the
  scanner tells apart identifiers, literals, selectors, calls, unary expressions, composite literals
  and key-value pairs. \<^verbatim>\<open>ast.Inspect\<close> with a visitor that never stops is the list of all nodes in
  preorder. The Go parser and \<^verbatim>\<open>strconv.Unquote\<close> are parameters.
\<close>

section \<open>Syntax trees\<close>

datatype go_node =
    Ident string
  | BasicLit bool string
  | SelectorExpr go_node string
  | CallExpr go_node "go_node list"
  | UnaryExpr string go_node
  | CompositeLit "go_node list" "go_node list"
  | KeyValueExpr go_node go_node
  | OtherNode "go_node list"

primrec inspect :: "go_node \<Rightarrow> go_node list" where
  "inspect (Ident x) = [Ident x]"
| "inspect (BasicLit str v) = [BasicLit str v]"
| "inspect (SelectorExpr x sel) = SelectorExpr x sel # inspect x @ [Ident sel]"
| "inspect (CallExpr f args) = CallExpr f args # inspect f @ concat (map inspect args)"
| "inspect (UnaryExpr op x) = UnaryExpr op x # inspect x"
| "inspect (CompositeLit ty elts) = CompositeLit ty elts # concat (map inspect ty) @ concat (map inspect elts)"
| "inspect (KeyValueExpr k v) = KeyValueExpr k v # inspect k @ inspect v"
| "inspect (OtherNode ns) = OtherNode ns # concat (map inspect ns)"

record go_file =
  gf_Imports :: "(string option \<times> string) list"
  gf_Funcs :: "(string \<times> go_node option) list"
  gf_Root :: go_node

section \<open>Text\<close>

fun index_of :: "string \<Rightarrow> string \<Rightarrow> nat option" where
  \<comment> \<open>\<^verbatim>\<open>strings.Index\<close>; \<open>None\<close> for -1\<close>
  "index_of sub [] = (if sub = [] then Some 0 else None)"
| "index_of sub (c # s) = (if prefix sub (c # s) then Some 0 else map_option Suc (index_of sub s))"

function ReplaceAll :: "string \<Rightarrow> string \<Rightarrow> string \<Rightarrow> string" where
  \<comment> \<open>\<^verbatim>\<open>strings.ReplaceAll\<close> of a non-empty substring\<close>
  "ReplaceAll old new [] = []"
| "ReplaceAll old new (c # s) =
     (if old \<noteq> [] \<and> prefix old (c # s) then new @ ReplaceAll old new (drop (length old) (c # s))
      else c # ReplaceAll old new s)"
  by pat_completeness auto
termination by (relation "measure (\<lambda>(_, _, s). length s)") (auto simp: neq_Nil_conv)

definition formatVerbSentinel :: string where
  "formatVerbSentinel = map char_of [0xEE, 0x80, 0x80, 0xEE, 0x80, 0x81 :: nat]"

definition is_letter :: "char \<Rightarrow> bool" where
  "is_letter c \<longleftrightarrow> 97 \<le> code c \<and> code c \<le> 122 \<or> 65 \<le> code c \<and> code c \<le> 90"

definition verb_flag :: "char \<Rightarrow> bool" where
  "verb_flag c \<longleftrightarrow> is_digit c \<or> c \<in> set ''.*+# -''"

text \<open>\<^verbatim>\<open>reFormatVerb.ReplaceAllString(s, "N")\<close>. The flags of a verb and the letter that ends it are disjoint, so
  a per cent sign starts a match exactly when a letter follows the flags after it.\<close>

function replace_verbs :: "string \<Rightarrow> string" where
  "replace_verbs [] = []"
| "replace_verbs (c # s) =
     (if c = CHR ''%'' then
        (case dropWhile verb_flag s of
           [] \<Rightarrow> c # replace_verbs s
         | d # r \<Rightarrow> if is_letter d then CHR ''N'' # replace_verbs r else c # replace_verbs s)
      else c # replace_verbs s)"
  by pat_completeness auto
termination
proof (relation "measure length")
  fix c :: char and s d r assume "dropWhile verb_flag s = d # r"
  then have "length (d # r) \<le> length s" by (metis length_dropWhile_le)
  then show "(r, c # s) \<in> measure length" by simp
qed auto

definition stripFormatVerbs :: "string \<Rightarrow> string" where
  "stripFormatVerbs s =
     (let s1 = ReplaceAll ''%%'' formatVerbSentinel s; s2 = replace_verbs s1
      in ReplaceAll formatVerbSentinel ''%'' s2)"

definition re_space :: "char \<Rightarrow> bool" where
  "re_space c \<longleftrightarrow> c \<in> {CHR '' '', CHR 0x09, CHR 0x0A, CHR 0x0C, CHR 0x0D}"

text \<open>\<^verbatim>\<open>reFirstSentence\<close>: the shortest prefix, within a line, that ends in a period and a space.\<close>

fun reFirstSentence :: "string \<Rightarrow> string option" where
  "reFirstSentence (c # d # s) =
     (if c = CHR ''.'' \<and> re_space d then Some [c, d]
      else if c = newline then None
      else map_option ((#) c) (reFirstSentence (d # s)))"
| "reFirstSentence _ = None"

definition rePeriodAtEnd :: "string \<Rightarrow> string option" where
  "rePeriodAtEnd s = (if HasSuffix s ''.'' \<and> newline \<notin> set s then Some s else None)"

definition firstLine :: "string \<Rightarrow> string" where
  "firstLine s0 =
     (let s1 = TrimSpace s0;
          s2 = (case index_of [newline] s1 of None \<Rightarrow> s1 | Some i \<Rightarrow> take i s1);
          s = TrimSpace s2
      in case reFirstSentence s of
           Some m \<Rightarrow> TrimSpace m
         | None \<Rightarrow> (case rePeriodAtEnd s of Some m \<Rightarrow> TrimSpace m | None \<Rightarrow> s))"

definition quoted_by :: "char \<Rightarrow> string \<Rightarrow> bool" where
  "quoted_by q s \<longleftrightarrow> length s \<ge> 2 \<and> s ! 0 = q \<and> s ! (length s - 1) = q"

definition UnquoteString :: "(string \<Rightarrow> string option) \<Rightarrow> string \<Rightarrow> string" where
  "UnquoteString Unquote s0 =
     (let s = TrimSpace s0 in
      if quoted_by CHR 0x60 s then take (length s - 2) (drop 1 s)
      else if quoted_by CHR 0x22 s then
        (case Unquote s of Some u \<Rightarrow> u | None \<Rightarrow> take (length s - 2) (drop 1 s))
      else s)"

section \<open>Tools\<close>

record Tool =
  Name :: string
  Description :: string

fun extractDescription :: "(string \<Rightarrow> string option) \<Rightarrow> go_node \<Rightarrow> string" where
  "extractDescription unq (BasicLit True v) = UnquoteString unq v"
| "extractDescription unq (CallExpr _ (BasicLit True v # _)) = stripFormatVerbs (UnquoteString unq v)"
| "extractDescription unq _ = []"

definition sdkImportPath :: string where
  "sdkImportPath = ''github.com/modelcontextprotocol/go-sdk/mcp''"

text \<open>The alias of the SDK and whether it is dot-imported; \<open>None\<close> when it is not imported.\<close>

fun findMCPImportAlias :: "(string \<Rightarrow> string option) \<Rightarrow> (string option \<times> string) list \<Rightarrow> (string \<times> bool) option" where
  "findMCPImportAlias unq [] = None"
| "findMCPImportAlias unq ((name, path) # imps) =
     (if UnquoteString unq path \<noteq> sdkImportPath then findMCPImportAlias unq imps
      else (case name of
          None \<Rightarrow> Some (''mcp'', False)
        | Some n \<Rightarrow> if n = ''.'' then Some ([], True) else if n = ''_'' then None else Some (n, False)))"

fun isMCPAddToolCall :: "go_node \<Rightarrow> string \<Rightarrow> bool \<Rightarrow> bool" where
  "isMCPAddToolCall (Ident x) mcpAlias dotImported = (dotImported \<and> x = ''AddTool'')"
| "isMCPAddToolCall (SelectorExpr (Ident x) sel) mcpAlias dotImported =
     (\<not> dotImported \<and> sel = ''AddTool'' \<and> x = mcpAlias)"
| "isMCPAddToolCall _ _ _ = False"

text \<open>The fields of the tool literal; a later one wins.\<close>

fun tool_field :: "(string \<Rightarrow> string option) \<Rightarrow> go_node \<Rightarrow> string \<times> string \<Rightarrow> string \<times> string" where
  "tool_field unq (KeyValueExpr (Ident k) v) (name, desc) =
     (if k = ''Name'' then ((case v of BasicLit True l \<Rightarrow> UnquoteString unq l | _ \<Rightarrow> name), desc)
      else if k = ''Description'' then (name, extractDescription unq v)
      else (name, desc))"
| "tool_field unq _ nd = nd"

fun registered_tool :: "(string \<Rightarrow> string option) \<Rightarrow> string \<Rightarrow> bool \<Rightarrow> go_node \<Rightarrow> Tool option" where
  "registered_tool unq mcpAlias dotImported (CallExpr f (_ # UnaryExpr op (CompositeLit ty elts) # _)) =
     (if isMCPAddToolCall f mcpAlias dotImported \<and> op = ''&'' then
        (case fold (tool_field unq) elts ([], []) of (name, desc) \<Rightarrow>
           if name \<noteq> [] then Some \<lparr>Name = name, Description = firstLine desc\<rparr> else None)
      else None)"
| "registered_tool unq _ _ _ = None"

definition file_tools :: "(string \<Rightarrow> string option) \<Rightarrow> go_file \<Rightarrow> Tool list" where
  "file_tools unq node =
     (case findMCPImportAlias unq (gf_Imports node) of
        None \<Rightarrow> []
      | Some (mcpAlias, dotImported) \<Rightarrow>
          List.map_filter (registered_tool unq mcpAlias dotImported) (inspect (gf_Root node)))"

section \<open>The catalog\<close>

datatype stat_result = Exists | NotExist | StatError err

record 'w gen_os =
  go_Getwd :: "('w, string) effect"
  go_Stat :: "string \<Rightarrow> 'w \<Rightarrow> stat_result \<times> 'w"
  go_ReadDir :: "string \<Rightarrow> ('w, (string \<times> bool) list) effect"
  go_ParseFile :: "string \<Rightarrow> ('w, go_file) effect"
  go_ReadFile :: "string \<Rightarrow> ('w, string) effect"
  go_WriteFile :: "string \<Rightarrow> string \<Rightarrow> 'w \<Rightarrow> err option \<times> 'w"
  go_Unquote :: "string \<Rightarrow> string option"

definition ExtractTools :: "'w gen_os \<Rightarrow> string \<Rightarrow> ('w, Tool list) effect" where
  "ExtractTools os mcpPath w =
     (case go_ParseFile os mcpPath w of
        (Inl e, w1) \<Rightarrow> (Inl e, w1)
      | (Inr node, w1) \<Rightarrow> (Inr (file_tools (go_Unquote os) node), w1))"

fun catalog_loop :: "'w gen_os \<Rightarrow> string \<Rightarrow> (string \<times> bool) list \<Rightarrow> (string \<times> Tool list) list \<Rightarrow>
    ('w, (string \<times> Tool list) list) effect" where
  "catalog_loop os pkgDir [] out w = (Inr out, w)"
| "catalog_loop os pkgDir ((name, isDir) # entries) out w =
     (if \<not> isDir then catalog_loop os pkgDir entries out w
      else (let mcpPath = JoinPath [pkgDir, name, ''mcp'', ''mcp.go''] in
        case go_Stat os mcpPath w of
          (NotExist, w1) \<Rightarrow> catalog_loop os pkgDir entries out w1
        | (_, w1) \<Rightarrow>
            (case ExtractTools os mcpPath w1 of
               (Inl e, w2) \<Rightarrow> (Inl (Errorf ''extract %s: %w'' [FStr mcpPath, FErr e]), w2)
             | (Inr tools, w2) \<Rightarrow>
                 if length tools = 0 then catalog_loop os pkgDir entries out w2
                 else catalog_loop os pkgDir entries (AList.update name tools out) w2)))"

definition Catalog :: "'w gen_os \<Rightarrow> string \<Rightarrow> ('w, (string \<times> Tool list) list) effect" where
  "Catalog os repoRoot w =
     (let pkgDir = JoinPath [repoRoot, ''pkg''] in
      case go_ReadDir os pkgDir w of
        (Inl e, w1) \<Rightarrow> (Inl (Errorf ''read %s: %w'' [FStr pkgDir, FErr e]), w1)
      | (Inr entries, w1) \<Rightarrow> catalog_loop os pkgDir entries [] w1)"

section \<open>What the scanner finds\<close>

text \<open>What a registration is, for any Go file. The SDK is visible under a name or through a dot import; a
  registration is a call of its \<^verbatim>\<open>AddTool\<close>, anywhere in the file; and a literal is a raw one or one in
  double quotes that \<^verbatim>\<open>strconv.Unquote\<close> reads.\<close>

datatype sdk_name = Qualified string | Dotted

fun sdk_scope :: "string option \<Rightarrow> sdk_name" where
  "sdk_scope None = Qualified ''mcp''"
| "sdk_scope (Some n) = (if n = ''.'' then Dotted else Qualified n)"

primrec sdk_ref :: "sdk_name \<Rightarrow> string \<Rightarrow> go_node" where
  "sdk_ref (Qualified al) x = SelectorExpr (Ident al) x"
| "sdk_ref Dotted x = Ident x"

definition calls_AddTool :: "sdk_name \<Rightarrow> go_node \<Rightarrow> bool" where
  "calls_AddTool sc n \<longleftrightarrow> (case n of CallExpr f _ \<Rightarrow> f = sdk_ref sc ''AddTool'' | _ \<Rightarrow> False)"

definition raw_lit :: "string \<Rightarrow> string" where
  "raw_lit d = CHR 0x60 # d @ [CHR 0x60]"

definition quote_lit :: "string \<Rightarrow> string" where
  "quote_lit n = CHR 0x22 # n @ [CHR 0x22]"

definition is_lit :: "(string \<Rightarrow> string option) \<Rightarrow> string \<Rightarrow> string \<Rightarrow> bool" where
  "is_lit unq s v \<longleftrightarrow> s = raw_lit v \<or> (\<exists>b. s = quote_lit b \<and> unq s = Some v)"

definition imports_sdk :: "(string \<Rightarrow> string option) \<Rightarrow> (string option \<times> string) list \<Rightarrow> sdk_name \<Rightarrow> bool" where
  "imports_sdk unq imps sc \<longleftrightarrow> (\<exists>pre name s post. imps = pre @ (name, s) # post \<and>
     is_lit unq s sdkImportPath \<and> name \<noteq> Some ''_'' \<and> sc = sdk_scope name \<and>
     (\<forall>s' \<in> snd ` set pre. \<exists>p. is_lit unq s' p \<and> p \<noteq> sdkImportPath))"

definition field_values :: "string \<Rightarrow> go_node list \<Rightarrow> go_node list" where
  "field_values k elts = concat (map (\<lambda>f. case f of KeyValueExpr (Ident x) v \<Rightarrow> if x = k then [v] else [] | _ \<Rightarrow> []) elts)"

text \<open>A description is written as a literal, as a call (of \<^verbatim>\<open>fmt.Sprintf\<close>) on a literal format, or in some
  other way, or it is left out.\<close>

datatype desc_lit = RawLit string | SprintfLit string | NoLit

primrec scanned_desc :: "desc_lit \<Rightarrow> string" where
  "scanned_desc (RawLit d) = d"
| "scanned_desc (SprintfLit f) = stripFormatVerbs f"
| "scanned_desc NoLit = []"

inductive describes :: "(string \<Rightarrow> string option) \<Rightarrow> go_node list \<Rightarrow> desc_lit \<Rightarrow> bool" for unq where
  lit: "is_lit unq s d \<Longrightarrow> describes unq [BasicLit True s] (RawLit d)"
| format: "is_lit unq s d \<Longrightarrow> describes unq [CallExpr f (BasicLit True s # args)] (SprintfLit d)"
| left_out: "describes unq [] NoLit"
| other: "(\<And>s. v \<noteq> BasicLit True s) \<Longrightarrow> (\<And>f s args. v \<noteq> CallExpr f (BasicLit True s # args)) \<Longrightarrow>
    describes unq [v] NoLit"

text \<open>The calls of \<^verbatim>\<open>AddTool\<close>. One whose tool is a literal with a literal name registers that name; one whose tool
  is an expression, or whose name is one (a constant, say), is registered all the same at run time, but
  its name cannot be read off the file.\<close>

inductive registers :: "(string \<Rightarrow> string option) \<Rightarrow> go_node \<Rightarrow> (string \<times> desc_lit) option \<Rightarrow> bool" for unq where
  literal: "is_lit unq s n \<Longrightarrow> n \<noteq> [] \<Longrightarrow> field_values ''Name'' elts = [BasicLit True s] \<Longrightarrow>
    describes unq (field_values ''Description'' elts) d \<Longrightarrow>
    registers unq (CallExpr f (server # UnaryExpr ''&'' (CompositeLit ty elts) # rest)) (Some (n, d))"
| named_elsewhere: "field_values ''Name'' elts = [v] \<Longrightarrow> (\<And>s. v \<noteq> BasicLit True s) \<Longrightarrow>
    registers unq (CallExpr f (server # UnaryExpr ''&'' (CompositeLit ty elts) # rest)) None"
| built_elsewhere: "(\<And>server ty elts rest. args \<noteq> server # UnaryExpr ''&'' (CompositeLit ty elts) # rest) \<Longrightarrow>
    registers unq (CallExpr f args) None"

definition registrations_of :: "(string \<Rightarrow> string option) \<Rightarrow> go_file \<Rightarrow> (string \<times> desc_lit) option list \<Rightarrow> bool" where
  "registrations_of unq file ts \<longleftrightarrow> (\<exists>sc. imports_sdk unq (gf_Imports file) sc \<and>
     list_all2 (registers unq) (filter (calls_AddTool sc) (inspect (gf_Root file))) ts)"

definition scanned_tool :: "string \<times> desc_lit \<Rightarrow> Tool" where
  "scanned_tool t = \<lparr>Name = fst t, Description = firstLine (scanned_desc (snd t))\<rparr>"

lemma TrimSpace_quoted: "\<not> ascii_space q \<Longrightarrow> code q < 128 \<Longrightarrow> TrimSpace (q # d @ [q]) = q # d @ [q]"
  by (rule TrimSpace_id)
    (auto simp: space_len_def space_rlen_def space2_def space3_def split: list.splits if_splits)

lemma Unquote_lit [simp]: "is_lit unq s v \<Longrightarrow> UnquoteString unq s = v"
  using TrimSpace_quoted [of "CHR 0x60"] TrimSpace_quoted [of "CHR 0x22"]
  by (auto simp: is_lit_def UnquoteString_def raw_lit_def quote_lit_def quoted_by_def ascii_space_def Let_def nth_append)

lemma imports_sdk_found:
  "imports_sdk unq imps sc \<Longrightarrow> findMCPImportAlias unq imps =
     Some (case sc of Qualified al \<Rightarrow> (al, False) | Dotted \<Rightarrow> ([], True))"
proof (unfold imports_sdk_def, elim exE conjE)
  fix pre name s post
  assume i: "imps = pre @ (name, s) # post" "is_lit unq s sdkImportPath" "name \<noteq> Some ''_''" "sc = sdk_scope name"
    and p: "\<forall>s' \<in> snd ` set pre. \<exists>p. is_lit unq s' p \<and> p \<noteq> sdkImportPath"
  from p have "findMCPImportAlias unq imps = findMCPImportAlias unq ((name, s) # post)"
    unfolding i(1) by (induction pre) auto
  also have "\<dots> = Some (case sc of Qualified al \<Rightarrow> (al, False) | Dotted \<Rightarrow> ([], True))"
    using i by (auto split: option.splits)
  finally show "findMCPImportAlias unq imps = Some (case sc of Qualified al \<Rightarrow> (al, False) | Dotted \<Rightarrow> ([], True))" .
qed

lemma isMCPAddToolCall_ref [simp]:
  "isMCPAddToolCall f al False \<longleftrightarrow> f = SelectorExpr (Ident al) ''AddTool''"
  "isMCPAddToolCall f [] True \<longleftrightarrow> f = Ident ''AddTool''"
  by (cases "(f, al, False)" rule: isMCPAddToolCall.cases; auto)
    (cases "(f, [] :: string, True)" rule: isMCPAddToolCall.cases; auto)

lemma fold_tool_field:
  "fold (tool_field unq) elts (n, d) =
     (fold (\<lambda>v n. case v of BasicLit True l \<Rightarrow> UnquoteString unq l | _ \<Rightarrow> n) (field_values ''Name'' elts) n,
      fold (\<lambda>v _. extractDescription unq v) (field_values ''Description'' elts) d)"
proof (induction elts arbitrary: n d)
  case (Cons x elts)
  then show ?case
    by (cases "(unq, x, n, d)" rule: tool_field.cases) (simp_all add: field_values_def)
qed (simp add: field_values_def)

lemma describes_scanned:
  assumes "describes unq vs d"
  shows "fold (\<lambda>v _. extractDescription unq v) vs [] = scanned_desc d"
  using assms
proof cases
  case (other v)
  then have "extractDescription unq v = []" by (cases "(unq, v)" rule: extractDescription.cases) auto
  with other show ?thesis by simp
qed simp_all

lemma registers_scanned:
  assumes "registers unq call t" "calls_AddTool sc call"
    and "(al, dot) = (case sc of Qualified al \<Rightarrow> (al, False) | Dotted \<Rightarrow> ([], True))"
  shows "registered_tool unq al dot call = map_option scanned_tool t"
proof -
  have c: "isMCPAddToolCall f al dot" if "call = CallExpr f as" for f as
    using assms(2,3) by (cases sc) (simp_all add: that calls_AddTool_def)
  from assms(1) show ?thesis
  proof cases
    case (named_elsewhere elts v f server ty rest)
    then show ?thesis
      using c [OF named_elsewhere(1)] by (cases v) (auto simp: fold_tool_field split: bool.splits)
  next
    case (built_elsewhere args f)
    then show ?thesis by (cases "(unq, al, dot, call)" rule: registered_tool.cases) auto
  qed (use c in \<open>simp add: fold_tool_field describes_scanned scanned_tool_def\<close>)
qed

lemma registered_tool_calls:
  assumes "(al, dot) = (case sc of Qualified al \<Rightarrow> (al, False) | Dotted \<Rightarrow> ([], True))" "\<not> calls_AddTool sc n"
  shows "registered_tool unq al dot n = None"
  using assms by (cases "(unq, al, dot, n)" rule: registered_tool.cases; cases sc) (auto simp: calls_AddTool_def)

lemma map_filter_calls:
  assumes "(al, dot) = (case sc of Qualified al \<Rightarrow> (al, False) | Dotted \<Rightarrow> ([], True))"
    and "list_all2 (registers unq) (filter (calls_AddTool sc) ns) ts"
  shows "List.map_filter (registered_tool unq al dot) ns = List.map_filter (map_option scanned_tool) ts"
  using assms(2)
proof (induction ns arbitrary: ts)
  case (Cons n ns)
  show ?case
  proof (cases "calls_AddTool sc n")
    case True
    with Cons.prems obtain t ts' where "ts = t # ts'" "registers unq n t"
      "list_all2 (registers unq) (filter (calls_AddTool sc) ns) ts'" by (auto simp: list_all2_Cons1)
    with Cons.IH [of ts'] registers_scanned [OF _ True assms(1)] show ?thesis
      by (cases t) (simp_all add: List.map_filter_simps)
  next
    case False
    with Cons show ?thesis by (simp add: List.map_filter_simps registered_tool_calls [OF assms(1)])
  qed
qed (simp add: List.map_filter_simps)

lemma file_tools_registrations:
  assumes "registrations_of unq file ts"
  shows "file_tools unq file = List.map_filter (map_option scanned_tool) ts"
proof -
  obtain sc where sc: "imports_sdk unq (gf_Imports file) sc"
    "list_all2 (registers unq) (filter (calls_AddTool sc) (inspect (gf_Root file))) ts"
    using assms by (auto simp: registrations_of_def)
  then show ?thesis
    using map_filter_calls [of "fst (case sc of Qualified al \<Rightarrow> (al, False) | Dotted \<Rightarrow> ([], True))"
        "snd (case sc of Qualified al \<Rightarrow> (al, False) | Dotted \<Rightarrow> ([], True))" sc, OF _ sc(2)]
    by (cases sc) (simp_all add: file_tools_def imports_sdk_found [OF sc(1)])
qed


text \<open>Syntax trees as the Go parser builds them, for examples: import declarations, functions with a receiver,
  and the statement that registers a tool.\<close>

definition import_decl :: "(string option \<times> string) list \<Rightarrow> go_node" where
  "import_decl imps = OtherNode (map (\<lambda>(name, path).
     OtherNode ((case name of None \<Rightarrow> [] | Some n \<Rightarrow> [Ident n]) @ [BasicLit True (quote_lit path)])) imps)"

definition struct_decl :: "string \<Rightarrow> (string \<times> string) list \<Rightarrow> go_node" where
  "struct_decl name elts = OtherNode [OtherNode [Ident name,
     OtherNode (map (\<lambda>(f, ty). OtherNode [Ident f, Ident ty]) elts)]]"

definition constructor_decl :: "string \<Rightarrow> string \<Rightarrow> go_node" where
  "constructor_decl ty field = OtherNode [Ident ''NewMCPServer'',
     OtherNode [OtherNode [OtherNode [Ident field, Ident ''RunPodExecCommandFuncType'']], OtherNode [OtherNode [Ident ty], Ident ''error'']],
     OtherNode [
       OtherNode [OtherNode [Ident field, Ident ''nil''],
         OtherNode [OtherNode [Ident ''nil'', CallExpr (SelectorExpr (Ident ''fmt'') ''Errorf'')
           [BasicLit True (quote_lit ''function to run pod exec command is nil'')]]]],
       OtherNode [UnaryExpr ''&'' (CompositeLit [Ident ty] [KeyValueExpr (Ident field) (Ident field)]), Ident ''nil'']]]"

definition method_decl :: "sdk_name \<Rightarrow> string \<Rightarrow> string \<Rightarrow> go_node list \<Rightarrow> go_node" where
  "method_decl sc ty name body = OtherNode [OtherNode [OtherNode [Ident ''s'', OtherNode [Ident ty]]], Ident name,
     OtherNode [OtherNode [OtherNode [Ident ''server'', OtherNode [sdk_ref sc ''Server'']]]], OtherNode body]"

primrec desc_expr :: "go_node list \<Rightarrow> desc_lit \<Rightarrow> go_node list" where
  "desc_expr args (RawLit d) = [BasicLit True (raw_lit d)]"
| "desc_expr args (SprintfLit f) =
     [CallExpr (SelectorExpr (Ident ''fmt'') ''Sprintf'') (BasicLit True (raw_lit f) # args)]"
| "desc_expr args NoLit = []"

definition AddTool_call :: "sdk_name \<Rightarrow> go_node list \<Rightarrow> go_node \<Rightarrow> string \<Rightarrow> desc_lit \<Rightarrow> go_node" where
  "AddTool_call sc args name handler d = CallExpr (sdk_ref sc ''AddTool'')
     [Ident ''server'', UnaryExpr ''&'' (CompositeLit [sdk_ref sc ''Tool'']
        (KeyValueExpr (Ident ''Name'') name # map (KeyValueExpr (Ident ''Description'')) (desc_expr args d))),
      SelectorExpr (Ident ''s'') handler]"

lemma AddTool_call_registers:
  assumes "unq (quote_lit n) = Some n" "n \<noteq> []"
  shows "registers unq (AddTool_call sc args (BasicLit True (quote_lit n)) handler d) (Some (n, d))"
proof -
  have "is_lit unq (quote_lit n) n" "is_lit unq (raw_lit t) t" for t using assms(1) by (auto simp: is_lit_def)
  moreover from this have "describes unq (desc_expr args d) d" by (cases d) (auto intro: describes.intros)
  moreover have "field_values ''Description'' (map (KeyValueExpr (Ident ''Description'')) vs) = vs" for vs
    by (induction vs) (simp_all add: field_values_def)
  moreover have "field_values ''Name'' (map (KeyValueExpr (Ident ''Description'')) vs) = []" for vs
    by (induction vs) (simp_all add: field_values_def)
  ultimately show ?thesis
    using assms(2) unfolding AddTool_call_def by (intro registers.literal) (simp_all add: field_values_def)
qed

lemma AddTool_call_only:
  assumes "filter (calls_AddTool sc) (concat (map inspect (name # args))) = []" "sc \<noteq> Qualified ''fmt''"
  shows "filter (calls_AddTool sc) (inspect (AddTool_call sc args name handler d)) =
    [AddTool_call sc args name handler d]"
  using assms by (cases d; cases sc) (simp_all add: AddTool_call_def calls_AddTool_def)

lemma no_calls_decls [simp]:
  "filter (calls_AddTool sc) (inspect (import_decl imps)) = []"
  "filter (calls_AddTool sc) (inspect (struct_decl name elts)) = []"
  "sc \<noteq> Qualified ''fmt'' \<Longrightarrow> filter (calls_AddTool sc) (inspect (constructor_decl ty field)) = []"
  by (cases sc; auto simp: import_decl_def struct_decl_def constructor_decl_def calls_AddTool_def filter_empty_conv split: option.splits)+

lemma calls_in_method:
  "filter (calls_AddTool sc) (inspect (method_decl sc ty name body)) =
     filter (calls_AddTool sc) (concat (map inspect body))"
  by (cases sc) (simp_all add: method_decl_def calls_AddTool_def)

definition ovn_source :: go_file where
  "ovn_source =
     (let imps = [(None, ''context''), (None, ''fmt''), (Some ''sdkmcp'', sdkImportPath),
            (Some ''ovntypes'', ''github.com/ovn-kubernetes/ovn-kubernetes-mcp/pkg/ovn/types'')];
          sc = Qualified ''sdkmcp'';
          body = [OtherNode [AddTool_call sc [Ident ''DefaultMaxLines''] (BasicLit True (quote_lit ''ovn-show'')) ''Show''
              (SprintfLit ''Display the first %d lines. More.'')],
            OtherNode [AddTool_call sc [] (Ident ''getToolName'') ''Get'' (RawLit ''Query records.'')],
            OtherNode [AddTool_call sc [] (BasicLit True (quote_lit ''ovn-trace'')) ''Trace'' (RawLit ''Trace a packet.'')]]
      in \<lparr>gf_Imports = map (map_prod id quote_lit) imps, gf_Funcs = [(''AddTools'', Some (OtherNode body))],
          gf_Root = OtherNode [Ident ''mcp'', import_decl imps, struct_decl ''MCPServer'' [(''run'', ''RunFuncType'')],
            constructor_decl ''MCPServer'' ''run'', method_decl sc ''MCPServer'' ''AddTools'' body]\<rparr>)"

abbreviation strip_quotes :: "string \<Rightarrow> string option" where
  "strip_quotes s \<equiv> Some (butlast (tl s))"

lemma strip_quoted: "butlast (tl (quote_lit n)) = n"
  by (simp add: quote_lit_def)

lemma ovn_source_registrations:
  "registrations_of strip_quotes ovn_source
     [Some (''ovn-show'', SprintfLit ''Display the first %d lines. More.''), None, Some (''ovn-trace'', RawLit ''Trace a packet.'')]"
  unfolding registrations_of_def
proof (intro exI [of _ "Qualified ''sdkmcp''"] conjI)
  show "imports_sdk strip_quotes (gf_Imports ovn_source) (Qualified ''sdkmcp'')"
    unfolding imports_sdk_def
    by (intro exI [of _ "[(None, quote_lit ''context''), (None, quote_lit ''fmt'')]"] exI [of _ "Some ''sdkmcp''"])
      (auto simp: ovn_source_def Let_def is_lit_def quote_lit_def sdkImportPath_def)
  have "registers strip_quotes (AddTool_call (Qualified ''sdkmcp'') [] (Ident ''getToolName'') ''Get'' (RawLit ''Query records.'')) None"
    unfolding AddTool_call_def by (rule registers.named_elsewhere [where v = "Ident ''getToolName''"]) (simp_all add: field_values_def)
  then show "list_all2 (registers strip_quotes) (filter (calls_AddTool (Qualified ''sdkmcp'')) (inspect (gf_Root ovn_source)))
     [Some (''ovn-show'', SprintfLit ''Display the first %d lines. More.''), None, Some (''ovn-trace'', RawLit ''Trace a packet.'')]"
    by (simp add: ovn_source_def Let_def calls_in_method AddTool_call_only AddTool_call_registers
        calls_AddTool_def strip_quoted)
qed


end
