(* ===== verification/GenReadme.thy ===== *)
theory GenReadme
  imports Catalog
begin

text \<open>
  \<^verbatim>\<open>hack/gen-readme-tools.go\<close>, which renders the table of tools in the README from the registrations the
  scanner finds. The order of the packages is read off the syntax tree of \<^verbatim>\<open>main.go\<close>. Messages to standard
  error are not modelled, except that those before \<^verbatim>\<open>os.Exit(1)\<close> are the result of \<open>gen_main\<close>.
\<close>

section \<open>Modes\<close>

definition trim_mark :: string where
  "trim_mark = ''ovn-kubernetes-mcp/pkg/''"

text \<open>The package an import path under \<^verbatim>\<open>pkg\<close> belongs to.\<close>

definition import_pkg :: "string \<Rightarrow> string option" where
  "import_pkg path = (case index_of trim_mark path of
       None \<Rightarrow> None
     | Some idx \<Rightarrow>
         (let pkgName = takeWhile (\<lambda>c. c \<noteq> slash) (drop (idx + length trim_mark) path)
          in if pkgName = [] then None else Some pkgName))"

definition add_import :: "(string \<Rightarrow> string option) \<Rightarrow> string option \<times> string \<Rightarrow> (string \<times> string) list \<Rightarrow> (string \<times> string) list" where
  "add_import unq imp m = (let path = UnquoteString unq (snd imp) in
     case import_pkg path of
       None \<Rightarrow> m
     | Some pkgName \<Rightarrow> AList.update (case fst imp of Some a \<Rightarrow> a | None \<Rightarrow> Base path) pkgName m)"

definition importAliasToPkg :: "(string \<Rightarrow> string option) \<Rightarrow> go_file \<Rightarrow> (string \<times> string) list" where
  "importAliasToPkg unq node = fold (add_import unq) (gf_Imports node) []"

text \<open>The body of a function; the last declaration of the name counts.\<close>

definition func_body :: "string \<Rightarrow> go_file \<Rightarrow> go_node option" where
  "func_body name node = fold (\<lambda>(n, body) acc. if n = name \<and> body \<noteq> None then body else acc) (gf_Funcs node) None"

fun collect_loop :: "(string \<times> string) list \<Rightarrow> go_node list \<Rightarrow> strs \<Rightarrow> strs" where
  "collect_loop aliasToPkg [] order = order"
| "collect_loop aliasToPkg (n # ns) order =
     (case n of
        SelectorExpr (Ident x) _ \<Rightarrow>
          (case map_of aliasToPkg x of
             Some pkg \<Rightarrow> if pkg \<notin> set order then collect_loop aliasToPkg ns (order @ [pkg])
               else collect_loop aliasToPkg ns order
           | None \<Rightarrow> collect_loop aliasToPkg ns order)
      | _ \<Rightarrow> collect_loop aliasToPkg ns order)"

definition collectPackagesInOrder :: "go_node \<Rightarrow> (string \<times> string) list \<Rightarrow> strs" where
  "collectPackagesInOrder block aliasToPkg = collect_loop aliasToPkg (inspect block) []"

definition inferModesFromMain :: "'w gen_os \<Rightarrow> string \<Rightarrow> ('w, strs \<times> strs) effect" where
  "inferModesFromMain os mainPath w =
     (case go_ParseFile os mainPath w of
        (Inl e, w1) \<Rightarrow> (Inl e, w1)
      | (Inr node, w1) \<Rightarrow>
          (let m = importAliasToPkg (go_Unquote os) node in
           case (func_body ''setupLiveCluster'' node, func_body ''setupOffline'' node) of
             (Some live, Some offline) \<Rightarrow>
               (Inr (collectPackagesInOrder live m, collectPackagesInOrder offline m), w1)
           | _ \<Rightarrow> (Inl (Errorf ''setupLiveCluster or setupOffline not found in %s'' [FStr mainPath]), w1)))"

section \<open>Rendering\<close>

definition escapeTableCell :: "string \<Rightarrow> string" where
  "escapeTableCell s =
     TrimSpace (ReplaceAll [newline] '' '' (ReplaceAll ''|'' ''&#124;'' s))"

definition table_row :: "string \<Rightarrow> nat \<Rightarrow> Tool \<Rightarrow> string" where
  "table_row pkgName i t =
     (if i > 0 then ''| |'' else ''| **'' @ pkgName @ ''** |'') @ '' `'' @ Name t @ ''` | '' @
     escapeTableCell (Description t) @ '' |'' @ [newline]"

definition table_rows :: "(string \<times> Tool list) list \<Rightarrow> strs \<Rightarrow> string" where
  "table_rows toolsOf order = concat (map (\<lambda>pkgName.
     concat (map (\<lambda>(i, t). table_row pkgName i t)
       (List.enumerate 0 (case map_of toolsOf pkgName of Some ts \<Rightarrow> ts | None \<Rightarrow> [])))) order)"

definition println :: "string \<Rightarrow> string" where
  "println s = s @ [newline]"

definition live_intro :: string where
  "live_intro = ''Available when running with `--mode live-cluster` or `--mode dual` (and with a valid kubeconfig).''"

definition offline_intro :: string where
  "offline_intro = ''Available when running with `--mode offline` or `--mode dual`. No cluster access required.''"

definition readme_section :: "(string \<times> Tool list) list \<Rightarrow> strs \<Rightarrow> (string \<times> Tool list) list \<Rightarrow> strs \<Rightarrow> string" where
  "readme_section liveTools liveOrder offlineTools offlineOrder =
     println ''## Tools available in MCP Server'' @ println [] @
     println ''### Live Cluster Mode'' @ println [] @ println live_intro @ println [] @
     println ''| Category      | Tool | Description |'' @ println ''|---------------|------|-------------|'' @
     table_rows liveTools liveOrder @ println [] @
     println ''### Offline Mode'' @ println [] @ println offline_intro @ println [] @
     println ''| Category       | Tool | Description |'' @ println ''|----------------|------|-------------|'' @
     table_rows offlineTools offlineOrder"

section \<open>Updating the file\<close>

definition startMark :: string where "startMark = ''<!-- TOOLS_SECTION_START -->''"
definition endMark :: string where "endMark = ''<!-- TOOLS_SECTION_END -->''"

definition replace_section :: "string \<Rightarrow> string \<Rightarrow> string option" where
  "replace_section content generated =
     (case (index_of startMark content, index_of endMark content) of
        (Some startIdx, Some endIdx) \<Rightarrow>
          if endIdx \<le> startIdx then None
          else
            (let a0 = startIdx + length startMark;
                 afterStart = (if a0 < length content \<and> content ! a0 = newline then a0 + 1 else a0)
             in Some (take afterStart content @ generated @ [newline] @ drop endIdx content))
      | _ \<Rightarrow> None)"

definition updateREADME :: "'w gen_os \<Rightarrow> string \<Rightarrow> string \<Rightarrow> 'w \<Rightarrow> err option \<times> 'w" where
  "updateREADME os readmePath generated w =
     (case go_ReadFile os readmePath w of
        (Inl e, w1) \<Rightarrow> (Some e, w1)
      | (Inr content, w1) \<Rightarrow>
          (case replace_section content generated of
             None \<Rightarrow> (Some (Errorf ''README must contain %s and %s'' [FStr startMark, FStr endMark]), w1)
           | Some newContent \<Rightarrow> go_WriteFile os readmePath newContent w1))"

section \<open>The program\<close>

fun mode_tools :: "'w gen_os \<Rightarrow> string \<Rightarrow> strs \<Rightarrow> (string \<times> Tool list) list \<Rightarrow> 'w \<Rightarrow> (string \<times> Tool list) list \<times> 'w" where
  "mode_tools os pkgDir [] m w = (m, w)"
| "mode_tools os pkgDir (pkgName # order) m w =
     (let mcpPath = JoinPath [pkgDir, pkgName, ''mcp'', ''mcp.go''] in
      case go_Stat os mcpPath w of
        (NotExist, w1) \<Rightarrow> mode_tools os pkgDir order m w1
      | (_, w1) \<Rightarrow>
          (case ExtractTools os mcpPath w1 of
             (Inl e, w2) \<Rightarrow> mode_tools os pkgDir order m w2
           | (Inr tools, w2) \<Rightarrow> mode_tools os pkgDir order (AList.update pkgName tools m) w2))"

text \<open>\<open>None\<close> is a program that does not end, \<open>Some (Some e)\<close> one that exits with the message \<open>e\<close>.\<close>

definition gen_main :: "'w gen_os \<Rightarrow> 'w \<Rightarrow> (err option \<times> 'w) option" where
  "gen_main os w =
     (case FindRepoRoot (go_Getwd os) (\<lambda>p v. map_prod (\<lambda>r. r = Exists) id (go_Stat os p v)) w of
        None \<Rightarrow> None
      | Some (Inl e, w1) \<Rightarrow> Some (Some (Errorf ''find repo root: %v'' [FErr e]), w1)
      | Some (Inr repoRoot, w1) \<Rightarrow> Some
     (let pkgDir = JoinPath [repoRoot, ''pkg''];
          mainFile = JoinPath [repoRoot, ''cmd/ovnk-mcp-server/main.go''];
          readmePath = JoinPath [repoRoot, ''README.md''] in
      case inferModesFromMain os mainFile w1 of
        (Inl e, w2) \<Rightarrow> (Some (Errorf ''infer modes from main: %v'' [FErr e]), w2)
      | (Inr (liveOrder, offlineOrder), w2) \<Rightarrow>
     (case mode_tools os pkgDir liveOrder [] w2 of (liveTools, w3) \<Rightarrow>
     (case mode_tools os pkgDir offlineOrder [] w3 of (offlineTools, w4) \<Rightarrow>
     (case updateREADME os readmePath (readme_section liveTools liveOrder offlineTools offlineOrder) w4 of
        (Some e, w5) \<Rightarrow> (Some (Errorf ''update README: %v'' [FErr e]), w5)
      | (None, w5) \<Rightarrow> (None, w5))))))"

section \<open>Rows of the table\<close>

lemma ReplaceAll_no_char: "x \<notin> set new \<Longrightarrow> x \<notin> set (ReplaceAll [x] new s)"
proof (induction s)
  case (Cons c s)
  then show ?case by (cases "c = x") auto
qed simp

lemma ReplaceAll_chars: "set (ReplaceAll old new s) \<subseteq> set new \<union> set s"
proof (induction old new s rule: ReplaceAll.induct)
  case (2 old new c s)
  have "set (drop (length old) (c # s)) \<subseteq> set (c # s)" by (rule set_drop_subset)
  then show ?case using 2 by (cases "old \<noteq> [] \<and> prefix old (c # s)") auto
qed simp

lemma escapeTableCell_chars: "CHR ''|'' \<notin> set (escapeTableCell s)" "newline \<notin> set (escapeTableCell s)"
proof -
  have "CHR ''|'' \<notin> set (ReplaceAll ''|'' ''&#124;'' s)" by (rule ReplaceAll_no_char) simp
  then have "CHR ''|'' \<notin> set (ReplaceAll [newline] '' '' (ReplaceAll ''|'' ''&#124;'' s))"
    using ReplaceAll_chars [of "[newline]" "'' ''" "ReplaceAll ''|'' ''&#124;'' s"] by auto
  moreover have "newline \<notin> set (ReplaceAll [newline] '' '' (ReplaceAll ''|'' ''&#124;'' s))"
    by (rule ReplaceAll_no_char) (simp add: newline_def)
  ultimately show "CHR ''|'' \<notin> set (escapeTableCell s)" "newline \<notin> set (escapeTableCell s)"
    unfolding escapeTableCell_def using set_TrimSpace by blast+
qed

section \<open>Replacing the section\<close>

lemma index_of_iff:
  "index_of sub s = Some i \<longleftrightarrow> i \<le> length s \<and> prefix sub (drop i s) \<and> (\<forall>j < i. \<not> prefix sub (drop j s))"
proof (induction s arbitrary: i)
  case Nil
  then show ?case by auto
next
  case (Cons c s)
  show ?case
  proof (cases "prefix sub (c # s)")
    case True
    then show ?thesis by (cases i) auto
  next
    case False
    show ?thesis
    proof (cases i)
      case 0
      then show ?thesis using False by auto
    next
      case (Suc k)
      have "(\<forall>j < Suc k. \<not> prefix sub (drop j (c # s))) \<longleftrightarrow> (\<forall>j < k. \<not> prefix sub (drop j s))"
        using False by (auto simp: less_Suc_eq_0_disj)
      then show ?thesis using False Cons.IH [of k] Suc by auto
    qed
  qed
qed

text \<open>Where a mark begins in a text, character by character.\<close>

lemma prefix_drop_nth:
  assumes "m \<noteq> []"
  shows "prefix m (drop k s) \<longleftrightarrow> k + length m \<le> length s \<and> (\<forall>j < length m. s ! (k + j) = m ! j)"
proof
  assume "prefix m (drop k s)"
  then obtain r where r: "drop k s = m @ r" by (auto simp: prefix_def)
  have l: "length s - k = length m + length r" using arg_cong [OF r, of length] by simp
  then have k: "k + length m \<le> length s" using assms by (cases m) auto
  moreover have "s ! (k + j) = m ! j" if "j < length m" for j
    using arg_cong [OF r, of "\<lambda>x. x ! j"] that k by (simp add: nth_append)
  ultimately show "k + length m \<le> length s \<and> (\<forall>j < length m. s ! (k + j) = m ! j)" by blast
next
  assume h: "k + length m \<le> length s \<and> (\<forall>j < length m. s ! (k + j) = m ! j)"
  have "take (length m) (drop k s) = m" by (rule nth_equalityI) (use h in auto)
  then show "prefix m (drop k s)" by (metis append_take_drop_id prefixI)
qed

lemma mark_chars:
  "list_all (\<lambda>j. endMark ! j \<noteq> newline) [0..<length endMark]"
  "list_all (\<lambda>j. endMark ! j \<noteq> CHR ''>'') [0..<length endMark - 1]"
  "list_all (\<lambda>j. startMark ! j \<noteq> CHR ''<'') [1..<length startMark]"
  "startMark ! (length startMark - 1) = CHR ''>''" "endMark ! 0 = CHR ''<''" "0 < length startMark" "0 < length endMark"
  by code_simp+

lemma marks_nonempty [simp]: "startMark \<noteq> []" "endMark \<noteq> []"
  using mark_chars(6,7) by auto

lemma endMark_nth: "j < length endMark \<Longrightarrow> endMark ! j \<noteq> newline" "Suc j < length endMark \<Longrightarrow> endMark ! j \<noteq> CHR ''>''"
  using mark_chars(1,2) by (auto simp: list_all_iff)

lemma startMark_nth: "0 < j \<Longrightarrow> j < length startMark \<Longrightarrow> startMark ! j \<noteq> CHR ''<''"
  using mark_chars(3) by (auto simp: list_all_iff)

text \<open>The section of a text: where its marks are and what lies around it.\<close>

definition section_at :: "string \<Rightarrow> nat \<Rightarrow> nat \<Rightarrow> nat \<Rightarrow> bool" where
  "section_at c i a j \<longleftrightarrow> index_of startMark c = Some i \<and> index_of endMark c = Some j \<and> i < j \<and>
     a = (if i + length startMark < length c \<and> c ! (i + length startMark) = newline
          then i + length startMark + 1 else i + length startMark)"

lemma replace_section_Some:
  "replace_section c g = Some c1 \<longleftrightarrow>
     (\<exists>i a j. section_at c i a j \<and> c1 = take a c @ g @ [newline] @ drop j c)"
proof (cases "index_of startMark c")
  case (Some i)
  then show ?thesis
    by (cases "index_of endMark c") (simp_all add: replace_section_def section_at_def Let_def not_less, fastforce)
qed (simp add: replace_section_def section_at_def)

lemma section_at_bounds:
  assumes "section_at c i a j"
  shows "i + length startMark \<le> a" "a \<le> j" "a \<le> length c" "c ! (a - 1) \<in> {CHR ''>'', newline}"
proof -
  let ?n = "length startMark"
  have s: "i + ?n \<le> length c" "\<And>k. k < ?n \<Longrightarrow> c ! (i + k) = startMark ! k"
    and e: "j + length endMark \<le> length c" "\<And>k. k < length endMark \<Longrightarrow> c ! (j + k) = endMark ! k" and ij: "i < j"
    using assms by (simp_all add: section_at_def index_of_iff prefix_drop_nth)
  have e0: "c ! j = CHR ''<''" using e(2) [of 0] mark_chars(5,7) by simp
  have a: "a = i + ?n + 1 \<and> c ! (i + ?n) = newline \<and> i + ?n < length c \<or> a = i + ?n"
    using assms by (auto simp: section_at_def)
  then show "i + ?n \<le> a" "a \<le> length c" using s(1) by auto
  have "c ! (i + ?n - 1) = CHR ''>''" using s(2) [of "?n - 1"] mark_chars(4,6) by simp
  then show "c ! (a - 1) \<in> {CHR ''>'', newline}" using a mark_chars(6) by auto
  have "\<not> j < i + ?n"
  proof
    assume "j < i + ?n"
    then have "j - i < ?n" "0 < j - i" using ij by linarith+
    then show False using s(2) [of "j - i"] startMark_nth [of "j - i"] ij e0 by simp
  qed
  moreover have "c ! j \<noteq> newline" using e0 by (simp add: newline_def)
  ultimately show "a \<le> j" using a by (cases "j = i + ?n") auto
qed

lemma nth_outside:
  assumes "a \<le> length c" "k < a"
  shows "(take a c @ r) ! k = c ! k"
  using assms by (simp add: nth_append)

text \<open>A mark that stays inside the part kept from before the section is a mark of the old text.\<close>

lemma prefix_kept:
  assumes "a \<le> length c" "k + length m \<le> a" "m \<noteq> []"
  shows "prefix m (drop k (take a c @ r)) \<longleftrightarrow> prefix m (drop k c)"
proof -
  have "(take a c @ r) ! (k + x) = c ! (k + x)" if "x < length m" for x
    by (rule nth_outside) (use assms that in auto)
  then show ?thesis unfolding prefix_drop_nth [OF assms(3)] using assms by auto
qed

lemma no_end_mark:
  assumes "section_at c i a j" "\<not> sublist endMark g" "k < a + length g + 1"
  shows "\<not> prefix endMark (drop k (take a c @ g @ newline # r))"
proof
  let ?d = "take a c @ g @ newline # r"
  note b = section_at_bounds [OF assms(1)]
  assume "prefix endMark (drop k ?d)"
  then have m: "k + length endMark \<le> length ?d" "\<And>x. x < length endMark \<Longrightarrow> ?d ! (k + x) = endMark ! x"
    unfolding prefix_drop_nth [OF marks_nonempty(2)] by blast+
  consider (kept) "k + length endMark \<le> a" | (across) "k < a" "a < k + length endMark"
    | (inner) "a \<le> k" "k + length endMark \<le> a + length g" | (nl) "a \<le> k" "a + length g < k + length endMark"
    by linarith
  then show False
  proof cases
    case kept
    then have "prefix endMark (drop k c)"
      using \<open>prefix endMark (drop k ?d)\<close> unfolding prefix_kept [OF b(3) kept marks_nonempty(2)] by simp
    moreover have "k < j" using kept b(2) mark_chars(7) by linarith
    ultimately show False using assms(1) by (auto simp: section_at_def index_of_iff)
  next
    case across
    then have "?d ! (a - 1) = endMark ! (a - 1 - k)" using m(2) [of "a - 1 - k"] by simp
    moreover have "?d ! (a - 1) = c ! (a - 1)" using nth_outside [of a c "a - 1"] b(3) across by simp
    ultimately show False using b(4) endMark_nth(1) [of "a - 1 - k"] endMark_nth(2) [of "a - 1 - k"] across by auto
  next
    case inner
    have "prefix endMark (drop (k - a) g)"
      unfolding prefix_drop_nth [OF marks_nonempty(2)]
    proof (intro conjI allI impI)
      show "k - a + length endMark \<le> length g" using inner by linarith
      fix x assume x: "x < length endMark"
      have l: "k + x - a < length g" "\<not> k + x < a" using x inner by linarith+
      then have "?d ! (k + x) = g ! (k + x - a)" using b(3) by (simp add: nth_append)
      then show "g ! (k - a + x) = endMark ! x" using m(2) [OF x] inner by simp
    qed
    then have "sublist endMark g" by (metis append_take_drop_id prefix_def sublist_appendI)
    then show False using assms(2) by simp
  next
    case nl
    have "?d ! (a + length g) = newline" using b(3) by (simp add: nth_append)
    moreover have "a + length g - k < length endMark" "k + (a + length g - k) = a + length g" using nl assms(3) by linarith+
    ultimately show False using m(2) [of "a + length g - k"] endMark_nth(1) [of "a + length g - k"] by simp
  qed
qed

lemma section_at_replaced:
  assumes c: "section_at c i a j" and g: "\<not> sublist endMark g" "g \<noteq> []" "hd g \<noteq> newline"
  shows "section_at (take a c @ g @ newline # drop j c) i a (a + length g + 1)"
proof -
  let ?d = "take a c @ g @ newline # drop j c"
  note b = section_at_bounds [OF c]
  have ci: "prefix startMark (drop i c)" "\<And>k. k < i \<Longrightarrow> \<not> prefix startMark (drop k c)" "prefix endMark (drop j c)"
    using c by (simp_all add: section_at_def index_of_iff)
  have s: "index_of startMark ?d = Some i"
    unfolding index_of_iff
  proof (intro conjI allI impI)
    show "i \<le> length ?d" using b by simp
    show "prefix startMark (drop i ?d)" unfolding prefix_kept [OF b(3,1) marks_nonempty(1)] by (rule ci)
    fix k assume k: "k < i"
    then have l: "k + length startMark \<le> a" using b(1) by linarith
    show "\<not> prefix startMark (drop k ?d)" unfolding prefix_kept [OF b(3) l marks_nonempty(1)] by (rule ci(2) [OF k])
  qed
  have d: "drop (a + length g + 1) ?d = drop j c" using b(3) by simp
  have e: "index_of endMark ?d = Some (a + length g + 1)"
    unfolding index_of_iff d using no_end_mark [OF c g(1)] ci(3) b(3) by (intro conjI allI impI) simp_all
  have n: "a = (if i + length startMark < length ?d \<and> ?d ! (i + length startMark) = newline
      then i + length startMark + 1 else i + length startMark)"
  proof (cases "a = i + length startMark")
    case True
    then have "?d ! (i + length startMark) = hd g" using b(3) g(2) by (simp add: nth_append hd_conv_nth)
    then show ?thesis using True g(3) by simp
  next
    case False
    then have a: "a = i + length startMark + 1" "c ! (i + length startMark) = newline"
      using c by (auto simp: section_at_def split: if_splits)
    then show ?thesis using b(3) nth_outside [of a c "i + length startMark" "g @ newline # drop j c"] by simp
  qed
  show ?thesis unfolding section_at_def using s e n b(1) mark_chars(6) by simp
qed

lemma section_at_unique: "section_at c i a j \<Longrightarrow> section_at c i' a' j' \<Longrightarrow> i = i' \<and> a = a' \<and> j = j'"
  by (simp add: section_at_def)

lemma replace_section_at: "section_at c i a j \<Longrightarrow> replace_section c g = Some (take a c @ g @ newline # drop j c)"
  unfolding replace_section_Some by (auto dest: section_at_unique)

text \<open>Claim C25: Updating the README is repeatable: the section replaced by one update is exactly the section the next
  one replaces. Whatever text was generated before, as long as it is not empty, does not begin with a
  newline and does not contain the end mark, an update gives the same file as on the original; and
  an update with the same text changes nothing.\<close>

theorem readme_update_overwrites:
  assumes "replace_section content g1 = Some content1" "\<not> sublist endMark g1" "g1 \<noteq> []" "hd g1 \<noteq> newline"
  shows "replace_section content1 g2 = replace_section content g2 \<and> replace_section content1 g1 = Some content1"
proof -
  obtain i a j where c: "section_at content i a j" and c1: "content1 = take a content @ g1 @ newline # drop j content"
    using assms(1) by (auto simp: replace_section_Some)
  have "section_at content1 i a (a + length g1 + 1)"
    unfolding c1 by (rule section_at_replaced [OF c assms(2-4)])
  then have "replace_section content1 g = Some (take a content1 @ g @ newline # drop (a + length g1 + 1) content1)" for g
    by (rule replace_section_at)
  moreover have "take a content1 = take a content" "drop (a + length g1 + 1) content1 = drop j content"
    using section_at_bounds(3) [OF c] by (simp_all add: c1)
  ultimately have "replace_section content1 g = replace_section content g" for g
    using replace_section_at [OF c, of g] by simp
  then show ?thesis using assms(1) by simp
qed

theorem readme_update_overwrites_witness:
  "\<exists>c1. replace_section (''intro '' @ startMark @ ''old'' @ endMark @ ''rest'') ''tools'' = Some c1 \<and>
     replace_section c1 ''tools'' = Some c1"
proof -
  let ?c = "''intro '' @ startMark @ ''old'' @ endMark @ ''rest''"
  let ?c1 = "''intro '' @ startMark @ ''tools'' @ [newline] @ endMark @ ''rest''"
  have r: "replace_section ?c ''tools'' = Some ?c1" by code_simp
  have "\<not> sublist endMark ''tools''" by code_simp
  with readme_update_overwrites [OF r] r show ?thesis by (auto simp: newline_def)
qed

text \<open>The rows of the table are well formed: when the name of the package and of the tool have no vertical bar
  and no newline, a row has the four bars of its three cells and is one line, whatever the description
  contains.\<close>

theorem readme_row_cells:
  assumes "{CHR ''|'', newline} \<inter> (set pkgName \<union> set (Name t)) = {}"
  shows "count_list (table_row pkgName i t) CHR ''|'' = 4 \<and>
    count_list (table_row pkgName i t) newline = 1 \<and> last (table_row pkgName i t) = newline"
proof -
  have "count_list (escapeTableCell (Description t)) CHR ''|'' = 0"
    "count_list (escapeTableCell (Description t)) newline = 0"
    using escapeTableCell_chars by (simp_all add: count_list_0_iff)
  moreover have "count_list pkgName CHR ''|'' = 0" "count_list pkgName newline = 0"
    "count_list (Name t) CHR ''|'' = 0" "count_list (Name t) newline = 0"
    using assms by (auto simp: count_list_0_iff)
  ultimately show ?thesis by (simp add: table_row_def newline_def)
qed

theorem readme_row_cells_witness:
  "count_list (table_row ''ovn'' 0 \<lparr>Name = ''ovn-show'', Description = ''a | b''\<rparr>) CHR ''|'' = 4"
  using readme_row_cells [of "''ovn''" "\<lparr>Name = ''ovn-show'', Description = ''a | b''\<rparr>" 0] by (simp add: newline_def)

end
