(* ===== verification/ToolDocs.thy ===== *)
theory ToolDocs
  imports Server GenReadme
begin

text \<open>
  What the descriptions of the tools are used for. The scanner of \<^verbatim>\<open>pkg/utils/mcptools/catalog.go\<close>, run on
  sources with the registrations the servers make, gives the catalog that the table of the tool filter
  and the README rest on; and the values a description lists for a parameter are the ones the
  validators of its tool accept.
\<close>

section \<open>The first line of a description\<close>

definition plain_char :: "char \<Rightarrow> bool" where
  "plain_char c \<longleftrightarrow> code c < 128 \<and> \<not> ascii_space c"

definition plain_line :: "string \<Rightarrow> bool" where
  "plain_line l \<longleftrightarrow> l \<noteq> [] \<and> plain_char (hd l) \<and> plain_char (last l) \<and>
     newline \<notin> set l \<and> CHR ''%'' \<notin> set l \<and> hd formatVerbSentinel \<notin> set l"

lemma ReplaceAll_left:
  "old \<noteq> [] \<Longrightarrow> hd old \<notin> set l \<Longrightarrow> ReplaceAll old new (l @ s) = l @ ReplaceAll old new s"
  by (induction l) (auto simp: prefix_def neq_Nil_conv)

lemma replace_verbs_left: "CHR ''%'' \<notin> set l \<Longrightarrow> replace_verbs (l @ s) = l @ replace_verbs s"
  by (induction l) auto

lemma stripFormatVerbs_left:
  assumes "CHR ''%'' \<notin> set l" "hd formatVerbSentinel \<notin> set l"
  shows "stripFormatVerbs (l @ s) = l @ stripFormatVerbs s"
proof -
  have "formatVerbSentinel \<noteq> []" by (simp add: formatVerbSentinel_def)
  with assms show ?thesis by (simp add: stripFormatVerbs_def Let_def ReplaceAll_left replace_verbs_left)
qed

lemma sprint_ints_char: "c \<noteq> CHR ''%'' \<Longrightarrow> sprint_ints (c # s) is = c # sprint_ints s is"
  by (cases s; cases "is") auto

lemma sprint_ints_left: "CHR ''%'' \<notin> set l \<Longrightarrow> sprint_ints (l @ s) is = l @ sprint_ints s is"
  by (induction l) (auto simp: sprint_ints_char)

lemma space_rlen_stops: "plain_char c \<Longrightarrow> space_rlen (x @ c # y) \<le> length x"
proof -
  assume c: "plain_char c"
  consider "x = []" | a where "x = [a]" | a b where "x = [a, b]" | a b d z where "x = a # b # d # z"
    by (metis list.exhaust)
  then show ?thesis
    using c by cases (auto simp: space_rlen_def plain_char_def space2_def space3_def split: list.splits)
qed

lemma space_len_plain: "plain_char c \<Longrightarrow> space_len (c # s) = 0"
  by (auto simp: space_len_def plain_char_def space2_def space3_def split: list.splits)

lemma trim_rev_stops: "plain_char c \<Longrightarrow> \<exists>x'. trim_rev (x @ c # y) = x' @ c # y \<and> suffix x' x"
proof (induction x rule: length_induct)
  case (1 x)
  let ?k = "space_rlen (x @ c # y)"
  show ?case
  proof (cases "?k = 0")
    case True
    then show ?thesis by (auto simp: trim_rev_id)
  next
    case False
    have k: "?k \<le> length x" by (rule space_rlen_stops [OF 1(2)])
    with False have "length (drop ?k x) < length x" by (cases x) auto
    with 1 obtain x' where x': "trim_rev (drop ?k x @ c # y) = x' @ c # y" "suffix x' (drop ?k x)" by blast
    have "trim_rev (x @ c # y) = trim_rev (drop ?k x @ c # y)" using False k by (subst trim_rev.simps) (simp add: Let_def)
    with x' show ?thesis by (metis suffix_drop suffix_order.trans)
  qed
qed

lemma TrimSpace_left:
  assumes "plain_line l"
  shows "\<exists>r'. TrimSpace (l @ r) = l @ r' \<and> prefix r' r"
proof -
  obtain u c where l: "l = u @ [c]" "plain_char c" using assms by (cases l rule: rev_cases) (auto simp: plain_line_def)
  have "space_len (l @ r) = 0" using assms by (cases l) (auto simp: plain_line_def space_len_plain)
  then have "TrimSpace (l @ r) = rev (trim_rev (rev r @ c # rev u))" by (simp add: TrimSpace_def trim_left_id l)
  moreover obtain x' where "trim_rev (rev r @ c # rev u) = x' @ c # rev u" "suffix x' (rev r)"
    using trim_rev_stops [OF l(2)] by blast
  ultimately show ?thesis using l by (auto simp: suffix_to_prefix intro!: exI [of _ "rev x'"])
qed

lemma index_of_newline: "newline \<notin> set l \<Longrightarrow> index_of [newline] (l @ newline # r) = Some (length l)"
  "newline \<notin> set l \<Longrightarrow> index_of [newline] l = None"
  by (induction l) auto

definition sentence :: "string \<Rightarrow> string" where
  "sentence s = (case reFirstSentence s of Some m \<Rightarrow> TrimSpace m
     | None \<Rightarrow> (case rePeriodAtEnd s of Some m \<Rightarrow> TrimSpace m | None \<Rightarrow> s))"

lemma firstLine_eq:
  "firstLine s = sentence (TrimSpace (case index_of [newline] (TrimSpace s) of
     None \<Rightarrow> TrimSpace s | Some i \<Rightarrow> take i (TrimSpace s)))"
  by (simp add: firstLine_def sentence_def Let_def)

text \<open>Only the first line of a text counts.\<close>

lemma firstLine_left: "plain_line l \<Longrightarrow> firstLine (l @ newline # r) = firstLine l"
proof -
  assume l: "plain_line l"
  have n: "newline \<notin> set l" using l by (simp add: plain_line_def)
  obtain r' where r: "TrimSpace (l @ newline # r) = l @ r'" "prefix r' (newline # r)" using TrimSpace_left [OF l] by blast
  have t: "TrimSpace l = l" using TrimSpace_left [OF l, of "[]"] by auto
  from r(2) consider "r' = []" | x where "r' = newline # x" by (cases r') auto
  then show ?thesis by cases (simp_all add: firstLine_eq r(1) t index_of_newline [OF n])
qed

lemma doc_Cons: "doc (l # m # ls) = l @ newline # doc (m # ls)"
  by (simp add: doc_def)

lemma firstLine_doc:
  assumes "plain_line l"
  shows "firstLine (doc (l # m # ls)) = firstLine l"
    "firstLine (stripFormatVerbs (doc (l # m # ls))) = firstLine l"
    "firstLine (sprint_ints (doc (l # m # ls)) is) = firstLine l"
proof -
  have "hd formatVerbSentinel \<noteq> newline" "CHR ''%'' \<noteq> newline" by code_simp+
  then have p: "CHR ''%'' \<notin> set (l @ [newline])" "hd formatVerbSentinel \<notin> set (l @ [newline])"
    using assms by (auto simp: plain_line_def)
  have d: "doc (l # m # ls) = (l @ [newline]) @ doc (m # ls)" by (simp add: doc_Cons)
  show "firstLine (doc (l # m # ls)) = firstLine l" using firstLine_left [OF assms] by (simp add: doc_Cons)
  show "firstLine (stripFormatVerbs (doc (l # m # ls))) = firstLine l"
    unfolding d stripFormatVerbs_left [OF p] using firstLine_left [OF assms] by simp
  show "firstLine (sprint_ints (doc (l # m # ls)) is) = firstLine l"
    unfolding d sprint_ints_left [OF p(1)] using firstLine_left [OF assms] by simp
qed

definition good_doc :: "desc \<Rightarrow> bool" where
  "good_doc d \<longleftrightarrow> (\<exists>l m ls is. plain_line l \<and> (d = Raw (doc (l # m # ls)) \<or> d = Sprintf (doc (l # m # ls)) is))"

lemma good_docI: "plain_line l \<Longrightarrow> good_doc (Raw (doc (l # m # ls)))" "plain_line l \<Longrightarrow> good_doc (Sprintf (doc (l # m # ls)) is)"
  by (auto simp: good_doc_def)

text \<open>The first line of every description is a line of its own that has no verb.\<close>

lemma sentinel_hd: "hd formatVerbSentinel = CHR 0xEE"
  by code_simp

lemmas plain_lines = plain_line_def plain_char_def ascii_space_def sentinel_hd newline_def

lemma good_docs_kube:
  "good_doc pod_logs_desc" "good_doc resource_get_desc" "good_doc resource_list_desc"
  unfolding pod_logs_desc_def resource_get_desc_def resource_list_desc_def
  by (rule good_docI; simp add: plain_lines)+

lemma good_docs_ovn:
  "good_doc ovn_show_desc" "good_doc ovn_get_desc" "good_doc ovn_lflow_list_desc"
  "good_doc ovn_trace_desc"
  unfolding ovn_show_desc_def ovn_get_desc_def ovn_lflow_list_desc_def ovn_trace_desc_def
  by (rule good_docI; simp add: plain_lines)+

lemma good_docs_ovs:
  "good_doc ovs_vsctl_desc" "good_doc ovs_ofctl_desc" "good_doc ovs_appctl_desc"
  unfolding ovs_vsctl_desc_def ovs_ofctl_desc_def ovs_appctl_desc_def
  by (rule good_docI; simp add: plain_lines)+

lemma good_docs_kernel:
  "good_doc get_conntrack_desc" "good_doc get_iptables_desc" "good_doc get_nft_desc"
  "good_doc get_ip_desc"
  unfolding get_conntrack_desc_def get_iptables_desc_def get_nft_desc_def get_ip_desc_def
  by (rule good_docI; simp add: plain_lines)+

lemma good_docs_nt:
  "good_doc tcpdump_desc" "good_doc pwru_desc"
  unfolding tcpdump_desc_def pwru_desc_def
  by (rule good_docI; simp add: plain_lines)+

lemma good_docs_sos:
  "good_doc sos_list_plugins_desc" "good_doc sos_list_commands_desc" "good_doc sos_search_commands_desc"
  "good_doc sos_get_command_desc" "good_doc sos_get_pod_logs_desc"
  unfolding sos_list_plugins_desc_def sos_list_commands_desc_def sos_search_commands_desc_def sos_get_command_desc_def sos_get_pod_logs_desc_def
  by (rule good_docI; simp add: plain_lines)+

lemma good_docs_mg:
  "good_doc must_gather_get_resource_desc" "good_doc must_gather_list_resources_desc" "good_doc must_gather_pod_logs_desc"
  "good_doc must_gather_ovnk_info_desc" "good_doc must_gather_list_northbound_databases_desc" "good_doc must_gather_list_southbound_databases_desc"
  "good_doc must_gather_query_database_desc"
  unfolding must_gather_get_resource_desc_def must_gather_list_resources_desc_def must_gather_pod_logs_desc_def must_gather_ovnk_info_desc_def must_gather_list_northbound_databases_desc_def must_gather_list_southbound_databases_desc_def must_gather_query_database_desc_def
  by (rule good_docI; simp add: plain_lines)+

lemmas good_docs = good_docs_kube good_docs_ovn good_docs_ovs good_docs_kernel good_docs_nt good_docs_sos good_docs_mg

section \<open>The catalog of the sources\<close>

text \<open>The registrations of every package, and how the source writes one: the description as a raw literal,
  or as a call of \<^verbatim>\<open>fmt.Sprintf\<close> on the raw format.\<close>

definition all_registrations :: "(string \<times> (string \<times> desc) list) list" where
  "all_registrations = [(''kubernetes'', kube_registrations), (''ovn'', ovn_registrations), (''ovs'', ovs_registrations),
     (''kernel'', kernel_registrations), (''network-tools'', nt_registrations), (''sosreport'', sos_registrations),
     (''must-gather'', mg_registrations @ mg_db_registrations)]"

fun written_as :: "string \<times> desc \<Rightarrow> string \<times> desc_lit \<Rightarrow> bool" where
  "written_as (n, Raw s) (n', RawLit t) \<longleftrightarrow> n' = n \<and> t = s"
| "written_as (n, Sprintf f _) (n', SprintfLit g) \<longleftrightarrow> n' = n \<and> g = f"
| "written_as _ _ \<longleftrightarrow> False"

definition readme_tool :: "string \<times> desc \<Rightarrow> Tool" where
  "readme_tool r = \<lparr>Name = tool_Name (AddTool r), Description = firstLine (tool_Description (AddTool r))\<rparr>"

lemma scanned_written:
  assumes "written_as r t" "good_doc (snd r)"
  shows "scanned_tool t = readme_tool r"
  using assms by (cases "(r, t)" rule: written_as.cases; 
      auto simp: scanned_tool_def readme_tool_def AddTool_def good_doc_def firstLine_doc)

lemma scanned_all_written:
  assumes "list_all2 written_as rs ts" "list_all (good_doc \<circ> snd) rs"
  shows "map scanned_tool ts = map readme_tool rs"
  using assms by (induction rule: list_all2_induct) (simp_all add: scanned_written)

lemma registrations_good:
  "(c, rs) \<in> set all_registrations \<Longrightarrow> list_all (good_doc \<circ> snd) rs \<and> rs \<noteq> []"
  by (auto simp: all_registrations_def registrations good_docs)

definition mcp_file :: "string \<Rightarrow> string \<Rightarrow> string" where
  "mcp_file repo c = JoinPath [JoinPath [repo, ''pkg''], c, ''mcp'', ''mcp.go'']"

text \<open>Sources in which the file of every package registers its tools: the packages are directories of
  \<^verbatim>\<open>pkg\<close>, no other directory has such a file, and the calls of the SDK's \<^verbatim>\<open>AddTool\<close> in a file, wherever in it
  they stand and whatever else it declares, are the registrations of its package.\<close>

definition parsed_as :: "'w gen_os \<Rightarrow> string \<Rightarrow> 'w \<Rightarrow> (string \<times> desc) list \<Rightarrow> bool" where
  "parsed_as os path w rs \<longleftrightarrow> (\<exists>src ts. go_ParseFile os path w = (Inr src, w) \<and>
     registrations_of (go_Unquote os) src (map Some ts) \<and> list_all2 written_as rs ts)"

definition repo_sources :: "'w gen_os \<Rightarrow> string \<Rightarrow> 'w \<Rightarrow> bool" where
  "repo_sources os repo w \<longleftrightarrow>
     (\<exists>entries. go_ReadDir os (JoinPath [repo, ''pkg'']) w = (Inr entries, w) \<and>
        (\<forall>c \<in> set (map fst all_registrations). (c, True) \<in> set entries) \<and>
        (\<forall>c \<in> set (map fst entries). go_Stat os (mcp_file repo c) w =
           (if c \<in> set (map fst all_registrations) then Exists else NotExist, w))) \<and>
     (\<forall>(c, rs) \<in> set all_registrations. parsed_as os (mcp_file repo c) w rs)"

lemma repo_sourcesD:
  "repo_sources os repo w \<Longrightarrow> (c, rs) \<in> set all_registrations \<Longrightarrow> parsed_as os (mcp_file repo c) w rs"
  unfolding repo_sources_def by fast

lemma scanned_somes: "List.map_filter (map_option scanned_tool) (map Some ts) = map scanned_tool ts"
  by (induction ts) (simp_all add: List.map_filter_simps)

lemma ExtractTools_repo:
  assumes "repo_sources os repo w" "(c, rs) \<in> set all_registrations"
  shows "ExtractTools os (mcp_file repo c) w = (Inr (map readme_tool rs), w)"
proof -
  obtain src ts where f: "go_ParseFile os (mcp_file repo c) w = (Inr src, w)"
    "registrations_of (go_Unquote os) src (map Some ts)" "list_all2 written_as rs ts"
    using repo_sourcesD [OF assms] unfolding parsed_as_def by blast
  have "map scanned_tool ts = map readme_tool rs"
    using scanned_all_written [OF f(3)] registrations_good [OF assms(2)] by blast
  with f show ?thesis by (simp add: ExtractTools_def file_tools_registrations scanned_somes)
qed

lemma registrations_distinct: "distinct (map fst all_registrations)"
  by (simp add: all_registrations_def)

lemma catalog_loop_repo:
  assumes "repo_sources os repo w"
    and "\<forall>c \<in> set (map fst entries). go_Stat os (mcp_file repo c) w =
      (if c \<in> set (map fst all_registrations) then Exists else NotExist, w)"
  shows "\<exists>out'. catalog_loop os (JoinPath [repo, ''pkg'']) entries out w = (Inr out', w) \<and>
    (\<forall>c. map_of out' c = (if (c, True) \<in> set entries \<and> map_of all_registrations c \<noteq> None
       then map_option (map readme_tool) (map_of all_registrations c) else map_of out c))"
  using assms(2)
proof (induction entries arbitrary: out)
  case (Cons e entries)
  obtain n d where e: "e = (n, d)" by (cases e)
  let ?p = "mcp_file repo n"
  show ?case
  proof (cases "d \<and> map_of all_registrations n \<noteq> None")
    case True
    then obtain rs where rs: "map_of all_registrations n = Some rs" by blast
    then have m: "(n, rs) \<in> set all_registrations" by (rule map_of_SomeD)
    then have "n \<in> set (map fst all_registrations)" by force
    then have st: "go_Stat os ?p w = (Exists, w)" using Cons.prems by (simp add: e)
    have "rs \<noteq> []" using registrations_good [OF m] by simp
    then have "catalog_loop os (JoinPath [repo, ''pkg'']) (e # entries) out w =
        catalog_loop os (JoinPath [repo, ''pkg'']) entries (AList.update n (map readme_tool rs) out) w"
      using True st ExtractTools_repo [OF assms(1) m] by (simp add: e mcp_file_def Let_def)
    moreover from Cons.IH [of "AList.update n (map readme_tool rs) out"] obtain out' where
      "catalog_loop os (JoinPath [repo, ''pkg'']) entries (AList.update n (map readme_tool rs) out) w = (Inr out', w)"
      "\<forall>c. map_of out' c = (if (c, True) \<in> set entries \<and> map_of all_registrations c \<noteq> None
        then map_option (map readme_tool) (map_of all_registrations c)
        else map_of (AList.update n (map readme_tool rs) out) c)" using Cons.prems by auto
    ultimately show ?thesis using True rs by (intro exI [of _ out']) (auto simp: e update_conv')
  next
    case False
    then have "catalog_loop os (JoinPath [repo, ''pkg'']) (e # entries) out w =
        catalog_loop os (JoinPath [repo, ''pkg'']) entries out w"
      using Cons.prems by (cases d) (auto simp: e mcp_file_def Let_def map_of_eq_None_iff)
    with False Cons.IH [of out] Cons.prems show ?thesis by (auto simp: e)
  qed
qed simp

text \<open>Claim C16: The catalog is in sync with the server. On sources whose files register the tools the servers add,
  \<^verbatim>\<open>Catalog\<close> succeeds; the names it lists for each category are those of the filter's table, in order, and
  with each name it has the first line of the description the server gives the SDK, although the scanner
  sees the format and the SDK the formatted text.\<close>

theorem catalog_in_sync:
  assumes "repo_sources os repo w"
  shows "\<exists>out. Catalog os repo w = (Inr out, w) \<and>
    (\<forall>c. map_option (map Name) (map_of out c) = map_of toolsByCategory c) \<and>
    (\<forall>c. map_option (map (\<lambda>t. (Name t, Description t))) (map_of out c) =
       map_option (map (\<lambda>r. (tool_Name (AddTool r), firstLine (tool_Description (AddTool r))))) (map_of all_registrations c))"
proof -
  obtain entries where e: "go_ReadDir os (JoinPath [repo, ''pkg'']) w = (Inr entries, w)"
    "\<forall>c \<in> set (map fst all_registrations). (c, True) \<in> set entries"
    "\<forall>c \<in> set (map fst entries). go_Stat os (mcp_file repo c) w =
       (if c \<in> set (map fst all_registrations) then Exists else NotExist, w)"
    using assms unfolding repo_sources_def by blast
  obtain out where o: "catalog_loop os (JoinPath [repo, ''pkg'']) entries [] w = (Inr out, w)"
    "\<And>c. map_of out c = (if (c, True) \<in> set entries \<and> map_of all_registrations c \<noteq> None
       then map_option (map readme_tool) (map_of all_registrations c) else None)"
    using catalog_loop_repo [OF assms e(3), of "[]"] by auto
  have m: "map_of out c = map_option (map readme_tool) (map_of all_registrations c)" for c
    using o(2) [of c] e(2) by (cases "map_of all_registrations c") (force dest: map_of_SomeD)+
  have "map_option (map Name) (map_of out c) = map_of toolsByCategory c" for c
    unfolding m by (simp add: all_registrations_def toolsByCategory_def registrations readme_tool_def AddTool_def)
  moreover have "map_option (map (\<lambda>t. (Name t, Description t))) (map_of out c) =
      map_option (map (\<lambda>r. (tool_Name (AddTool r), firstLine (tool_Description (AddTool r))))) (map_of all_registrations c)" for c
    unfolding m by (simp add: option.map_comp o_def readme_tool_def)
  ultimately show ?thesis using e(1) o(1) by (simp add: Catalog_def Let_def)
qed

text \<open>Sources laid out like the repository: in each package's file its import declarations, the server's type and
  constructor, and the method that registers the tools with their handlers, for the databases of a
  must-gather inside a condition.\<close>

primrec desc_source :: "desc \<Rightarrow> desc_lit" where
  "desc_source (Raw s) = RawLit s"
| "desc_source (Sprintf f is) = SprintfLit f"

primrec desc_args :: "desc \<Rightarrow> go_node list" where
  "desc_args (Raw s) = []"
| "desc_args (Sprintf f is) = map (\<lambda>_. Ident ''DefaultMaxLines'') is"

definition repo_module :: string where
  "repo_module = ''github.com/ovn-kubernetes/ovn-kubernetes-mcp/pkg/''"

definition sample_imports :: "(string \<times> strs \<times> (string option \<times> string) list) list" where
  "sample_imports =
     [(''kubernetes'', [''fmt'', ''k8s.io/client-go/rest'', ''k8s.io/client-go/tools/clientcmd''],
         [(None, repo_module @ ''kubernetes/client'')]),
      (''ovn'', [''context'', ''fmt'', ''strings''],
         [(Some ''ovntypes'', repo_module @ ''ovn/types''), (None, repo_module @ ''utils''), (None, repo_module @ ''utils/ovndb'')]),
      (''ovs'', [''context'', ''fmt'', ''strings''],
         [(Some ''ovstypes'', repo_module @ ''ovs/types''), (None, repo_module @ ''utils''),
          (None, repo_module @ ''utils/headtail''), (None, repo_module @ ''utils/pattern'')]),
      (''kernel'', [''context'', ''fmt'', ''time''], [(None, repo_module @ ''utils/timeout'')]),
      (''network-tools'', [''context'', ''fmt'', ''time''], [(None, repo_module @ ''utils/timeout'')]),
      (''sosreport'', [''context'', ''fmt''], [(None, repo_module @ ''sosreport/types'')]),
      (''must-gather'', [''fmt'', ''log''],
         [(Some ''omcclient'', repo_module @ ''must-gather/omc-client''),
          (Some ''ovsdbtool'', repo_module @ ''must-gather/ovsdb-tool'')])]"

definition sample_handlers :: "(string \<times> string) list" where
  "sample_handlers =
     [(''pod-logs'', ''GetPodLogs''), (''resource-get'', ''GetResource''), (''resource-list'', ''ListResources''),
      (''ovn-show'', ''Show''), (''ovn-get'', ''Get''), (''ovn-lflow-list'', ''ListLogicalFlows''), (''ovn-trace'', ''Trace''),
      (''ovs-vsctl'', ''Vsctl''), (''ovs-ofctl'', ''Ofctl''), (''ovs-appctl'', ''Appctl''),
      (''get-conntrack'', ''GetConntrack''), (''get-iptables'', ''GetIptables''), (''get-nft'', ''GetNFT''),
      (''get-ip'', ''GetIPCommandOutput''), (''tcpdump'', ''Tcpdump''), (''pwru'', ''Pwru''),
      (''sos-list-plugins'', ''ListPlugins''), (''sos-list-commands'', ''ListCommands''),
      (''sos-search-commands'', ''SearchCommands''), (''sos-get-command'', ''GetCommand''), (''sos-get-pod-logs'', ''GetPodLogs''),
      (''must-gather-get-resource'', ''GetResource''), (''must-gather-list-resources'', ''ListResources''),
      (''must-gather-pod-logs'', ''GetPodLogs''), (''must-gather-ovnk-info'', ''GetOvnKInfo''),
      (''must-gather-list-northbound-databases'', ''ListNorthboundDatabases''),
      (''must-gather-list-southbound-databases'', ''ListSouthboundDatabases''),
      (''must-gather-query-database'', ''QueryDatabase'')]"

definition register_stmt :: "string \<times> desc \<Rightarrow> go_node" where
  "register_stmt r = OtherNode [AddTool_call (Qualified ''mcp'') (desc_args (snd r)) (BasicLit True (quote_lit (fst r)))
     (case map_of sample_handlers (fst r) of Some h \<Rightarrow> h | None \<Rightarrow> ''Handler'') (desc_source (snd r))]"

definition sample_source :: "string \<Rightarrow> (string \<times> desc) list \<Rightarrow> go_file" where
  "sample_source c rs =
     (let (pre, post) = (case map_of sample_imports c of Some i \<Rightarrow> i | None \<Rightarrow> ([], []));
          imps = map (Pair None) pre @ (None, sdkImportPath) # post;
          ty = (if c = ''must-gather'' then ''MustGatherMCPServer'' else ''MCPServer'');
          k = (if c = ''must-gather'' then 4 else length rs);
          body = map register_stmt (take k rs) @
            (if drop k rs = [] then [] else [OtherNode [OtherNode [SelectorExpr (Ident ''s'') ''ovsdbTool'', Ident ''nil''],
               OtherNode (map register_stmt (drop k rs))]])
      in \<lparr>gf_Imports = map (map_prod id quote_lit) imps, gf_Funcs = [(''AddTools'', Some (OtherNode body))],
          gf_Root = OtherNode [Ident ''mcp'', import_decl imps, struct_decl ty [(''run'', ''RunFuncType'')],
            constructor_decl ty ''run'', method_decl (Qualified ''mcp'') ty ''AddTools'' body]\<rparr>)"

lemma sample_imports_plain: "map_of sample_imports c = Some (pre, post) \<Longrightarrow> sdkImportPath \<notin> set pre"
proof -
  assume "map_of sample_imports c = Some (pre, post)"
  then have "(c, pre, post) \<in> set sample_imports" by (rule map_of_SomeD)
  moreover have "list_all (\<lambda>(c, pre, post). sdkImportPath \<notin> set pre) sample_imports"
    by (simp add: sample_imports_def sdkImportPath_def)
  ultimately show ?thesis by (auto simp: list_all_iff)
qed

lemma register_stmts_calls:
  "filter (calls_AddTool (Qualified ''mcp'')) (concat (map inspect (map register_stmt rs))) =
     concat (map (\<lambda>r. case register_stmt r of OtherNode cs \<Rightarrow> cs) rs)"
proof (induction rs)
  case (Cons r rs)
  have "filter (calls_AddTool (Qualified ''mcp'')) (concat (map inspect (BasicLit True q # desc_args (snd r)))) = []" for q
    by (cases "snd r") (auto simp: calls_AddTool_def filter_empty_conv)
  then show ?case
    using Cons by (simp add: register_stmt_def AddTool_call_only) (simp add: calls_AddTool_def)
qed simp

lemma register_stmts_register:
  "[] \<notin> set (map fst rs) \<Longrightarrow> list_all2 (registers strip_quotes)
     (concat (map (\<lambda>r. case register_stmt r of OtherNode cs \<Rightarrow> cs) rs)) (map (\<lambda>r. Some (fst r, desc_source (snd r))) rs)"
  by (induction rs) (simp_all add: register_stmt_def AddTool_call_registers [OF _ not_sym] strip_quoted)

lemma sample_source_registrations:
  assumes "[] \<notin> set (map fst rs)"
  shows "registrations_of strip_quotes (sample_source c rs) (map (\<lambda>r. Some (fst r, desc_source (snd r))) rs)"
proof -
  obtain pre post where i: "(case map_of sample_imports c of Some i \<Rightarrow> i | None \<Rightarrow> ([], [])) = (pre, post)" by fastforce
  then have pre: "sdkImportPath \<notin> set pre" using sample_imports_plain by (auto split: option.splits)
  have "imports_sdk strip_quotes (gf_Imports (sample_source c rs)) (Qualified ''mcp'')"
    unfolding imports_sdk_def
    by (intro exI [of _ "map (Pair None \<circ> quote_lit) pre"] exI [of _ None] exI [of _ "quote_lit sdkImportPath"]
          exI [of _ "map (map_prod id quote_lit) post"])
      (use pre in \<open>auto simp: sample_source_def i Let_def is_lit_def strip_quoted\<close>)
  moreover have "filter (calls_AddTool (Qualified ''mcp'')) (inspect (gf_Root (sample_source c rs))) =
      concat (map (\<lambda>r. case register_stmt r of OtherNode cs \<Rightarrow> cs) rs)"
  proof -
    obtain k where k: "(if c = ''must-gather'' then 4 else length rs) = k" by blast
    have "filter (calls_AddTool (Qualified ''mcp'')) (inspect (gf_Root (sample_source c rs))) =
        concat (map (\<lambda>r. case register_stmt r of OtherNode cs \<Rightarrow> cs) (take k rs @ drop k rs))"
      unfolding map_append concat_append register_stmts_calls [symmetric]
      by (auto simp: sample_source_def i k Let_def calls_in_method calls_AddTool_def)
    then show ?thesis by simp
  qed
  ultimately show ?thesis
    unfolding registrations_of_def using register_stmts_register [OF assms]
    by (intro exI [of _ "Qualified ''mcp''"]) simp
qed

definition repo_entries :: "(string \<times> bool) list" where
  "repo_entries = [(''kernel'', True), (''kubernetes'', True), (''middleware'', True), (''must-gather'', True),
     (''network-tools'', True), (''ovn'', True), (''ovs'', True), (''sosreport'', True), (''utils'', True), (''version'', True)]"

definition sample_repo :: "unit gen_os" where
  "sample_repo = \<lparr>go_Getwd = (\<lambda>w. (Inr ''/repo'', w)),
     go_Stat = (\<lambda>p w. (if p \<in> set (map (mcp_file ''/repo'' \<circ> fst) all_registrations) then Exists else NotExist, w)),
     go_ReadDir = (\<lambda>p w. (Inr repo_entries, w)),
     go_ParseFile = (\<lambda>p w. (case map_of (map (\<lambda>r. (mcp_file ''/repo'' (fst r), r)) all_registrations) p of
        None \<Rightarrow> Inl (ExtErr ''no such file'')
      | Some (c, rs) \<Rightarrow> Inr (sample_source c rs), w)),
     go_ReadFile = (\<lambda>p w. (Inl (ExtErr ''no such file''), w)), go_WriteFile = (\<lambda>p t w. (None, w)),
     go_Unquote = (\<lambda>s. strip_quotes s)\<rparr>"

lemma registrations_named: "(c, rs) \<in> set all_registrations \<Longrightarrow> [] \<notin> set (map fst rs)"
  by (auto simp: all_registrations_def registrations)

lemma mcp_files:
  "map (mcp_file ''/repo'') (map fst repo_entries) =
     [''/repo/pkg/kernel/mcp/mcp.go'', ''/repo/pkg/kubernetes/mcp/mcp.go'', ''/repo/pkg/middleware/mcp/mcp.go'',
      ''/repo/pkg/must-gather/mcp/mcp.go'', ''/repo/pkg/network-tools/mcp/mcp.go'', ''/repo/pkg/ovn/mcp/mcp.go'',
      ''/repo/pkg/ovs/mcp/mcp.go'', ''/repo/pkg/sosreport/mcp/mcp.go'', ''/repo/pkg/utils/mcp/mcp.go'',
      ''/repo/pkg/version/mcp/mcp.go'']"
  by code_simp

lemma desc_source_written: "written_as (n, d) (n, desc_source d)"
  by (cases d) simp_all

lemma repo_paths_inj: "inj_on (mcp_file ''/repo'') (set (map fst repo_entries))"
proof -
  have "distinct (map (mcp_file ''/repo'') (map fst repo_entries))" unfolding mcp_files by simp
  then show ?thesis by (simp only: distinct_map)
qed

lemma sample_repo_sources: "repo_sources sample_repo ''/repo'' ()"
proof -
  let ?cs = "set (map fst all_registrations)"
  have c: "?cs \<subseteq> set (map fst repo_entries)" "\<forall>c \<in> ?cs. (c, True) \<in> set repo_entries"
    by (auto simp: all_registrations_def repo_entries_def)
  have i: "mcp_file ''/repo'' c \<in> set (map (mcp_file ''/repo'' \<circ> fst) all_registrations) \<longleftrightarrow> c \<in> ?cs"
    if "c \<in> set (map fst repo_entries)" for c
    using inj_on_image_mem_iff [OF repo_paths_inj that c(1)] by (simp only: set_map image_comp)
  have p: "map_of (map (\<lambda>r. (mcp_file ''/repo'' (fst r), r)) all_registrations) (mcp_file ''/repo'' c) = Some (c, rs)"
    if "(c, rs) \<in> set all_registrations" for c rs
  proof (rule map_of_is_SomeI)
    have "distinct (map (mcp_file ''/repo'') (map fst all_registrations))"
      unfolding distinct_map using registrations_distinct inj_on_subset [OF repo_paths_inj c(1)]
      by (simp add: distinct_map)
    then show "distinct (map fst (map (\<lambda>r. (mcp_file ''/repo'' (fst r), r)) all_registrations))"
      by (simp add: o_def case_prod_unfold)
  qed (use that in force)
  have "parsed_as sample_repo (mcp_file ''/repo'' c) () rs" if m: "(c, rs) \<in> set all_registrations" for c rs
  proof -
    have "list_all2 written_as rs (map (\<lambda>r. (fst r, desc_source (snd r))) rs)"
      using desc_source_written by (induction rs) (simp_all, metis prod.collapse)
    moreover have "registrations_of strip_quotes (sample_source c rs) (map Some (map (\<lambda>r. (fst r, desc_source (snd r))) rs))"
      using sample_source_registrations [OF registrations_named [OF m], of c] by (simp add: o_def)
    ultimately show ?thesis unfolding parsed_as_def using p [OF m]
      by (intro exI [of _ "sample_source c rs"] exI [of _ "map (\<lambda>r. (fst r, desc_source (snd r))) rs"])
        (simp add: sample_repo_def o_def)
  qed
  then show ?thesis
    unfolding repo_sources_def using c(2) i
    by (auto simp: sample_repo_def quote_lit_def)
qed

theorem catalog_in_sync_witness:
  "\<exists>out. Catalog sample_repo ''/repo'' () = (Inr out, ()) \<and>
    (\<forall>c. map_option (map Name) (map_of out c) = map_of toolsByCategory c)"
  using catalog_in_sync [OF sample_repo_sources] by blast

section \<open>Documented values\<close>

text \<open>The values a description lists under a parameter: the lines after the one that introduces it, up to
  the next parameter, each with the value or the alternatives before a colon, without a leading dash and
  without a placeholder in brackets, or, in a list without colons, the word after the dash.\<close>

definition item_values :: "string \<Rightarrow> strs" where
  "item_values l =
     (if CHR '':'' \<in> set l then
        (let n = TrimSpace (takeWhile (\<lambda>c. c \<noteq> CHR '':'') l)
         in map (\<lambda>v. TrimSpace (takeWhile (\<lambda>c. c \<noteq> CHR ''['') v)) (Split (CHR '','') (TrimPrefix n ''- '')))
      else (case Fields l of d # v # _ \<Rightarrow> if d = ''-'' then [v] else [] | _ \<Rightarrow> []))"

definition documented_lines :: "string \<Rightarrow> strs \<Rightarrow> strs" where
  "documented_lines param ls = concat (map item_values
     (takeWhile (\<lambda>l. \<not> HasPrefix l ''- '') (tl (dropWhile (\<lambda>l. \<not> HasPrefix l (''- '' @ param @ '' ('')) ls))))"

definition documented :: "string \<Rightarrow> string \<Rightarrow> strs" where
  "documented param text = documented_lines param (Split newline text)"

text \<open>The lines up to the parameter after the one looked for decide, when they have no verb.\<close>

definition verb_free :: "string \<Rightarrow> bool" where
  "verb_free l \<longleftrightarrow> newline \<notin> set l \<and> CHR ''%'' \<notin> set l"

lemma Split_sprint_doc:
  assumes "list_all verb_free ls" "ks \<noteq> []"
  shows "Split newline (sprint_ints (doc (ls @ ks)) is) = ls @ Split newline (sprint_ints (doc ks) is)"
  using assms(1)
proof (induction ls)
  case (Cons l ls)
  then have l: "newline \<notin> set l" "CHR ''%'' \<notin> set l" by (simp_all add: verb_free_def)
  have n: "CHR ''%'' \<noteq> newline" by code_simp
  have d: "doc (l # ls @ ks) = l @ newline # doc (ls @ ks)" using assms(2) by (cases "ls @ ks") (simp_all add: doc_Cons)
  have "sprint_ints (doc (l # ls @ ks)) is = l @ newline # sprint_ints (doc (ls @ ks)) is"
    unfolding d sprint_ints_left [OF l(2)] using sprint_ints_char [of newline "doc (ls @ ks)" "is"] n by simp
  then show ?case using Cons l by (simp add: Split_append_sep)
qed simp

lemma documented_lines_append:
  assumes "list_ex (\<lambda>l. HasPrefix l ''- '') (tl (dropWhile (\<lambda>l. \<not> HasPrefix l (''- '' @ param @ '' ('')) ls))"
  shows "documented_lines param (ls @ r) = documented_lines param ls"
proof -
  obtain P Q :: "string \<Rightarrow> bool" where P: "P = (\<lambda>l. \<not> HasPrefix l (''- '' @ param @ '' (''))"
    and Q: "Q = (\<lambda>l. \<not> HasPrefix l ''- '')" by blast
  have e: "\<exists>x \<in> set (tl (dropWhile P ls)). \<not> Q x" using assms unfolding P Q by (simp add: list_ex_iff)
  have n: "dropWhile P ls \<noteq> []"
  proof
    assume "dropWhile P ls = []"
    from e [unfolded this] show False by simp
  qed
  then have "\<exists>x \<in> set ls. \<not> P x" by (simp add: dropWhile_eq_Nil_conv)
  then have "dropWhile P (ls @ r) = dropWhile P ls @ r" by (auto intro: dropWhile_append1)
  then have "tl (dropWhile P (ls @ r)) = tl (dropWhile P ls) @ r" using n by simp
  moreover have "takeWhile Q (tl (dropWhile P ls) @ r) = takeWhile Q (tl (dropWhile P ls))"
    using e by (auto intro: takeWhile_append1)
  ultimately show ?thesis unfolding documented_lines_def P [symmetric] Q [symmetric] by simp
qed

lemma documented_take:
  assumes "k < length ls" "list_all verb_free (take k ls)"
    and "list_ex (\<lambda>l. HasPrefix l ''- '') (tl (dropWhile (\<lambda>l. \<not> HasPrefix l (''- '' @ param @ '' ('')) (take k ls)))"
  shows "documented param (sprint_ints (doc ls) is) = documented_lines param (take k ls)"
proof -
  have d: "doc ls = doc (take k ls @ drop k ls)" by simp
  have "Split newline (sprint_ints (doc ls) is) = take k ls @ Split newline (sprint_ints (doc (drop k ls)) is)"
    unfolding d by (rule Split_sprint_doc) (use assms(1,2) in auto)
  then show ?thesis unfolding documented_def using documented_lines_append [OF assms(3)] by simp
qed

text \<open>The parameter after the one looked for may have a verb further on in its line.\<close>

lemma Split_first: "\<exists>l r. Split newline (a # b # s) = (a # b # l) # r" if "a \<noteq> newline" "b \<noteq> newline"
  using that by (auto split: list.splits)

lemma documented_lines_stop:
  assumes "HasPrefix l ''- ''" "list_ex (\<lambda>l. HasPrefix l (''- '' @ param @ '' ('')) ls"
  shows "documented_lines param (ls @ l # r) = documented_lines param ls"
proof -
  have n: "dropWhile (\<lambda>l. \<not> HasPrefix l (''- '' @ param @ '' ('')) ls \<noteq> []"
    using assms(2) by (auto simp: dropWhile_eq_Nil_conv list_ex_iff)
  have "dropWhile (\<lambda>l. \<not> HasPrefix l (''- '' @ param @ '' ('')) (ls @ l # r) =
      dropWhile (\<lambda>l. \<not> HasPrefix l (''- '' @ param @ '' ('')) ls @ l # r"
    using assms(2) by (auto simp: list_ex_iff intro: dropWhile_append1)
  then show ?thesis using n assms(1) by (simp add: documented_lines_def takeWhile_tail)
qed

lemma documented_upto:
  assumes "drop k ls = (CHR ''-'' # CHR '' '' # l) # m # r" "list_all verb_free (take k ls)"
    and "list_ex (\<lambda>l. HasPrefix l (''- '' @ param @ '' ('')) (take k ls)"
  shows "documented param (sprint_ints (doc ls) is) = documented_lines param (take k ls)"
proof -
  have "Split newline (sprint_ints (doc (take k ls @ drop k ls)) is) =
      take k ls @ Split newline (sprint_ints (doc (drop k ls)) is)"
    by (rule Split_sprint_doc) (use assms in auto)
  moreover have "sprint_ints (doc (drop k ls)) is = CHR ''-'' # CHR '' '' # sprint_ints (l @ newline # doc (m # r)) is"
    by (simp add: assms(1) doc_Cons sprint_ints_char)
  moreover obtain l' r' where "Split newline (CHR ''-'' # CHR '' '' # sprint_ints (l @ newline # doc (m # r)) is) =
      (CHR ''-'' # CHR '' '' # l') # r'"
    using Split_first [of "CHR ''-''" "CHR '' ''" "sprint_ints (l @ newline # doc (m # r)) is"]
    unfolding newline_def by blast
  moreover have "HasPrefix (CHR ''-'' # CHR '' '' # l') ''- ''" by (simp add: HasPrefix_def)
  ultimately show ?thesis
    unfolding documented_def using documented_lines_stop [OF _ assms(3)] by (simp only: append_take_drop_id list.inject)
qed

lemma prefix_literals: "HasPrefix s p \<longleftrightarrow> prefix p s"
  by (auto simp: HasPrefix_def prefix_def) (metis append_take_drop_id)

lemmas doc_lines = verb_free_def newline_def tabs_def prefix_literals documented_lines_def

lemma documented_ovs_vsctl_action:
  "documented ''action'' (desc_value ovs_vsctl_desc) = [''show'', ''list-br'', ''list-ports'', ''list-ifaces'']"
  unfolding ovs_vsctl_desc_def desc_value.simps
  by (subst documented_take [where k = 10], simp_all add: doc_lines, code_simp)

lemma documented_ovs_ofctl_action:
  "documented ''action'' (desc_value ovs_ofctl_desc) = [''dump-flows'']"
  unfolding ovs_ofctl_desc_def desc_value.simps
  by (subst documented_take [where k = 7], simp_all add: doc_lines, code_simp)

lemma documented_ovs_appctl_action:
  "documented ''action'' (desc_value ovs_appctl_desc) = [''dpctl/dump-conntrack'', ''ofproto/trace'']"
  unfolding ovs_appctl_desc_def desc_value.simps
  by (subst documented_take [where k = 8], simp_all add: doc_lines, code_simp)

lemma documented_get_conntrack_command:
  "documented ''command'' (desc_value get_conntrack_desc) = [''-L'', ''--dump'', ''-C'', ''--count'', ''-S'', ''--stats'']"
  unfolding get_conntrack_desc_def desc_value.simps
  by (subst documented_take [where k = 10], simp_all add: doc_lines, code_simp)

lemma documented_get_iptables_table:
  "documented ''table'' (desc_value get_iptables_desc) = [''filter'', ''nat'', ''mangle'', ''raw'', ''security'']"
  unfolding get_iptables_desc_def desc_value.simps
  by (subst documented_take [where k = 12], simp_all add: doc_lines, code_simp)

lemma documented_get_nft_command:
  "documented ''command'' (desc_value get_nft_desc) = [''list ruleset'', ''list tables'', ''list chains'', ''list sets'',
     ''list maps'', ''list flowtables'']"
  unfolding get_nft_desc_def desc_value.simps
  by (subst documented_take [where k = 12], simp_all add: doc_lines, code_simp)

lemma documented_get_iptables_command:
  "documented ''command'' (desc_value get_iptables_desc) = [''-L'', ''--list'', ''-S'', ''--list-rules'']"
  unfolding get_iptables_desc_def desc_value.simps
  by (subst documented_take [where k = 15], code_simp+)

lemma documented_get_nft_families:
  "documented ''address_families'' (desc_value get_nft_desc) = [''ip'', ''ip6'', ''inet'', ''arp'', ''bridge'', ''netdev'']"
  unfolding get_nft_desc_def desc_value.simps
  by (subst documented_upto [where k = 19], simp, code_simp+)

lemmas documented_values = documented_get_iptables_command documented_get_nft_families documented_ovs_vsctl_action documented_ovs_ofctl_action documented_ovs_appctl_action
  documented_get_conntrack_command documented_get_iptables_table documented_get_nft_command

text \<open>Claim C17: The descriptions tell the clients the truth about the enumerated parameters. The values that they list
  are exactly those the tool accepts for the actions of the three OVS tools, the commands of \<^verbatim>\<open>get-conntrack\<close>
  (on an image that has the utility), \<^verbatim>\<open>get-iptables\<close> and \<^verbatim>\<open>get-nft\<close>, the tables of \<^verbatim>\<open>get-iptables\<close> and
  the address families of \<^verbatim>\<open>get-nft\<close>. A value of the four kernel parameters that are optional may also be
  empty, and all those of the kernel tools may have white space around them. The \<^verbatim>\<open>[chain]\<close> that two
  commands of \<^verbatim>\<open>get-iptables\<close> are documented with is not a part of an accepted command. (The
  commands of \<^verbatim>\<open>get-ip\<close>, which may be abbreviated, are not enumerated in this way.)\<close>

theorem documented_values_exact:
  "(validateVsctlAction a = ok \<longleftrightarrow> a \<in> set (documented ''action'' (desc_value ovs_vsctl_desc))) \<and>
   (validateOfctlAction a = ok \<longleftrightarrow> a \<in> set (documented ''action'' (desc_value ovs_ofctl_desc))) \<and>
   (validateAppctlAction a = ok \<longleftrightarrow> a \<in> set (documented ''action'' (desc_value ovs_appctl_desc))) \<and>
   (validateConntrackCommand c True = ok \<longleftrightarrow>
      c = [] \<or> TrimSpace c \<in> set (documented ''command'' (desc_value get_conntrack_desc))) \<and>
   (validateTableName c = ok \<longleftrightarrow>
      c = [] \<or> TrimSpace c \<in> set (documented ''table'' (desc_value get_iptables_desc))) \<and>
   (validateIptablesCommand c = ok \<longleftrightarrow>
      c = [] \<or> TrimSpace c \<in> set (documented ''command'' (desc_value get_iptables_desc))) \<and>
   (validateNFTCommand c = ok \<longleftrightarrow> TrimSpace c \<in> set (documented ''command'' (desc_value get_nft_desc))) \<and>
   (validateNFTAddressFamily c = ok \<longleftrightarrow>
      c = [] \<or> TrimSpace c \<in> set (documented ''address_families'' (desc_value get_nft_desc)))"
proof -
  have o: "validateVsctlAction a = ok \<longleftrightarrow> a \<in> set (documented ''action'' (desc_value ovs_vsctl_desc))"
    "validateOfctlAction a = ok \<longleftrightarrow> a \<in> set (documented ''action'' (desc_value ovs_ofctl_desc))"
    "validateAppctlAction a = ok \<longleftrightarrow> a \<in> set (documented ''action'' (desc_value ovs_appctl_desc))"
    unfolding documented_values validate_actions_ok ovs_actions by simp_all
  have k: "conntrack_actions True = set (documented ''command'' (desc_value get_conntrack_desc))"
    "iptables_tables = set (documented ''table'' (desc_value get_iptables_desc))"
    "iptables_actions = set (documented ''command'' (desc_value get_iptables_desc))"
    "nft_actions = set (documented ''command'' (desc_value get_nft_desc))"
    "nft_families = set (documented ''address_families'' (desc_value get_nft_desc))"
    unfolding documented_values kernel_words by auto
  show ?thesis unfolding o kernel_validators_ok k by (intro conjI refl)
qed

end
