(* ===== verification/FakeClient.thy ===== *)
theory FakeClient
  imports Prelude "HOL-Library.AList"
begin

text \<open>
  The client of the unit tests, \<^verbatim>\<open>pkg/kubernetes/client/fakeclient.go\<close>. Its discovery data is built by a
  loop that keeps each resource list under one pointer both in a map and in the slice it returns, and
  appends to the list through that pointer: the lists live in a store, a pointer is an index into it,
  and a new list is put at its end. The scheme's known types come in the order Go visits a map in;
  that order, the plural a kind is guessed to have, the text of a group version and the constructors of
  the fakes are parameters.
\<close>

section \<open>Discovery data\<close>

record gvk =
  gvk_Group :: string
  gvk_Version :: string
  gvk_Kind :: string

type_synonym group_version = "string \<times> string"

definition GroupVersion :: "gvk \<Rightarrow> group_version" where
  "GroupVersion k = (gvk_Group k, gvk_Version k)"

record APIResource =
  ar_Name :: string
  ar_Kind :: string
  ar_Group :: string
  ar_Version :: string

record APIResourceList =
  arl_GroupVersion :: string
  arl_APIResources :: "APIResource list"

record api_state =
  as_store :: "APIResourceList list"
  as_gvResources :: "(group_version \<times> nat) list"
  as_list :: "nat list"

definition api_resource :: "(gvk \<Rightarrow> string) \<Rightarrow> gvk \<Rightarrow> APIResource" where
  "api_resource guess k = \<lparr>ar_Name = guess k, ar_Kind = gvk_Kind k, ar_Group = gvk_Group k, ar_Version = gvk_Version k\<rparr>"

definition append_resource :: "nat \<Rightarrow> APIResource \<Rightarrow> APIResourceList list \<Rightarrow> APIResourceList list" where
  "append_resource p r st = st[p := (st ! p)\<lparr>arl_APIResources := arl_APIResources (st ! p) @ [r]\<rparr>]"

definition add_known_type :: "(group_version \<Rightarrow> string) \<Rightarrow> (gvk \<Rightarrow> string) \<Rightarrow> gvk \<Rightarrow> api_state \<Rightarrow> api_state" where
  "add_known_type gvText guess k s =
     (let gv = GroupVersion k;
          (p, s1) = (case map_of (as_gvResources s) gv of
              Some p \<Rightarrow> (p, s)
            | None \<Rightarrow> (length (as_store s),
                \<lparr>as_store = as_store s @ [\<lparr>arl_GroupVersion = gvText gv, arl_APIResources = []\<rparr>],
                 as_gvResources = AList.update gv (length (as_store s)) (as_gvResources s),
                 as_list = as_list s @ [length (as_store s)]\<rparr>))
      in s1\<lparr>as_store := append_resource p (api_resource guess k) (as_store s1)\<rparr>)"

definition getAPIResources ::
  "(group_version \<Rightarrow> string) \<Rightarrow> (gvk \<Rightarrow> string) \<Rightarrow> gvk list \<Rightarrow> APIResourceList list" where
  "getAPIResources gvText guess allKnownTypes =
     (let s = fold (add_known_type gvText guess) allKnownTypes \<lparr>as_store = [], as_gvResources = [], as_list = []\<rparr>
      in map ((!) (as_store s)) (as_list s))"

section \<open>The client\<close>

text \<open>The constructors of the fakes: a clientset of given objects, setting its discovery data, a dynamic
  client, a cache over the discovery data, a mapper that reads the cache, and an empty configuration.\<close>

record ('o, 'c, 'd, 'e, 'm, 'k) fake_env =
  fake_NewClientset :: "'o list \<Rightarrow> 'c"
  fake_SetResources :: "APIResourceList list \<Rightarrow> 'c \<Rightarrow> 'c"
  fake_NewSimpleDynamicClient :: "'o list \<Rightarrow> 'd"
  fake_NewMemCacheClient :: "'c \<Rightarrow> 'e"
  fake_NewDeferredDiscoveryRESTMapper :: "'e \<Rightarrow> 'm"
  fake_Config :: 'k
  fake_GVText :: "group_version \<Rightarrow> string"
  fake_GuessResource :: "gvk \<Rightarrow> string"
  fake_AllKnownTypes :: "gvk list"

record ('c, 'd, 'm, 'k) client_set =
  cs_clientSet :: 'c
  cs_dynamicClient :: 'd
  cs_deferredDiscoveryRESTMapper :: 'm
  cs_config :: 'k

definition NewFakeClient :: "('o, 'c, 'd, 'e, 'm, 'k) fake_env \<Rightarrow> 'o list \<Rightarrow> ('c, 'd, 'm, 'k) client_set" where
  "NewFakeClient env objects =
     (let clientSet = fake_SetResources env
            (getAPIResources (fake_GVText env) (fake_GuessResource env) (fake_AllKnownTypes env))
            (fake_NewClientset env objects)
      in \<lparr>cs_clientSet = clientSet, cs_dynamicClient = fake_NewSimpleDynamicClient env objects,
          cs_deferredDiscoveryRESTMapper = fake_NewDeferredDiscoveryRESTMapper env (fake_NewMemCacheClient env clientSet),
          cs_config = fake_Config env\<rparr>)"

section \<open>The lists group the types\<close>

text \<open>The group versions in the order of their first type.\<close>

definition firsts :: "gvk list \<Rightarrow> group_version list" where
  "firsts ks = fold (\<lambda>k gvs. if GroupVersion k \<in> set gvs then gvs else gvs @ [GroupVersion k]) ks []"

definition gv_list :: "(group_version \<Rightarrow> string) \<Rightarrow> (gvk \<Rightarrow> string) \<Rightarrow> gvk list \<Rightarrow> group_version \<Rightarrow> APIResourceList" where
  "gv_list gvText guess ks gv = \<lparr>arl_GroupVersion = gvText gv,
     arl_APIResources = map (api_resource guess) (filter (\<lambda>k. GroupVersion k = gv) ks)\<rparr>"

lemma firsts_snoc: "firsts (ks @ [k]) = (if GroupVersion k \<in> set (firsts ks) then firsts ks else firsts ks @ [GroupVersion k])"
  by (simp add: firsts_def)

lemma firsts_set: "set (firsts ks) = set (map GroupVersion ks)"
  by (induction ks rule: rev_induct) (auto simp: firsts_snoc firsts_def)

lemma firsts_distinct: "distinct (firsts ks)"
  by (induction ks rule: rev_induct) (auto simp: firsts_snoc firsts_def)

text \<open>What holds after the loop has seen \<open>ks\<close>: the store has one list for each group version, in order of
  appearance, the map gives each its own address, and the slice has the addresses in order.\<close>

definition api_inv :: "(group_version \<Rightarrow> string) \<Rightarrow> (gvk \<Rightarrow> string) \<Rightarrow> gvk list \<Rightarrow> api_state \<Rightarrow> bool" where
  "api_inv gvText guess ks s \<longleftrightarrow> as_store s = map (gv_list gvText guess ks) (firsts ks) \<and>
     as_list s = [0..<length (firsts ks)] \<and>
     (\<forall>gv p. map_of (as_gvResources s) gv = Some p \<longleftrightarrow> p < length (firsts ks) \<and> firsts ks ! p = gv)"

lemma gv_list_snoc:
  "gv_list gvText guess (ks @ [k]) gv = (if GroupVersion k = gv
     then (gv_list gvText guess ks gv)\<lparr>arl_APIResources := arl_APIResources (gv_list gvText guess ks gv) @ [api_resource guess k]\<rparr>
     else gv_list gvText guess ks gv)"
  by (simp add: gv_list_def)

lemma gv_lists_snoc:
  assumes "distinct gvs" "p < length gvs" "gvs ! p = GroupVersion k"
  shows "append_resource p (api_resource guess k) (map (gv_list gvText guess ks) gvs) =
    map (gv_list gvText guess (ks @ [k])) gvs"
proof (rule nth_equalityI)
  fix i assume "i < length (append_resource p (api_resource guess k) (map (gv_list gvText guess ks) gvs))"
  then have i: "i < length gvs" by (simp add: append_resource_def)
  have "GroupVersion k = gvs ! i \<longleftrightarrow> i = p" using assms i nth_eq_iff_index_eq by metis
  then show "append_resource p (api_resource guess k) (map (gv_list gvText guess ks) gvs) ! i =
      map (gv_list gvText guess (ks @ [k])) gvs ! i"
    using i assms(2) by (auto simp: append_resource_def gv_list_snoc nth_list_update)
qed (simp add: append_resource_def)

lemma api_inv_step:
  assumes "api_inv gvText guess ks s"
  shows "api_inv gvText guess (ks @ [k]) (add_known_type gvText guess k s)"
proof (cases "map_of (as_gvResources s) (GroupVersion k)")
  case (Some p)
  then have p: "p < length (firsts ks)" "firsts ks ! p = GroupVersion k" using assms unfolding api_inv_def by blast+
  then have f: "firsts (ks @ [k]) = firsts ks" by (metis firsts_snoc nth_mem)
  show ?thesis
    using assms Some gv_lists_snoc [OF firsts_distinct p]
    by (simp add: api_inv_def add_known_type_def Let_def f)
next
  case None
  let ?n = "length (firsts ks)" and ?gv = "GroupVersion k"
  have m: "map_of (as_gvResources s) gv = Some p \<longleftrightarrow> p < ?n \<and> firsts ks ! p = gv" for gv p
    using assms unfolding api_inv_def by blast
  have n: "?gv \<notin> set (firsts ks)"
  proof
    assume "?gv \<in> set (firsts ks)"
    then obtain p where "p < ?n" "firsts ks ! p = ?gv" unfolding in_set_conv_nth by blast
    then show False using m [of ?gv p] None by simp
  qed
  then have f: "firsts (ks @ [k]) = firsts ks @ [?gv]" by (simp add: firsts_snoc)
  have d: "p < ?n \<Longrightarrow> firsts ks ! p \<noteq> ?gv" for p using n nth_mem by metis
  have e: "filter (\<lambda>x. GroupVersion x = ?gv) ks = []" using n by (simp add: firsts_set filter_empty_conv) (metis image_eqI)
  have st: "as_store s @ [\<lparr>arl_GroupVersion = gvText ?gv, arl_APIResources = []\<rparr>] =
      map (gv_list gvText guess ks) (firsts ks @ [?gv])" "length (as_store s) = ?n"
    using assms e by (simp_all add: api_inv_def gv_list_def)
  have "append_resource ?n (api_resource guess k) (map (gv_list gvText guess ks) (firsts ks @ [?gv])) =
      map (gv_list gvText guess (ks @ [k])) (firsts ks @ [?gv])"
    by (rule gv_lists_snoc) (use firsts_distinct n in auto)
  moreover have "map_of (AList.update ?gv ?n (as_gvResources s)) gv = Some p \<longleftrightarrow>
      p < length (firsts ks @ [?gv]) \<and> (firsts ks @ [?gv]) ! p = gv" for gv p
    using m [of gv p] d [of p] by (cases "gv = ?gv") (auto simp: update_conv' nth_append less_Suc_eq)
  moreover have "as_list s = [0..<?n]" using assms by (simp add: api_inv_def)
  ultimately show ?thesis
    unfolding api_inv_def f add_known_type_def Let_def None option.case prod.case st(2)
    by (simp add: st(1) [unfolded map_append list.map] upt_Suc_append)
qed

lemma api_inv_fold:
  "api_inv gvText guess ks (fold (add_known_type gvText guess) ks \<lparr>as_store = [], as_gvResources = [], as_list = []\<rparr>)"
proof (induction ks rule: rev_induct)
  case Nil
  then show ?case by (simp add: api_inv_def firsts_def)
next
  case (snoc k ks)
  then show ?case by (simp add: api_inv_step)
qed

text \<open>Claim C39: The loop over pointers groups the types. In whatever order the known types are visited, the fake
  discovery data has one list for each group version that occurs, in the order of first occurrence,
  with the text of that group version and a resource for each of its types, in order; so a type is
  found under its own group version and under no other.\<close>

theorem getAPIResources_groups:
  "getAPIResources gvText guess ks =
     map (\<lambda>gv. \<lparr>arl_GroupVersion = gvText gv,
       arl_APIResources = map (api_resource guess) (filter (\<lambda>k. GroupVersion k = gv) ks)\<rparr>) (firsts ks) \<and>
   distinct (firsts ks) \<and> set (firsts ks) = set (map GroupVersion ks)"
proof -
  let ?s = "fold (add_known_type gvText guess) ks \<lparr>as_store = [], as_gvResources = [], as_list = []\<rparr>"
  have "map ((!) (as_store ?s)) (as_list ?s) = map (gv_list gvText guess ks) (firsts ks)"
    using api_inv_fold [of gvText guess ks] map_nth [of "map (gv_list gvText guess ks) (firsts ks)"]
    unfolding api_inv_def by simp
  then show ?thesis
    using firsts_distinct firsts_set by (simp add: getAPIResources_def gv_list_def [abs_def])
qed

end
