(* ===== verification/Inspector.thy ===== *)
theory Inspector
  imports Utils
begin

text \<open>
  The client of the end-to-end tests, \<^verbatim>\<open>test/e2e/inspector/mcp_inspector.go\<close>: a builder that collects
  what to call and \<open>Execute\<close>, which turns it into one run of the MCP inspector's command line. A Go map
  is the list of its entries in the order the loop visits them. The process that runs is a parameter;
  what it is given is the subject.
\<close>

section \<open>The builder\<close>

text \<open>The dynamic types the switch on a tool argument tells apart; a float carries the text \<^verbatim>\<open>fmt.Sprint\<close>
  prints for it, any other value the name of its type.\<close>

datatype go_any =
    VString string
  | VBool bool
  | VInt int
  | VFloat string
  | VStrings strs
  | VOther string

definition MethodTypeList :: string where
  "MethodTypeList = ''tools/list''"

definition MethodTypeCall :: string where
  "MethodTypeCall = ''tools/call''"

record MCPInspector =
  mi_command :: string
  mi_serverURL :: string
  mi_methodType :: string
  mi_toolName :: string
  mi_toolArgs :: "(string \<times> go_any) list"
  mi_commandflags :: "(string \<times> string) list"

definition NewMCPInspector :: MCPInspector where
  "NewMCPInspector = \<lparr>mi_command = [], mi_serverURL = [], mi_methodType = [], mi_toolName = [],
     mi_toolArgs = [], mi_commandflags = []\<rparr>"

definition mi_Command :: "string \<Rightarrow> MCPInspector \<Rightarrow> MCPInspector" where
  "mi_Command cmd i = i\<lparr>mi_command := cmd\<rparr>"

definition mi_URL :: "string \<Rightarrow> MCPInspector \<Rightarrow> MCPInspector" where
  "mi_URL url i = i\<lparr>mi_serverURL := url\<rparr>"

definition mi_CommandFlags :: "(string \<times> string) list \<Rightarrow> MCPInspector \<Rightarrow> MCPInspector" where
  "mi_CommandFlags env i = i\<lparr>mi_commandflags := env\<rparr>"

definition mi_MethodList :: "MCPInspector \<Rightarrow> MCPInspector" where
  "mi_MethodList i = i\<lparr>mi_methodType := MethodTypeList\<rparr>"

definition mi_MethodCall :: "string \<Rightarrow> (string \<times> go_any) list \<Rightarrow> MCPInspector \<Rightarrow> MCPInspector" where
  "mi_MethodCall tool as i = i\<lparr>mi_methodType := MethodTypeCall, mi_toolName := tool, mi_toolArgs := as\<rparr>"

section \<open>Argument texts\<close>

text \<open>\<^verbatim>\<open>json.Marshal\<close> of a slice of strings: the characters that are special in JSON or in HTML are
  escaped, the two Unicode line separators too, and an invalid byte becomes the replacement character.\<close>

definition hex_digit :: "nat \<Rightarrow> char" where
  "hex_digit n = ''0123456789abcdef'' ! (n mod 16)"

definition json_byte :: "nat \<Rightarrow> string" where
  "json_byte b =
     (if b = 0x5C \<or> b = 0x22 then [char_of (0x5C :: nat), char_of b]
      else if b = 8 then [char_of (0x5C :: nat), CHR ''b'']
      else if b = 12 then [char_of (0x5C :: nat), CHR ''f'']
      else if b = 10 then [char_of (0x5C :: nat), CHR ''n'']
      else if b = 13 then [char_of (0x5C :: nat), CHR ''r'']
      else if b = 9 then [char_of (0x5C :: nat), CHR ''t'']
      else if b < 0x20 \<or> b = 0x3C \<or> b = 0x3E \<or> b = 0x26
      then char_of (0x5C :: nat) # ''u00'' @ [hex_digit (b div 16), hex_digit b]
      else [char_of b])"

fun json_escape :: "string \<Rightarrow> string" where
  "json_escape [] = []"
| "json_escape (c # s) =
     (let b = of_char c; (r, size) = DecodeRuneInString (c # s) in
      if b < (0x80 :: nat) then json_byte b @ json_escape s
      else if r = 0xFFFD \<and> size = 1 then char_of (0x5C :: nat) # ''ufffd'' @ json_escape s
      else if r = 0x2028 \<or> r = 0x2029
      then char_of (0x5C :: nat) # ''u202'' @ [hex_digit r] @ json_escape (drop (size - 1) s)
      else take size (c # s) @ json_escape (drop (size - 1) s))"

definition json_string :: "string \<Rightarrow> string" where
  "json_string s = CHR 0x22 # json_escape s @ [CHR 0x22]"

definition json_strings :: "strs \<Rightarrow> string" where
  "json_strings v = ''['' @ Join (map json_string v) '','' @ '']''"

text \<open>One turn of the loop over the tool arguments: the words it appends, or the error it returns with.
  Marshalling a slice of strings does not fail.\<close>

definition value_words :: "string \<Rightarrow> string \<Rightarrow> strs" where
  "value_words key valueStr = (if valueStr \<noteq> [] then [''--tool-arg'', key @ ''='' @ valueStr] else [])"

fun tool_arg :: "string \<Rightarrow> go_any \<Rightarrow> strs result" where
  "tool_arg key (VString v) = Inr (value_words key v)"
| "tool_arg key (VBool b) = Inr (value_words key (if b then ''true'' else ''false''))"
| "tool_arg key (VInt n) = Inr (value_words key (Itoa n))"
| "tool_arg key (VFloat t) = Inr (value_words key t)"
| "tool_arg key (VStrings v) = Inr (if v = [] then [] else value_words key (json_strings v))"
| "tool_arg key (VOther ty) = Inl (Errorf ''unsupported tool-arg type for %s: %T'' [FStr key, FStr ty])"

fun tool_arg_loop :: "(string \<times> go_any) list \<Rightarrow> strs \<Rightarrow> strs result" where
  "tool_arg_loop [] acc = Inr acc"
| "tool_arg_loop ((key, value) # rest) acc = (case tool_arg key value of
       Inl e \<Rightarrow> Inl e
     | Inr ws \<Rightarrow> tool_arg_loop rest (acc @ ws))"

fun flag_loop :: "(string \<times> string) list \<Rightarrow> strs \<Rightarrow> strs" where
  "flag_loop [] acc = acc"
| "flag_loop ((key, value) # rest) acc = flag_loop rest (acc @ [''--'' @ key] @ [value])"

definition getCmdArgs :: "MCPInspector \<Rightarrow> (string \<times> strs) result" where
  "getCmdArgs i =
     (let as1 = [''-y'', ''@modelcontextprotocol/inspector'', ''--cli''] @
            (if mi_serverURL i \<noteq> [] then [mi_serverURL i] @ [''--transport'', ''http''] else [mi_command i]);
          as2 = as1 @ [''--method''] @ [mi_methodType i]
      in case (if mi_methodType i = MethodTypeCall
               then tool_arg_loop (mi_toolArgs i) (as2 @ [''--tool-name''] @ [mi_toolName i]) else Inr as2) of
           Inl e \<Rightarrow> Inl e
         | Inr as3 \<Rightarrow> Inr (''npx'',
             if mi_serverURL i = [] \<and> mi_commandflags i \<noteq> [] then flag_loop (mi_commandflags i) (as3 @ [''--'']) else as3))"

section \<open>Running it\<close>

datatype cmd_error = ExitError err string | OtherError err

type_synonym 'w cmd_Output = "string \<Rightarrow> strs \<Rightarrow> 'w \<Rightarrow> (cmd_error + string) \<times> 'w"

fun output_result :: "cmd_error + string \<Rightarrow> string result" where
  "output_result (Inl (ExitError e stderr)) = Inl (Errorf ''command failed: %v, stderr: %s'' [FErr e, FStr stderr])"
| "output_result (Inl (OtherError e)) = Inl e"
| "output_result (Inr out) = Inr out"

definition Execute :: "'w cmd_Output \<Rightarrow> MCPInspector \<Rightarrow> 'w \<Rightarrow> string result \<times> 'w" where
  "Execute output i w =
     (if mi_command i = [] \<and> mi_serverURL i = [] then (Inl (Errorf ''command or server URL is required'' []), w)
      else if mi_methodType i = [] then (Inl (Errorf ''method is required'' []), w)
      else if mi_methodType i = MethodTypeCall \<and> mi_toolName i = [] then (Inl (Errorf ''tool name is required'' []), w)
      else (case getCmdArgs i of
          Inl e \<Rightarrow> (Inl e, w)
        | Inr (cmdName, as) \<Rightarrow> (let (r, w') = output cmdName as w in (output_result r, w'))))"

section \<open>The command line\<close>

text \<open>What a tool argument is sent as: nothing for an empty text and an empty slice.\<close>

fun arg_text :: "go_any \<Rightarrow> string option" where
  "arg_text (VString v) = Some v"
| "arg_text (VBool b) = Some (if b then ''true'' else ''false'')"
| "arg_text (VInt n) = Some (Itoa n)"
| "arg_text (VFloat t) = Some t"
| "arg_text (VStrings v) = Some (if v = [] then [] else json_strings v)"
| "arg_text (VOther ty) = None"

definition arg_words :: "(string \<times> go_any) list \<Rightarrow> strs" where
  "arg_words as = concat (map (\<lambda>(k, v). case arg_text v of
     Some t \<Rightarrow> if t = [] then [] else [''--tool-arg'', k @ ''='' @ t] | None \<Rightarrow> []) as)"

definition unsupported :: "(string \<times> go_any) list \<Rightarrow> (string \<times> go_any) option" where
  "unsupported as = find (\<lambda>(k, v). arg_text v = None) as"

fun type_name :: "go_any \<Rightarrow> string" where
  "type_name (VOther ty) = ty"
| "type_name _ = []"

lemma tool_arg_loop_exact:
  "tool_arg_loop as acc = (case unsupported as of
     Some (k, v) \<Rightarrow> Inl (Errorf ''unsupported tool-arg type for %s: %T'' [FStr k, FStr (type_name v)])
   | None \<Rightarrow> Inr (acc @ arg_words as))"
proof (induction as arbitrary: acc)
  case (Cons a as)
  obtain k v where "a = (k, v)" by (cases a)
  then show ?case using Cons by (cases v) (simp_all add: arg_words_def value_words_def unsupported_def split: option.split)
qed (simp add: arg_words_def unsupported_def)

lemma flag_loop_exact: "flag_loop fs acc = acc @ concat (map (\<lambda>(k, v). [''--'' @ k, v]) fs)"
  by (induction fs acc rule: flag_loop.induct) simp_all

text \<open>The words after the program's name. A server URL is named with the HTTP transport and takes the
  place of the command, and the flags of the command are then left out.\<close>

definition inspector_words :: "MCPInspector \<Rightarrow> strs" where
  "inspector_words i = [''-y'', ''@modelcontextprotocol/inspector'', ''--cli''] @
     (if mi_serverURL i = [] then [mi_command i] else [mi_serverURL i, ''--transport'', ''http'']) @
     [''--method'', mi_methodType i] @
     (if mi_methodType i = MethodTypeCall then [''--tool-name'', mi_toolName i] @ arg_words (mi_toolArgs i) else []) @
     (if mi_serverURL i \<noteq> [] \<or> mi_commandflags i = [] then []
      else ''--'' # concat (map (\<lambda>(k, v). [''--'' @ k, v]) (mi_commandflags i)))"

text \<open>A request that can be sent: it names a server and a method, and a call names its tool and has
  arguments of supported types only.\<close>

definition complete :: "MCPInspector \<Rightarrow> bool" where
  "complete i \<longleftrightarrow> (mi_command i \<noteq> [] \<or> mi_serverURL i \<noteq> []) \<and> mi_methodType i \<noteq> [] \<and>
     (mi_methodType i = MethodTypeCall \<longrightarrow> mi_toolName i \<noteq> [] \<and> list_all (\<lambda>(k, v). arg_text v \<noteq> None) (mi_toolArgs i))"

lemma unsupported_None: "unsupported as = None \<longleftrightarrow> list_all (\<lambda>(k, v). arg_text v \<noteq> None) as"
  by (auto simp: unsupported_def find_None_iff list_all_iff)

lemma getCmdArgs_exact:
  assumes "complete i"
  shows "getCmdArgs i = Inr (''npx'', inspector_words i)"
  using assms
  by (simp add: getCmdArgs_def Let_def tool_arg_loop_exact unsupported_None [THEN iffD2] complete_def inspector_words_def flag_loop_exact)

lemma getCmdArgs_unsupported:
  assumes "mi_methodType i = MethodTypeCall" "unsupported (mi_toolArgs i) = Some (k, v)"
  shows "\<exists>e. getCmdArgs i = Inl e"
  using assms by (simp add: getCmdArgs_def Let_def tool_arg_loop_exact)

text \<open>Claim C40: The inspector is run exactly when the request is complete, once, with the program \<^verbatim>\<open>npx\<close> and the
  words of the request, whatever order the arguments are visited in, and the result is that of the
  run; an incomplete request is an error and starts nothing.\<close>

theorem Execute_exact:
  "if complete i
   then Execute output i w =
     (output_result (fst (output ''npx'' (inspector_words i) w)), snd (output ''npx'' (inspector_words i) w))
   else (\<exists>e. Execute output i w = (Inl e, w))"
proof (cases "complete i")
  case True
  then have "Execute output i w = (case getCmdArgs i of Inl e \<Rightarrow> (Inl e, w)
      | Inr (cmdName, as) \<Rightarrow> (let (r, w') = output cmdName as w in (output_result r, w')))"
    by (cases "mi_command i"; cases "mi_toolName i") (simp_all add: Execute_def complete_def)
  then show ?thesis using True by (simp add: getCmdArgs_exact case_prod_beta Let_def)
next
  case False
  show ?thesis
  proof (cases "mi_methodType i = MethodTypeCall \<and> unsupported (mi_toolArgs i) \<noteq> None")
    case True
    then obtain e where "getCmdArgs i = Inl e" using getCmdArgs_unsupported [of i] by auto
    then show ?thesis using False by (simp add: Execute_def)
  next
    case supported: False
    then show ?thesis using False
      by (cases "mi_command i"; cases "mi_serverURL i"; cases "mi_methodType i"; cases "mi_toolName i")
        (simp_all add: Execute_def complete_def unsupported_None)
  qed
qed

end
