(* ===== verification/Spec2Isabelle.thy ===== *)
theory Spec2Isabelle
  imports Lifecycle Offline ToolDocs FakeClient Inspector
begin

text \<open>
  Verification library of the OVN-Kubernetes MCP server.

  \<^bold>\<open>The program.\<close> The server (\<^verbatim>\<open>cmd/ovnk-mcp-server/main.go\<close>) offers diagnostic tools to a client over the Model
  Context Protocol. In live mode the tools of \<^verbatim>\<open>pkg/ovn\<close>, \<^verbatim>\<open>pkg/ovs\<close>, \<^verbatim>\<open>pkg/kernel\<close>, \<^verbatim>\<open>pkg/network-tools\<close> and
  \<^verbatim>\<open>pkg/kubernetes\<close> work on a cluster: they validate the client's parameters, build a command line, and run
  it in a pod or in a privileged debug pod on a node through the Kubernetes client. In offline mode
  the tools of \<^verbatim>\<open>pkg/sosreport\<close> and \<^verbatim>\<open>pkg/must-gather\<close> read archives on disk, the latter through the programs
  omc and ovsdb-tool. Two receiving middlewares stand in front of the tools: one hides and refuses
  disabled tools, the other sets a deadline. Requests come in over stdio or HTTP until a signal ends the
  program.

  \<^bold>\<open>Conventions.\<close> A Go string is a list of bytes; a handler is a function from its decoded parameters and a
  world to a result, an optional error and a world, the world being a type variable that only the code
  outside the repository acts on. A fallible operation returns \<open>err + 'a\<close>; error values keep the format
  and the arguments of \<^verbatim>\<open>fmt.Errorf\<close>, so wrapping can be stated. Durations and the flag they come from are
  64-bit words. Code outside the repository is a record of functions that is an argument of the
  definitions: the Kubernetes API, the operating system, the regular expressions of clients, JSON and
  YAML encoders, the Go parser. Map iteration orders are arguments too.

  \<^bold>\<open>Theories.\<close>
  \<^item> \<open>Prelude\<close>: error values, results, effects, validations. \<open>GoStrings\<close>, \<open>GoPath\<close>, \<open>GoRegex\<close>, \<open>GoJson\<close>: what the
    code uses of \<^verbatim>\<open>strings\<close>, \<^verbatim>\<open>strconv\<close>, \<^verbatim>\<open>path/filepath\<close>, \<^verbatim>\<open>regexp\<close> (matching by derivatives) and JSON values.
  \<^item> \<open>Utils\<close> (\<^verbatim>\<open>pkg/utils/utils.go\<close>, \<^verbatim>\<open>ovndb\<close>): validators of strings, paths and table names. \<open>Lines\<close>,
    \<open>CommandBuilder\<close>, \<open>Timeouts\<close>: the packages \<^verbatim>\<open>headtail\<close>, \<^verbatim>\<open>pattern\<close>, \<^verbatim>\<open>commandbuilder\<close> and \<^verbatim>\<open>timeout\<close>.
  \<^item> \<open>Exec\<close>: the two executors tools run commands through. \<open>calls step P w w'\<close> says that \<open>w'\<close> is reached from \<open>w\<close> by
    calls that all satisfy \<open>P\<close>; the locale \<open>exec_invariant\<close> is what an executor keeps.
  \<^item> \<open>Ovs\<close>, \<open>Ovn\<close>, \<open>Kernel\<close>, \<open>NetworkTools\<close>: the live tools. For each, every command it can run has one of a few
    shapes, and a handler succeeds exactly under stated conditions with a stated result.
  \<^item> \<open>KubeClient\<close>, \<open>KubeTypes\<close>, \<open>KubeResources\<close>, \<open>Age\<close> (\<^verbatim>\<open>pkg/kubernetes\<close>): pods, logs, debug pods with their deletion,
    resources and their output formats; the locale \<open>dynamic_client\<close> is what the resource tools keep. The
    client is an interpretation of \<open>exec_invariant\<close>. \<open>Age\<close> shows that floating point does not disturb the ages.
  \<^item> \<open>SosReport\<close>, \<open>OmcClient\<close>, \<open>OvsdbTool\<close>, \<open>MustGather\<close>: the offline tools: which paths are read and written, the
    extraction of database archives, queries and listings. \<open>OmcClient\<close> also has the lock of the client, as
    a step relation of concurrent requests that refines running them one after the other.
  \<^item> \<open>Descriptions\<close>: the names and the full descriptions of the tools, from the \<^verbatim>\<open>AddTools\<close> functions.
  \<^item> \<open>Middleware\<close>, \<open>Server\<close>: the middlewares, with the locales \<open>middleware\<close> and \<open>middleware_stack\<close> for their contract,
    flags, start-up, registration and the chain in front of the handlers; \<open>served\<close> is any sequence of requests
    through that chain.
  \<^item> \<open>Transition\<close>, \<open>Lifecycle\<close>: labelled step relations with the locales \<open>kept\<close> (an invariant) and \<open>descent\<close> (a
    measure that leads to a goal), \<open>within\<close> for a goal that every run reaches after a number of steps, and on
    them the end of \<^verbatim>\<open>main\<close>: the transport and the goroutine of the signal handler as a step relation of two
    goroutines. Whether the SDK waits for calls under way before its \<^verbatim>\<open>Run\<close> returns is the parameter \<open>waits\<close>.
  \<^item> \<open>Offline\<close>: the offline tools under the whole chain, for any sequence of requests.
  \<^item> \<open>RepoRoot\<close>, \<open>Catalog\<close>, \<open>GenReadme\<close>: the search for the repository root, the scanner of registrations
    (\<^verbatim>\<open>pkg/utils/mcptools/catalog.go\<close>) and the README generator (\<^verbatim>\<open>hack/gen-readme-tools.go\<close>). \<open>ToolDocs\<close> holds the
    scanner against the registrations of the servers, and the descriptions against the validators.
  \<^item> \<open>FakeClient\<close>, \<open>Inspector\<close>: the clients of the unit tests (\<^verbatim>\<open>pkg/kubernetes/client/fakeclient.go\<close>, with an explicit store
    for the lists it shares between a map and a slice) and of the end-to-end tests (\<^verbatim>\<open>test/e2e/inspector\<close>).
  \<^item> This theory: the live tools on the Kubernetes client under the whole chain, for any sequence of requests.

  \<^bold>\<open>What is shown.\<close> Safety of the tools: permitted commands only; the deletion of every debug pod called, under
  a deadline of its own; no write outside the must-gather; no read outside the report but for the pod logs
  of a sosreport. The permitted commands have client words without shell metacharacters, but a word may still
  be an option: the filter words of \<^verbatim>\<open>conntrack\<close>, \<^verbatim>\<open>iptables\<close> and \<^verbatim>\<open>ip\<close>, the options of \<^verbatim>\<open>get-ip\<close>, and a capture
  filter that starts with a hyphen, without which captures are bounded. Further the exact conditions of
  success of the handlers with what they return, the serialisation and progress of omc requests, deadlines,
  agreement of the filter's table, the catalog and the documented values with the registrations and the
  validators, end of the searches and of the program after a signal, what the scanner finds in a Go file
  and the round trip of the generator. Some theorems state behaviour the code should not have: an overflow
  of the timeout flag, options of \<^verbatim>\<open>ip\<close> and packet filters that are passed on as they are, a pod log path that
  leaves the report, a partial extraction taken for a complete one, HTTP requests cut off at the end, a
  signal that is lost.

  \<^bold>\<open>Loops and bounds.\<close> Loops over data are structural recursions. The poll for a running pod is a recursion
  on the number of ticks the API's clock allows it, which is part of the API record. The search for the
  repository root is a partial function that is proved to return. The ages are exact below 4096 hours:
  from there a fraction of an hour one nanosecond short of the next may round up.

  \<^bold>\<open>Not modelled.\<close> Log output; the bytes the transports exchange and the decoding of parameters by the SDK (a
  call that reaches a handler has its parameters decoded); concurrent requests other than those on the
  omc client; panics of the \<^verbatim>\<open>OrDie\<close> constructors; the assertions of the end-to-end tests (\<^verbatim>\<open>test/e2e/utils\<close>).
\<close>

section \<open>The live tools on the Kubernetes client\<close>

text \<open>The calls whose words the client can have read as options: the options of \<^verbatim>\<open>get-ip\<close>, and a capture filter
  that starts with a hyphen. With \<open>free\<close> clients make such calls.\<close>

definition passes_options :: "live_call \<Rightarrow> bool" where
  "passes_options call = (case call of
       CallGetIP i \<Rightarrow> Fields (lip_Options i) \<noteq> []
     | CallTcpdump i \<Rightarrow> option_word (BPFFilter i)
     | CallPwru i \<Rightarrow> option_word (BPFFilter i)
     | _ \<Rightarrow> False)"

inductive live_command :: "bool \<Rightarrow> strs \<Rightarrow> bool" for free where
  ovs: "ovs_readonly cmd \<Longrightarrow> live_command free cmd"
| ovn: "ovn_readonly cmd \<Longrightarrow> live_command free cmd"
| kernel: "kernel_command os cmd \<Longrightarrow> os = [] \<or> free \<Longrightarrow> live_command free cmd"
| capture: "nt_command free cmd \<Longrightarrow> live_command free cmd"

definition live_op :: "bool \<Rightarrow> node_call + pod_call \<Rightarrow> bool" where
  "live_op free c = (case c of Inl n \<Rightarrow> live_command free (nc_command n) | Inr p \<Rightarrow> live_command free (pc_command p))"

text \<open>What holds of the record of events at every moment: only permitted commands were run, and the debug
  pods whose deletion was not called are those there were at the start.\<close>

definition cluster_ok :: "bool \<Rightarrow> (string \<times> string) list \<Rightarrow> 'w \<times> event list \<Rightarrow> bool" where
  "cluster_ok free ps v \<longleftrightarrow> list_all (ran_ok (live_command free)) (snd v) \<and> abandoned (snd v) [] = ps"

interpretation live: exec_invariant
  "both_step (RunDebugNode \<lparr>clientSet = traced api\<rparr>) (RunPodExecCommand \<lparr>clientSet = traced api\<rparr>)"
  "live_op free" "cluster_ok free ps"
proof
  fix a :: "node_call + pod_call" and v :: "'a \<times> event list"
  assume a: "live_op free a" and v: "cluster_ok free ps v"
  show "cluster_ok free ps (both_step (RunDebugNode \<lparr>clientSet = traced api\<rparr>)
      (RunPodExecCommand \<lparr>clientSet = traced api\<rparr>) a v)"
  proof (cases a)
    case (Inl n)
    then show ?thesis
      using a v debug_commands.keeps [where P = "live_command free" and a = n and w = v and api = api]
        debug_pods.keeps [where a = n and w = v and ps = ps and api = api]
      by (simp add: cluster_ok_def live_op_def)
  next
    case (Inr p)
    then show ?thesis using a v pod_commands.keeps [where P = "live_command free" and a = p and w = v and ps = ps and api = api]
      by (simp add: cluster_ok_def live_op_def)
  qed
qed

lemma live_node:
  "calls (node_step (RunDebugNode \<lparr>clientSet = traced api\<rparr>)) P v v' \<Longrightarrow>
   (\<And>c. P c \<Longrightarrow> live_command free (nc_command c)) \<Longrightarrow> cluster_ok free ps v \<Longrightarrow> cluster_ok free ps v'"
  by (rule live.calls_inv [OF calls_both_node]) (auto simp: live_op_def elim: calls_mono)

lemma live_pod:
  "calls (pod_step (RunPodExecCommand \<lparr>clientSet = traced api\<rparr>)) P v v' \<Longrightarrow>
   (\<And>c. P c \<Longrightarrow> live_command free (pc_command c)) \<Longrightarrow> cluster_ok free ps v \<Longrightarrow> cluster_ok free ps v'"
  by (rule live.calls_inv [OF calls_both_pod]) (auto simp: live_op_def elim: calls_mono)

lemma live_both:
  "calls (both_step (RunDebugNode \<lparr>clientSet = traced api\<rparr>) (RunPodExecCommand \<lparr>clientSet = traced api\<rparr>)) P v v' \<Longrightarrow>
   (\<And>c. P c \<Longrightarrow> live_op free c) \<Longrightarrow> cluster_ok free ps v \<Longrightarrow> cluster_ok free ps v'"
  by (rule live.calls_inv [OF calls_mono])

lemma nt_call_live: "nt_call ns name opt c \<Longrightarrow> opt \<longrightarrow> free \<Longrightarrow> live_op free c"
  by (auto simp: nt_call_def live_op_def intro: live_command.capture nt_command_mono split: sum.splits)

lemma pod_logs_log:
  "snd (snd (KubeClient.GetPodLogs compile \<lparr>clientSet = traced api\<rparr> ctx i v)) = snd v"
proof -
  let ?f = "\<lambda>v. case client_GetPodLogs (traced api) ctx (pl_Namespace i) (pl_Name i) (pl_Container i) (pl_Previous i) v of
      (Inl e, v') \<Rightarrow> (Inl e, v') | (Inr lines, v') \<Rightarrow> (Inr (StripEmptyLines lines), v')"
  have "snd (snd (?f v)) = snd v"
    by (cases v) (auto simp: client_GetPodLogs_def traced_def split: prod.splits sum.splits)
  then have "snd (snd (ExecuteWithMatch compile (pl_Pattern i) ?f True v)) = snd v"
    using ExecuteWithMatch_world [of compile "pl_Pattern i" ?f True v] by auto
  then show ?thesis
    unfolding KubeClient.GetPodLogs_def by (auto split: prod.splits sum.splits)
qed

lemma ovs_live: "ovs_call ns name c \<Longrightarrow> live_command free (pc_command c)"
  by (simp add: ovs_call_def live_command.ovs)

lemma ovn_live: "ovn_call ns name c \<Longrightarrow> live_command free (pc_command c)"
  by (simp add: ovn_call_def live_command.ovn)

lemma kernel_live: "kernel_call s ctx ns node os c \<Longrightarrow> os = [] \<or> free \<Longrightarrow> live_command free (nc_command c)"
  by (auto simp: kernel_call_def intro: live_command.kernel)

lemma run_live_ok:
  assumes "set order = set validIPCommand" "cluster_ok free ps v" "passes_options call \<longrightarrow> free"
  shows "cluster_ok free ps (run_live compile lib order now
    (live_over sc \<lparr>ks_pods = \<lparr>clientSet = traced api\<rparr>, ks_dynamic = traced_dynamic dyn\<rparr>) ctx call v)"
proof -
  let ?k = "\<lparr>clientSet = traced api\<rparr>"
  let ?ovn = "\<lparr>ovn_runPodExecCommand = RunPodExecCommand ?k\<rparr>"
  let ?ovs = "\<lparr>ovs_runPodExecCommand = RunPodExecCommand ?k\<rparr>"
  let ?kn = "\<lparr>runDebugNodeCommand = RunDebugNode ?k, cfg = cfg_Kernel sc\<rparr>"
  let ?nt = "\<lparr>nt_runDebugNodeCommand = RunDebugNode ?k, nt_runPodExecCommand = RunPodExecCommand ?k, nt_cfg = cfg_NetworkTools sc\<rparr>"
  note ovn_calls = ovn_handler_calls [where s = ?ovn, unfolded ovn_MCPServer.select_convs]
  note ovs_calls = ovs_handler_calls [where s = ?ovs, unfolded ovs_MCPServer.select_convs]
  note kn_calls = kernel_conntrack_calls [where s = ?kn, unfolded kernel_MCPServer.select_convs(1)]
    kernel_iptables_calls [where s = ?kn, unfolded kernel_MCPServer.select_convs(1)]
    kernel_nft_calls [where s = ?kn, unfolded kernel_MCPServer.select_convs(1)]
    kernel_ip_calls [OF assms(1), where s = ?kn, unfolded kernel_MCPServer.select_convs(1)]
  note nt_calls = capture_handler_calls [where s = ?nt, unfolded nt_MCPServer.select_convs(1,2)]
  have ovn: "cluster_ok free ps (snd (Show ?ovn ctx i1 v))" "cluster_ok free ps (snd (Get compile ?ovn ctx i2 v))"
    "cluster_ok free ps (snd (ListLogicalFlows compile ?ovn ctx i3 v))" "cluster_ok free ps (snd (Trace compile ?ovn ctx i4 v))"
    for i1 i2 i3 i4
    by (rule live_pod [OF ovn_calls(1)] live_pod [OF ovn_calls(2)] live_pod [OF ovn_calls(3)] live_pod [OF ovn_calls(4)];
      (erule ovn_live | rule assms))+
  have ovs: "cluster_ok free ps (snd (Vsctl ?ovs ctx i1 v))" "cluster_ok free ps (snd (Ofctl compile ?ovs ctx i2 v))"
    "cluster_ok free ps (snd (Appctl compile ?ovs ctx i3 v))" for i1 i2 i3
    by (rule live_pod [OF ovs_calls(1)] live_pod [OF ovs_calls(2)] live_pod [OF ovs_calls(3)];
      (erule ovs_live | rule assms))+
  have kn: "cluster_ok free ps (snd (GetConntrack now ?kn ctx i1 v))" "cluster_ok free ps (snd (GetIptables now ?kn ctx i2 v))"
    "cluster_ok free ps (snd (GetNFT now ?kn ctx i3 v))" for i1 i2 i3
    by (rule live_node [OF kn_calls(1)] live_node [OF kn_calls(2)] live_node [OF kn_calls(3)];
      (erule kernel_live, simp | rule assms))+
  have ip: "cluster_ok free ps (snd (GetIPCommandOutput order now ?kn ctx i v))" if "Fields (lip_Options i) = [] \<or> free" for i
    by (rule live_node [OF kn_calls(4)]) (erule kernel_live, rule that, rule assms)
  have nt: "option_word (BPFFilter i1) \<longrightarrow> free \<Longrightarrow> cluster_ok free ps (snd (Tcpdump now ?nt ctx i1 v))"
    "option_word (BPFFilter i2) \<longrightarrow> free \<Longrightarrow> cluster_ok free ps (snd (Pwru now ?nt ctx i2 v))" for i1 i2
    by (rule live_both [OF nt_calls(1)] live_both [OF nt_calls(2)]; (erule nt_call_live, simp | rule assms))+
  have pl: "cluster_ok free ps (snd (KubeClient.GetPodLogs compile ?k ctx i v))" for i
    using assms(2) by (simp add: cluster_ok_def pod_logs_log)
  have rs: "cluster_ok free ps (snd (kube_GetResource lib (traced_dynamic dyn) ctx i1 v))"
    "cluster_ok free ps (snd (kube_ListResources lib (traced_dynamic dyn) ctx i2 v))" for i1 i2
    using assms(2) traced_dynamic.kube_GetResource_keeps [where J = "\<lambda>l. list_all (ran_ok (live_command free)) l \<and> abandoned l [] = ps" and w = v and lib = lib and c = dyn and ctx = ctx and i = i1]
      traced_dynamic.kube_ListResources_keeps [where J = "\<lambda>l. list_all (ran_ok (live_command free)) l \<and> abandoned l [] = ps" and w = v and lib = lib and c = dyn and ctx = ctx and i = i2]
    by (simp_all add: cluster_ok_def)
  have opt: "call = CallGetIP i \<Longrightarrow> Fields (lip_Options i) = [] \<or> free"
    "call = CallTcpdump t \<Longrightarrow> option_word (BPFFilter t) \<longrightarrow> free" "call = CallPwru p \<Longrightarrow> option_word (BPFFilter p) \<longrightarrow> free"
    for i t p using assms(3) by (auto simp: passes_options_def)
  show ?thesis by (cases call) (simp_all add: live_over_def ovn ovs kn ip nt pl rs opt)
qed

section \<open>Serving requests\<close>

lemma served_ok:
  assumes "served sc h w v" "cluster_ok free ps w"
    and "sdk_dispatch live_tool (\<lambda>call. passes_options call \<longrightarrow> free) (\<lambda>now. run_live compile lib order now
      (live_over sc \<lparr>ks_pods = \<lparr>clientSet = traced api\<rparr>, ks_dynamic = traced_dynamic dyn\<rparr>)) tools h"
    and "set order = set validIPCommand"
  shows "cluster_ok free ps v"
  by (rule served_keeps [where J = "cluster_ok free ps", OF assms(1,2,3)]) (rule run_live_ok [OF assms(4)])

text \<open>Every client the server is built on records its events.\<close>

definition traced_env :: "('c \<Rightarrow> 'w kube_api) \<Rightarrow> ('c \<Rightarrow> 'w dynamic_api) \<Rightarrow> (string \<Rightarrow> 'c result) \<Rightarrow> 'c result \<Rightarrow>
    ('c, 'w \<times> event list) kube_env" where
  "traced_env apis dyns build incluster = \<lparr>BuildConfigFromFlags = build, InClusterConfig = incluster,
     NewClientSet = (\<lambda>c. traced (apis c)), NewDynamic = (\<lambda>c. traced_dynamic (dyns c))\<rparr>"

lemma traced_setup:
  assumes "setupLiveCluster (traced_env apis dyns build incluster) sc [] = Continue (l, tools)"
  obtains c where "l = live_over sc \<lparr>ks_pods = \<lparr>clientSet = traced (apis c)\<rparr>, ks_dynamic = traced_dynamic (dyns c)\<rparr>"
  using assms unfolding setupLiveCluster_eq
  by (auto simp: kube_NewMCPServer_def NewOVNKMCPServerClientSet_def traced_env_def split: sum.splits if_splits)

text \<open>Claim C1: a server in live mode is safe for the cluster. From start-up with any configuration, after any
  sequence of requests at any times, every command that was run in a pod or on a node is one of the OVS
  and OVN tools' queries, a version probe of the kernel tools or one of their listing actions with any filter
  words after it, or a bounded capture, and client words have no shell metacharacters. For this no client may give \<^verbatim>\<open>get-ip\<close> options or a capture
  a filter that starts with a hyphen; with \<open>free\<close> they may, and \<^verbatim>\<open>ip\<close> commands with any option words and
  captures with such a filter, which may lift the bounds, are run too. In both cases the deletion of
  every debug pod that was created has been called, and the pods left behind are at most those whose
  deletion the API refused.\<close>

theorem served_requests_safe:
  assumes "setupLiveCluster (traced_env apis dyns build incluster) sc [] = Continue (l, tools)"
    and "sdk_dispatch live_tool (\<lambda>call. passes_options call \<longrightarrow> free) (\<lambda>now. run_live compile lib order now l) tools h"
    and "set order = set validIPCommand"
    and "served sc h (w, []) (w', events)"
  shows "list_all (ran_ok (live_command free)) events \<and> abandoned events [] = [] \<and>
    mset (leaked events []) \<subseteq># refused events"
proof -
  obtain c where l: "l = live_over sc \<lparr>ks_pods = \<lparr>clientSet = traced (apis c)\<rparr>, ks_dynamic = traced_dynamic (dyns c)\<rparr>"
    using traced_setup [OF assms(1)] .
  have "cluster_ok free [] (w', events)"
    by (rule served_ok [OF assms(4) _ assms(2) [unfolded l] assms(3)]) (simp add: cluster_ok_def)
  then show ?thesis using leaked_refused [of "[]" "[]" "{#}" events] by (simp add: cluster_ok_def)
qed

text \<open>A cluster in which every call succeeds, and a client that asks for the connection tracking table of a
  node; the tool runs a version probe and the listing, each in a debug pod of its own.\<close>

definition sample_api :: "unit kube_api" where
  "sample_api = \<lparr>api_now = (\<lambda>_. 0), api_ticks = (\<lambda>_. 1), api_Create = (\<lambda>_ _ _ w. (Inr ''pod-1'', w)),
     api_Get = (\<lambda>_ _ _ w. (Inr \<lparr>pi_Phase = ''Running'', pi_Containers = [''c'']\<rparr>, w)),
     api_Delete = (\<lambda>_ _ _ w. (None, w)), api_GetLogs = (\<lambda>_ _ _ _ _ w. (Inr [], w)),
     api_Exec = (\<lambda>_ _ _ _ _ w. (Inr (''flow'', []), w))\<rparr>"

definition sample_dynamic :: "unit dynamic_api" where
  "sample_dynamic = \<lparr>ServerResources = (\<lambda>_ _ w. (Inr [], w)),
     RESTMapping = (\<lambda>_ _ _ w. (Inr \<lparr>gvr_Group = [], gvr_Version = [], gvr_Resource = []\<rparr>, w)),
     dyn_Get = (\<lambda>_ _ _ _ w. (Inr JNull, w)), dyn_List = (\<lambda>_ _ _ _ w. (Inr \<lparr>Items = [], ListContent = JNull\<rparr>, w)),
     gvString = (\<lambda>_ _. []), gvkString = (\<lambda>_ _ _. []), gvrString = (\<lambda>_. [])\<rparr>"

definition sample_lib :: "'w object_lib" where
  "sample_lib = \<lparr>GetName = (\<lambda>_. []), GetNamespace = (\<lambda>_. []), GetLabels = (\<lambda>_. []), GetAnnotations = (\<lambda>_. []),
     Since = (\<lambda>_ _. 0), MarshalJSON = (\<lambda>_. Inr []), MarshalYAML = (\<lambda>_. Inr []),
     jsonpath_Parse = (\<lambda>_. None), jsonpath_Execute = (\<lambda>_ _. Inr [])\<rparr>"

definition sample_env :: "(unit, unit \<times> event list) kube_env" where
  "sample_env = traced_env (\<lambda>_. sample_api) (\<lambda>_. sample_dynamic) (\<lambda>_. Inr ()) (Inr ())"

definition sample_cfg :: MCPServerConfig where
  "sample_cfg = (case parseFlags default_flags of Continue sc \<Rightarrow> sc)"

definition sample_servers :: "(unit \<times> event list) live_servers" where
  "sample_servers = live_over sample_cfg \<lparr>ks_pods = \<lparr>clientSet = traced sample_api\<rparr>,
     ks_dynamic = traced_dynamic sample_dynamic\<rparr>"

definition sample_call :: live_call where
  "sample_call = CallGetConntrack \<lparr>Kernel.CommonParams.Node = ''n1'', Namespace = [], cp_HeadTail = \<lparr>Head = 0, Tail = 0, ApplyTailFirst = False\<rparr>,
     cp_Timeout = \<lparr>TimeoutSeconds = 5\<rparr>, ct_Command = ''-L'', ct_FilterParameters = []\<rparr>"

definition sample_handler :: "int \<Rightarrow> (unit, unit \<times> event list) method_handler" where
  "sample_handler now ctx meth req v = ((NilResult, None),
     if meth = ''tools/call'' \<and> callToolName req = ''get-conntrack''
     then run_live (\<lambda>_. Inr (\<lambda>_. True)) sample_lib validIPCommand now sample_servers ctx sample_call v else v)"

abbreviation sample_run_live :: "int \<Rightarrow> Context \<Rightarrow> live_call \<Rightarrow> unit \<times> event list \<Rightarrow> unit \<times> event list" where
  "sample_run_live \<equiv> \<lambda>now. run_live (\<lambda>_. Inr (\<lambda>_. True)) sample_lib validIPCommand now sample_servers"

lemma sample_dispatch:
  "''get-conntrack'' \<in> tool_Name ` set tools \<Longrightarrow>
   sdk_dispatch live_tool (\<lambda>call. passes_options call \<longrightarrow> False) sample_run_live tools sample_handler"
  by (auto simp: sdk_dispatch_def sample_handler_def sample_call_def passes_options_def intro!: exI [of _ sample_call])

lemma sample_setup:
  "setupLiveCluster sample_env sample_cfg [] =
     Continue (sample_servers, kube_AddTools @ ovn_AddTools @ ovs_AddTools @ kernel_AddTools @ nt_AddTools)"
  by (simp add: setupLiveCluster_eq kube_NewMCPServer_def sample_env_def traced_env_def sample_servers_def
      NewOVNKMCPServerClientSet_def)

lemma sample_run:
  "length (snd (snd (receivingHandler 0 sample_cfg (sample_handler 0) context_Background ''tools/call''
     (Some (CallToolParamsRaw ''get-conntrack'' None)) ((), [])))) = 6"
  "refused (snd (snd (receivingHandler 0 sample_cfg (sample_handler 0) context_Background ''tools/call''
     (Some (CallToolParamsRaw ''get-conntrack'' None)) ((), [])))) = {#}"
  by code_simp+

theorem served_requests_safe_witness:
  "\<exists>w' events. served sample_cfg sample_handler ((), []) (w', events) \<and> length events = 6 \<and>
     list_all (ran_ok (live_command False)) events \<and> abandoned events [] = [] \<and> leaked events [] = []"
proof -
  let ?v = "snd (receivingHandler 0 sample_cfg (sample_handler 0) context_Background ''tools/call''
     (Some (CallToolParamsRaw ''get-conntrack'' None)) ((), []))"
  have s: "served sample_cfg sample_handler ((), []) (fst ?v, snd ?v)"
    unfolding prod.collapse by (rule served.request [OF served.start])
  have d: "sdk_dispatch live_tool (\<lambda>call. passes_options call \<longrightarrow> False) sample_run_live
      (kube_AddTools @ ovn_AddTools @ ovs_AddTools @ kernel_AddTools @ nt_AddTools) sample_handler"
    by (rule sample_dispatch) (simp add: kernel_AddTools_def kernel_registrations_def AddTool_def)
  show ?thesis
    using served_requests_safe [OF sample_setup [unfolded sample_env_def] d refl s] s sample_run by auto
qed

end
